(* ===== verification/Prelude.thy ===== *)
theory Prelude
  imports Main
begin

text \<open>
  Shared vocabulary of the development: the shape of an effectful Go function, the way a
  caller tests its error, and the generic facts about state relations, tables and lists
  that the component theories use.

  A Go function that reads or changes the world and returns a value of type \<open>'a\<close> is a
  function \<open>'s \<Rightarrow> 'a \<times> 's\<close>. A function with a Go \<open>(T, error)\<close> result has
  \<open>'a = 'e + 't\<close>, where \<open>Inl\<close> is the non-nil error. The idiom
  \<^verbatim>\<open>x, err := m(); if err != nil { h }; k\<close>
  is \<open>on_result m h k\<close>.
\<close>

section \<open>Effectful functions\<close>

type_synonym ('s, 'a) st = "'s \<Rightarrow> 'a \<times> 's"

definition ret :: "'a \<Rightarrow> ('s, 'a) st" where
  "ret x = (\<lambda>s. (x, s))"

definition and_then :: "('s, 'a) st \<Rightarrow> ('a \<Rightarrow> ('s, 'b) st) \<Rightarrow> ('s, 'b) st" where
  "and_then m k = (\<lambda>s. case m s of (x, t) \<Rightarrow> k x t)"

definition on_result ::
  "('s, 'e + 'a) st \<Rightarrow> ('e \<Rightarrow> ('s, 'b) st) \<Rightarrow> ('a \<Rightarrow> ('s, 'b) st) \<Rightarrow> ('s, 'b) st" where
  "on_result m h k = (\<lambda>s. case m s of (Inl e, t) \<Rightarrow> h e t | (Inr x, t) \<Rightarrow> k x t)"

abbreviation ok :: "'a \<Rightarrow> ('s, 'e + 'a) st" where
  "ok x \<equiv> ret (Inr x)"

abbreviation fail :: "'e \<Rightarrow> ('s, 'e + 'a) st" where
  "fail e \<equiv> ret (Inl e)"

text \<open>\<open>_ = f()\<close>: the result, error included, is dropped.\<close>

definition discard_result :: "('s, 'a) st \<Rightarrow> ('s, 'b) st \<Rightarrow> ('s, 'b) st" where
  "discard_result m k = and_then m (\<lambda>_. k)"

text \<open>Reading a component of the state, such as the clock.\<close>

definition read_state :: "('s \<Rightarrow> 'a) \<Rightarrow> ('s, 'a) st" where
  "read_state f = (\<lambda>s. (f s, s))"

definition modify_state :: "('s \<Rightarrow> 's) \<Rightarrow> ('s, unit) st" where
  "modify_state f = (\<lambda>s. ((), f s))"

lemma read_state_apply [simp]: "read_state f s = (f s, s)"
  by (simp add: read_state_def)

lemma modify_state_apply [simp]: "modify_state f s = ((), f s)"
  by (simp add: modify_state_def)

lemma ret_apply [simp]: "ret x s = (x, s)"
  by (simp add: ret_def)

lemma and_then_apply: "and_then m k s = (case m s of (x, t) \<Rightarrow> k x t)"
  by (simp add: and_then_def)

lemma on_result_apply:
  "on_result m h k s = (case m s of (Inl e, t) \<Rightarrow> h e t | (Inr x, t) \<Rightarrow> k x t)"
  by (simp add: on_result_def)

lemma discard_result_apply: "discard_result m k s = k (snd (m s))"
  by (simp add: discard_result_def and_then_def split: prod.split)

lemma on_resultE:
  assumes "on_result m h k s = (res, t)"
  obtains (err) e u where "m s = (Inl e, u)" and "h e u = (res, t)"
  | (okay) x u where "m s = (Inr x, u)" and "k x u = (res, t)"
  using assms by (auto simp: on_result_apply split: prod.splits sum.splits)

lemmas run_simps = and_then_apply on_result_apply discard_result_apply

section \<open>Relations between the state before and the state after\<close>

text \<open>
  \<open>steps R m\<close>: whatever state \<open>m\<close> starts in, it ends in an \<open>R\<close>-related one. When \<open>R\<close> is
  reflexive and transitive (a field that is not touched, an invariant that is kept, a
  table that only grows) the fact composes along the control flow of the code; the locale
  proves the composition once for all such relations.
\<close>

definition steps :: "('s \<Rightarrow> 's \<Rightarrow> bool) \<Rightarrow> ('s, 'a) st \<Rightarrow> bool" where
  "steps R m \<longleftrightarrow> (\<forall>s. R s (snd (m s)))"

definition same :: "('s \<Rightarrow> 'f) \<Rightarrow> 's \<Rightarrow> 's \<Rightarrow> bool" where
  "same f s t \<longleftrightarrow> f t = f s"

definition keeps :: "('s \<Rightarrow> bool) \<Rightarrow> 's \<Rightarrow> 's \<Rightarrow> bool" where
  "keeps P s t \<longleftrightarrow> (P s \<longrightarrow> P t)"

lemma stepsI: "(\<And>s. R s (snd (m s))) \<Longrightarrow> steps R m"
  by (simp add: steps_def)

lemma stepsD: "steps R m \<Longrightarrow> R s (snd (m s))"
  by (simp add: steps_def)

lemma stepsE: "steps R m \<Longrightarrow> m s = (x, t) \<Longrightarrow> R s t"
  by (metis snd_conv stepsD)

locale state_relation =
  fixes R :: "'s \<Rightarrow> 's \<Rightarrow> bool"
  assumes R_refl: "R s s"
    and R_trans: "R s t \<Longrightarrow> R t u \<Longrightarrow> R s u"
begin

lemma steps_ret: "steps R (ret x)"
  by (simp add: steps_def R_refl)

lemma steps_read_state: "steps R (read_state f)"
  by (simp add: steps_def R_refl)

lemma steps_and_then:
  assumes "steps R m" and "\<And>x. steps R (k x)"
  shows "steps R (and_then m k)"
proof (rule stepsI)
  fix s
  obtain x t where m: "m s = (x, t)" by (cases "m s")
  have "R s t" by (rule stepsE [OF assms(1) m])
  moreover have "R t (snd (k x t))" by (rule stepsD [OF assms(2)])
  ultimately show "R s (snd (and_then m k s))"
    using m by (auto simp: and_then_apply intro: R_trans)
qed

lemma steps_on_result:
  assumes "steps R m" and "\<And>e. steps R (h e)" and "\<And>x. steps R (k x)"
  shows "steps R (on_result m h k)"
proof (rule stepsI)
  fix s
  obtain r t where m: "m s = (r, t)" by (cases "m s")
  have st: "R s t" by (rule stepsE [OF assms(1) m])
  show "R s (snd (on_result m h k s))"
  proof (cases r)
    case (Inl e)
    have "R t (snd (h e t))" by (rule stepsD [OF assms(2)])
    with st Inl m show ?thesis by (auto simp: on_result_apply intro: R_trans)
  next
    case (Inr x)
    have "R t (snd (k x t))" by (rule stepsD [OF assms(3)])
    with st Inr m show ?thesis by (auto simp: on_result_apply intro: R_trans)
  qed
qed

lemma steps_discard_result: "steps R m \<Longrightarrow> steps R k \<Longrightarrow> steps R (discard_result m k)"
  by (simp add: discard_result_def steps_and_then)

end

interpretation same_rel: state_relation "same f" for f
  by unfold_locales (simp_all add: same_def)

interpretation keeps_rel: state_relation "keeps P" for P
  by unfold_locales (simp_all add: keeps_def)

named_theorems step_rules

lemmas same_steps [step_rules] =
  same_rel.steps_ret same_rel.steps_read_state same_rel.steps_and_then same_rel.steps_on_result
  same_rel.steps_discard_result

lemmas keeps_steps [step_rules] =
  keeps_rel.steps_ret keeps_rel.steps_read_state keeps_rel.steps_and_then keeps_rel.steps_on_result
  keeps_rel.steps_discard_result

lemma steps_if [step_rules]:
  "(b \<Longrightarrow> steps R m) \<Longrightarrow> (\<not> b \<Longrightarrow> steps R n) \<Longrightarrow> steps R (if b then m else n)"
  by simp

lemma steps_case_option [step_rules]:
  "(v = None \<Longrightarrow> steps R m) \<Longrightarrow> (\<And>x. v = Some x \<Longrightarrow> steps R (k x)) \<Longrightarrow>
   steps R (case v of None \<Rightarrow> m | Some x \<Rightarrow> k x)"
  by (cases v) auto

lemma steps_case_sum [step_rules]:
  "(\<And>e. v = Inl e \<Longrightarrow> steps R (h e)) \<Longrightarrow> (\<And>x. v = Inr x \<Longrightarrow> steps R (k x)) \<Longrightarrow>
   steps R (case v of Inl e \<Rightarrow> h e | Inr x \<Rightarrow> k x)"
  by (cases v) auto

lemma steps_case_prod [step_rules]:
  "(\<And>x y. v = (x, y) \<Longrightarrow> steps R (k x y)) \<Longrightarrow> steps R (case v of (x, y) \<Rightarrow> k x y)"
  by (cases v) auto

lemma steps_let [step_rules]: "(\<And>x. steps R (k x)) \<Longrightarrow> steps R (Let v k)"
  by (simp add: Let_def)

lemma keeps_from_same: "steps (same f) m \<Longrightarrow> steps (keeps (\<lambda>s. P (f s))) m"
  by (simp add: steps_def same_def keeps_def)

section \<open>Tables\<close>

text \<open>
  A table is the list of its rows, in insertion order; \<open>UPDATE\<close> and \<open>DELETE\<close> act on the
  rows a \<open>WHERE\<close> clause selects.
\<close>

definition update_rows :: "('r \<Rightarrow> bool) \<Rightarrow> ('r \<Rightarrow> 'r) \<Rightarrow> 'r list \<Rightarrow> 'r list" where
  "update_rows p f rs = map (\<lambda>r. if p r then f r else r) rs"

definition delete_rows :: "('r \<Rightarrow> bool) \<Rightarrow> 'r list \<Rightarrow> 'r list" where
  "delete_rows p rs = filter (\<lambda>r. \<not> p r) rs"

definition upsert_row :: "('r \<Rightarrow> bool) \<Rightarrow> ('r \<Rightarrow> 'r) \<Rightarrow> 'r \<Rightarrow> 'r list \<Rightarrow> 'r list" where
  "upsert_row p f r rs = (if (\<exists>x\<in>set rs. p x) then update_rows p f rs else rs @ [r])"

lemma find_append: "List.find p (xs @ ys) = (case List.find p xs of None \<Rightarrow> List.find p ys | Some x \<Rightarrow> Some x)"
  by (induction xs) auto

lemma find_update_rows:
  assumes "\<And>r. p r \<Longrightarrow> q (f r) = q r"
  shows "List.find q (update_rows p f rs) =
    map_option (\<lambda>r. if p r then f r else r) (List.find q rs)"
  using assms by (induction rs) (auto simp: update_rows_def)

lemma find_delete_rows_other:
  "(\<And>r. q r \<Longrightarrow> \<not> p r) \<Longrightarrow> List.find q (delete_rows p rs) = List.find q rs"
  by (induction rs) (auto simp: delete_rows_def)

lemma find_delete_rows_same: "(\<And>r. q r \<Longrightarrow> p r) \<Longrightarrow> List.find q (delete_rows p rs) = None"
  by (induction rs) (auto simp: delete_rows_def)

lemma find_delete_rows_key [simp]:
  "List.find (\<lambda>r. f r = h \<and> Q r) (delete_rows (\<lambda>r. f r = h) rs) = None"
  "List.find (\<lambda>r. f r = h) (delete_rows (\<lambda>r. f r = h) rs) = None"
  by (rule find_delete_rows_same, blast)+

lemma find_None_iff_all: "List.find p xs = None \<longleftrightarrow> (\<forall>x\<in>set xs. \<not> p x)"
  by (induction xs) auto

lemma find_SomeD: "List.find p xs = Some x \<Longrightarrow> x \<in> set xs \<and> p x"
  by (induction xs) (auto split: if_splits)

lemma find_eq_SomeI:
  "x \<in> set xs \<Longrightarrow> p x \<Longrightarrow> (\<And>y. y \<in> set xs \<Longrightarrow> p y \<Longrightarrow> y = x) \<Longrightarrow> List.find p xs = Some x"
  by (metis find_None_iff_all find_SomeD not_None_eq)

lemma find_upsert_row_same:
  assumes "\<And>r. p r \<Longrightarrow> p (f r)" and "p r0"
  shows "List.find p (upsert_row p f r0 rs) =
    Some (case List.find p rs of None \<Rightarrow> r0 | Some r \<Rightarrow> f r)"
proof (cases "\<exists>x\<in>set rs. p x")
  case True
  then obtain r where r: "List.find p rs = Some r"
    by (metis find_None_iff_all not_None_eq)
  have "\<And>r. p r \<Longrightarrow> p (f r) = p r" using assms(1) by blast
  then show ?thesis
    using True r find_SomeD [OF r] by (simp add: upsert_row_def find_update_rows)
next
  case False
  then have "List.find p rs = None" by (simp add: find_None_iff_all)
  with False assms(2) show ?thesis by (simp add: upsert_row_def find_append)
qed

lemma find_upsert_row_other:
  assumes "\<And>r. p r \<Longrightarrow> \<not> q r" and "\<And>r. p r \<Longrightarrow> \<not> q (f r)" and "\<not> q r0"
  shows "List.find q (upsert_row p f r0 rs) = List.find q rs"
proof -
  have "List.find q (update_rows p f rs) = List.find q rs"
    using assms(1,2) by (induction rs) (auto simp: update_rows_def)
  moreover have "List.find q (rs @ [r0]) = List.find q rs"
    using assms(3) by (induction rs) auto
  ultimately show ?thesis by (simp add: upsert_row_def)
qed

lemma map_update_rows:
  "(\<And>r. p r \<Longrightarrow> g (f r) = g r) \<Longrightarrow> map g (update_rows p f rs) = map g rs"
  by (induction rs) (auto simp: update_rows_def)

lemma set_update_rows: "set (update_rows p f rs) = (\<lambda>r. if p r then f r else r) ` set rs"
  by (simp add: update_rows_def)

lemma set_delete_rows [simp]: "set (delete_rows p rs) = {r \<in> set rs. \<not> p r}"
  by (auto simp: delete_rows_def)

lemma length_update_rows [simp]: "length (update_rows p f rs) = length rs"
  by (simp add: update_rows_def)

lemma distinct_map_delete_rows: "distinct (map g rs) \<Longrightarrow> distinct (map g (delete_rows p rs))"
  by (simp add: delete_rows_def distinct_map_filter)

lemma distinct_map_upsert_row:
  assumes "distinct (map g rs)" and "\<And>r. p r \<Longrightarrow> g (f r) = g r"
    and "\<And>r. r \<in> set rs \<Longrightarrow> g r = g r0 \<Longrightarrow> p r"
  shows "distinct (map g (upsert_row p f r0 rs))"
proof (cases "\<exists>x\<in>set rs. p x")
  case True
  then show ?thesis using assms(1,2) by (simp add: upsert_row_def map_update_rows)
next
  case False
  then have "g r0 \<notin> g ` set rs" using assms(3) by (metis imageE)
  with False assms(1) show ?thesis by (simp add: upsert_row_def)
qed

section \<open>Lists\<close>

lemma dropWhile_rev_dropWhile_append:
  "\<not> p x \<Longrightarrow> dropWhile p (xs @ x # ys) = dropWhile p xs @ x # ys"
  by (induction xs) auto

lemma sorted_wrt_snoc: "sorted_wrt P (xs @ [x]) \<longleftrightarrow> sorted_wrt P xs \<and> (\<forall>y\<in>set xs. P y x)"
  by (simp add: sorted_wrt_append)

end
