(* ===== verification/Go_Strings.thy ===== *)
theory Go_Strings
  imports Prelude "HOL-Library.Sublist" "HOL-Library.Char_ord" "HOL-Library.List_Lexorder"
begin

text \<open>
  The part of Go's standard library on strings, numbers and slash-separated paths that the
  program uses (packages strings, strconv, unicode/utf8, path/filepath on Unix). A Go string
  is a sequence of bytes, and so is a HOL \<open>string\<close>: a \<open>char\<close> is a byte, \<open>length\<close> is \<open>len\<close>.
  Where the library works on runes (\<open>TrimSpace\<close>, \<open>Fields\<close>, \<open>[]rune\<close>) the byte string is
  first cut into UTF-8 encoded runes, an invalid byte being a rune of its own.
\<close>

section \<open>Prefixes, suffixes, searching\<close>

definition has_prefix :: "string \<Rightarrow> string \<Rightarrow> bool" where
  "has_prefix s p \<longleftrightarrow> prefix p s"

definition has_suffix :: "string \<Rightarrow> string \<Rightarrow> bool" where
  "has_suffix s p \<longleftrightarrow> suffix p s"

definition contains_str :: "string \<Rightarrow> string \<Rightarrow> bool" where
  "contains_str s sub \<longleftrightarrow> sublist sub s"

definition trim_prefix :: "string \<Rightarrow> string \<Rightarrow> string" where
  "trim_prefix s p = (if has_prefix s p then drop (length p) s else s)"

definition trim_suffix :: "string \<Rightarrow> string \<Rightarrow> string" where
  "trim_suffix s p = (if has_suffix s p then take (length s - length p) s else s)"

definition trim_left_set :: "char set \<Rightarrow> string \<Rightarrow> string" where
  "trim_left_set cs s = dropWhile (\<lambda>c. c \<in> cs) s"

definition trim_right_set :: "char set \<Rightarrow> string \<Rightarrow> string" where
  "trim_right_set cs s = rev (dropWhile (\<lambda>c. c \<in> cs) (rev s))"

definition trim_set :: "char set \<Rightarrow> string \<Rightarrow> string" where
  "trim_set cs s = trim_right_set cs (trim_left_set cs s)"

definition contains_any :: "string \<Rightarrow> char list \<Rightarrow> bool" where
  "contains_any s cs \<longleftrightarrow> list_ex (\<lambda>c. c \<in> set cs) s"

lemma trim_prefix_append [simp]: "trim_prefix (p @ s) p = s"
  by (simp add: trim_prefix_def has_prefix_def)

lemma trim_suffix_append [simp]: "trim_suffix (s @ p) p = s"
  by (simp add: trim_suffix_def has_suffix_def suffix_def)

lemma trim_suffix_id: "\<not> has_suffix s p \<Longrightarrow> trim_suffix s p = s"
  by (simp add: trim_suffix_def)

lemma trim_prefix_id: "\<not> has_prefix s p \<Longrightarrow> trim_prefix s p = s"
  by (simp add: trim_prefix_def)

lemma trim_left_set_Cons_out [simp]: "c \<notin> cs \<Longrightarrow> trim_left_set cs (c # s) = c # s"
  by (simp add: trim_left_set_def)

lemma trim_left_set_Cons_in [simp]: "c \<in> cs \<Longrightarrow> trim_left_set cs (c # s) = trim_left_set cs s"
  by (simp add: trim_left_set_def)

lemma trim_right_set_snoc_out: "c \<notin> cs \<Longrightarrow> trim_right_set cs (s @ [c]) = s @ [c]"
  by (simp add: trim_right_set_def)

lemma trim_right_set_snoc_in: "c \<in> cs \<Longrightarrow> trim_right_set cs (s @ [c]) = trim_right_set cs s"
  by (simp add: trim_right_set_def)

section \<open>Splitting and joining at a one-byte separator\<close>

fun cut :: "char \<Rightarrow> string \<Rightarrow> string \<times> string \<times> bool" where
  "cut sep [] = ([], [], False)"
| "cut sep (c # s) =
     (if c = sep then ([], s, True)
      else case cut sep s of (before, after, found) \<Rightarrow> (c # before, after, found))"

fun split_char :: "char \<Rightarrow> string \<Rightarrow> string list" where
  "split_char sep [] = [[]]"
| "split_char sep (c # s) =
     (if c = sep then [] # split_char sep s
      else (case split_char sep s of [] \<Rightarrow> [[c]] | p # ps \<Rightarrow> (c # p) # ps))"

fun split_n :: "char \<Rightarrow> nat \<Rightarrow> string \<Rightarrow> string list" where
  "split_n sep 0 s = []"
| "split_n sep (Suc 0) s = [s]"
| "split_n sep (Suc (Suc n)) s =
     (case cut sep s of (before, after, found) \<Rightarrow>
        if found then before # split_n sep (Suc n) after else [s])"

fun join_str :: "string \<Rightarrow> string list \<Rightarrow> string" where
  "join_str sep [] = []"
| "join_str sep [s] = s"
| "join_str sep (s # t # ss) = s @ sep @ join_str sep (t # ss)"

lemma join_str_Cons: "ss \<noteq> [] \<Longrightarrow> join_str sep (s # ss) = s @ sep @ join_str sep ss"
  by (cases ss) auto

lemma split_char_ne [simp]: "split_char sep s \<noteq> []"
  by (induction s) (auto split: list.split)

lemma cut_no_sep: "sep \<notin> set s \<Longrightarrow> cut sep s = (s, [], False)"
  by (induction s) auto

lemma cut_found [simp]: "sep \<notin> set s \<Longrightarrow> cut sep (s @ sep # t) = (s, t, True)"
  by (induction s) auto

lemma cut_parts:
  "cut sep s = (a, b, f) \<Longrightarrow> sep \<notin> set a \<and> (if f then s = a @ sep # b else s = a \<and> b = [])"
  by (induction s arbitrary: a b f) (auto split: if_splits prod.splits)

lemma split_char_no_sep: "sep \<notin> set s \<Longrightarrow> split_char sep s = [s]"
  by (induction s) auto

lemma split_char_append_sep [simp]:
  "sep \<notin> set s \<Longrightarrow> split_char sep (s @ sep # t) = s # split_char sep t"
  by (induction s) (auto split: list.split)

lemma split_char_parts: "p \<in> set (split_char sep s) \<Longrightarrow> sep \<notin> set p"
  by (induction s arbitrary: p) (auto split: if_splits list.splits)

lemma join_split_char: "join_str [sep] (split_char sep s) = s"
proof (induction s)
  case (Cons c s)
  obtain p ps where ps: "split_char sep s = p # ps" by (cases "split_char sep s") auto
  show ?case
  proof (cases "c = sep")
    case True
    with Cons show ?thesis by (simp add: join_str_Cons)
  next
    case False
    with Cons ps show ?thesis by (cases ps) auto
  qed
qed simp

lemma split_char_join:
  "ps \<noteq> [] \<Longrightarrow> \<forall>p\<in>set ps. sep \<notin> set p \<Longrightarrow> split_char sep (join_str [sep] ps) = ps"
  by (induction "[sep]" ps rule: join_str.induct) (auto simp: split_char_no_sep)

lemma split_n_join:
  assumes "length ps = Suc n" and "\<forall>p\<in>set (butlast ps). sep \<notin> set p"
  shows "split_n sep (Suc n) (join_str [sep] ps) = ps"
  using assms
proof (induction n arbitrary: ps)
  case 0
  then show ?case by (cases ps) auto
next
  case (Suc n)
  then obtain p qs where ps: "ps = p # qs" and qs: "length qs = Suc n" by (cases ps) auto
  then have "qs \<noteq> []" by auto
  with Suc.prems ps have "\<forall>p\<in>set (butlast qs). sep \<notin> set p" and "sep \<notin> set p" by auto
  with Suc.IH [OF qs] \<open>qs \<noteq> []\<close> ps show ?case by (simp add: join_str_Cons)
qed

lemma length_split_n: "length (split_n sep n s) \<le> n"
  by (induction sep n s rule: split_n.induct) (auto split: prod.splits)

section \<open>Decimal numbers\<close>

text \<open>A range of a regular expression's character class.\<close>

definition char_range :: "char \<Rightarrow> char \<Rightarrow> char \<Rightarrow> bool" where
  "char_range a b c \<longleftrightarrow> a \<le> c \<and> c \<le> b"

declare char_range_def [simp]

definition is_digit :: "char \<Rightarrow> bool" where
  "is_digit c \<longleftrightarrow> CHR ''0'' \<le> c \<and> c \<le> CHR ''9''"

definition digit_val :: "char \<Rightarrow> nat" where
  "digit_val c = of_char c - 48"

fun nat_str :: "nat \<Rightarrow> string" where
  "nat_str n = (if n < 10 then [char_of (48 + n)]
                else nat_str (n div 10) @ [char_of (48 + n mod 10)])"

declare nat_str.simps [simp del]

text \<open>\<open>strconv.Itoa\<close>, \<open>%d\<close>.\<close>

definition int_str :: "int \<Rightarrow> string" where
  "int_str i = (if i < 0 then CHR ''-'' # nat_str (nat (- i)) else nat_str (nat i))"

definition parse_digits :: "string \<Rightarrow> nat" where
  "parse_digits s = foldl (\<lambda>acc c. 10 * acc + digit_val c) 0 s"

definition parse_uint :: "string \<Rightarrow> nat option" where
  "parse_uint s = (if s \<noteq> [] \<and> list_all is_digit s then Some (parse_digits s) else None)"

text \<open>The value of a hexadecimal digit.\<close>

fun hex_value :: "char \<Rightarrow> nat option" where
  "hex_value c =
     (if is_digit c then Some (digit_val c)
      else if char_range (CHR ''a'') (CHR ''f'') c then Some (of_char c - 87)
      else if char_range (CHR ''A'') (CHR ''F'') c then Some (of_char c - 55)
      else None)"

definition max_int64 :: int where "max_int64 = 9223372036854775807"

definition min_int64 :: int where "min_int64 = - 9223372036854775808"

text \<open>
  \<open>strconv.ParseInt(s, 10, 64)\<close>: \<open>Inr\<close> the value, or \<open>Inl\<close> the value returned beside the
  error: 0 on a syntax error, the nearest 64-bit bound when out of range.
\<close>

definition signed_digits :: "string \<Rightarrow> bool \<times> string" where
  "signed_digits s =
     (case s of [] \<Rightarrow> (False, [])
      | c # t \<Rightarrow> if c = CHR ''-'' then (True, t) else if c = CHR ''+'' then (False, t)
                else (False, s))"

definition parse_int64 :: "string \<Rightarrow> int + int" where
  "parse_int64 s =
     (case signed_digits s of (neg, t) \<Rightarrow>
       (case parse_uint t of
          None \<Rightarrow> Inl 0
        | Some n \<Rightarrow>
            (let i = (if neg then - int n else int n) in
             if i > max_int64 then Inl max_int64
             else if i < min_int64 then Inl min_int64
             else Inr i)))"

lemma nat_str_ne [simp]: "nat_str n \<noteq> []"
  by (subst nat_str.simps) simp

lemma of_char_char_of_small: "n < 256 \<Longrightarrow> of_char (char_of n :: char) = (n :: nat)"
  by simp

lemma is_digit_char_of: "d < 10 \<Longrightarrow> is_digit (char_of (48 + d :: nat))"
  by (simp add: is_digit_def less_eq_char_def)

lemma digit_val_char_of: "d < 10 \<Longrightarrow> digit_val (char_of (48 + d :: nat)) = d"
  by (simp add: digit_val_def)

lemma nat_str_digits: "list_all is_digit (nat_str n)"
proof (induction n rule: nat_str.induct)
  case (1 n)
  show ?case
  proof (cases "n < 10")
    case True
    then show ?thesis by (subst nat_str.simps) (simp add: is_digit_char_of)
  next
    case False
    with 1 show ?thesis by (subst nat_str.simps) (simp add: is_digit_char_of)
  qed
qed

lemma parse_digits_snoc: "parse_digits (s @ [c]) = 10 * parse_digits s + digit_val c"
  by (simp add: parse_digits_def)

lemma parse_digits_nat_str: "parse_digits (nat_str n) = n"
proof (induction n rule: nat_str.induct)
  case (1 n)
  show ?case
  proof (cases "n < 10")
    case True
    then show ?thesis
      by (subst nat_str.simps) (simp add: parse_digits_def digit_val_char_of)
  next
    case False
    with 1 show ?thesis
      by (subst nat_str.simps) (simp add: parse_digits_snoc digit_val_char_of)
  qed
qed

lemma parse_uint_nat_str [simp]: "parse_uint (nat_str n) = Some n"
  by (simp add: parse_uint_def nat_str_digits parse_digits_nat_str)

lemma nat_str_inject [simp]: "nat_str m = nat_str n \<longleftrightarrow> m = n"
  by (metis parse_digits_nat_str)

lemma nat_str_not_digit: "\<not> is_digit c \<Longrightarrow> c \<notin> set (nat_str n)"
  using nat_str_digits by (auto simp: list_all_iff)

lemma signed_digits_nat_str: "signed_digits (nat_str n) = (False, nat_str n)"
proof -
  obtain c t where s: "nat_str n = c # t" by (cases "nat_str n") auto
  have "is_digit c" using nat_str_digits [of n] s by simp
  then have "c \<noteq> CHR ''-''" and "c \<noteq> CHR ''+''" by (auto simp: is_digit_def less_eq_char_def)
  with s show ?thesis by (simp add: signed_digits_def)
qed

lemma parse_int64_int_str:
  assumes "min_int64 \<le> i" and "i \<le> max_int64"
  shows "parse_int64 (int_str i) = Inr i"
proof (cases "i < 0")
  case True
  with assms show ?thesis
    by (simp add: parse_int64_def int_str_def signed_digits_def)
next
  case False
  with assms show ?thesis
    by (simp add: parse_int64_def int_str_def signed_digits_nat_str)
qed

lemma parse_int64_range: "parse_int64 s = Inr i \<Longrightarrow> min_int64 \<le> i \<and> i \<le> max_int64"
  by (auto simp: parse_int64_def Let_def split: prod.splits option.splits if_splits)

section \<open>Runes\<close>

definition cont_byte :: "char \<Rightarrow> bool" where
  "cont_byte c \<longleftrightarrow> CHR 0x80 \<le> c \<and> c \<le> CHR 0xBF"

definition rune2 :: "char \<Rightarrow> char \<Rightarrow> bool" where
  "rune2 a b \<longleftrightarrow> CHR 0xC2 \<le> a \<and> a \<le> CHR 0xDF \<and> cont_byte b"

definition rune3 :: "char \<Rightarrow> char \<Rightarrow> char \<Rightarrow> bool" where
  "rune3 a b c \<longleftrightarrow> CHR 0xE0 \<le> a \<and> a \<le> CHR 0xEF \<and> cont_byte b \<and> cont_byte c
     \<and> (a = CHR 0xE0 \<longrightarrow> CHR 0xA0 \<le> b) \<and> (a = CHR 0xED \<longrightarrow> b \<le> CHR 0x9F)"

definition rune4 :: "char \<Rightarrow> char \<Rightarrow> char \<Rightarrow> char \<Rightarrow> bool" where
  "rune4 a b c d \<longleftrightarrow> CHR 0xF0 \<le> a \<and> a \<le> CHR 0xF4 \<and> cont_byte b \<and> cont_byte c \<and> cont_byte d
     \<and> (a = CHR 0xF0 \<longrightarrow> CHR 0x90 \<le> b) \<and> (a = CHR 0xF4 \<longrightarrow> b \<le> CHR 0x8F)"

fun rune_len :: "string \<Rightarrow> nat" where
  "rune_len (a # b # c # d # s) =
     (if rune2 a b then 2 else if rune3 a b c then 3 else if rune4 a b c d then 4 else 1)"
| "rune_len [a, b, c] = (if rune2 a b then 2 else if rune3 a b c then 3 else 1)"
| "rune_len [a, b] = (if rune2 a b then 2 else 1)"
| "rune_len _ = 1"

lemma rune_len_pos: "0 < rune_len s"
  by (cases s rule: rune_len.cases) auto

function runes :: "string \<Rightarrow> string list" where
  "runes s = (if s = [] then [] else take (rune_len s) s # runes (drop (rune_len s) s))"
  by pat_completeness auto
termination
proof (relation "measure length")
  fix s :: string
  assume "s \<noteq> []"
  then show "(drop (rune_len s) s, s) \<in> measure length"
    using rune_len_pos [of s] by (simp add: diff_less)
qed simp

declare runes.simps [simp del]

lemma runes_Nil [simp]: "runes [] = []"
  by (simp add: runes.simps)

lemma concat_runes [simp]: "concat (runes s) = s"
proof (induction s rule: runes.induct)
  case (1 s)
  then show ?case by (cases "s = []") (simp_all add: runes.simps [of s])
qed

definition ascii :: "char \<Rightarrow> bool" where
  "ascii c \<longleftrightarrow> c < CHR 0x80"

lemma rune_len_ascii: "ascii a \<Longrightarrow> rune_len (a # s) = 1"
  by (cases "a # s" rule: rune_len.cases)
    (auto simp: ascii_def rune2_def rune3_def rune4_def less_eq_char_def less_char_def)

lemma runes_ascii_Cons [simp]: "ascii c \<Longrightarrow> runes (c # s) = [c] # runes s"
  by (simp add: runes.simps [of "c # s"] rune_len_ascii)

lemma runes_ascii: "list_all ascii s \<Longrightarrow> runes s = map (\<lambda>c. [c]) s"
  by (induction s) auto

text \<open>\<open>unicode.IsSpace\<close>, on the UTF-8 encoding of the rune.\<close>

definition space_runes :: "string list" where
  "space_runes =
     [[CHR 0x09], [CHR 0x0A], [CHR 0x0B], [CHR 0x0C], [CHR 0x0D], [CHR 0x20],
      [CHR 0xC2, CHR 0x85], [CHR 0xC2, CHR 0xA0], [CHR 0xE1, CHR 0x9A, CHR 0x80],
      [CHR 0xE2, CHR 0x80, CHR 0x80], [CHR 0xE2, CHR 0x80, CHR 0x81],
      [CHR 0xE2, CHR 0x80, CHR 0x82], [CHR 0xE2, CHR 0x80, CHR 0x83],
      [CHR 0xE2, CHR 0x80, CHR 0x84], [CHR 0xE2, CHR 0x80, CHR 0x85],
      [CHR 0xE2, CHR 0x80, CHR 0x86], [CHR 0xE2, CHR 0x80, CHR 0x87],
      [CHR 0xE2, CHR 0x80, CHR 0x88], [CHR 0xE2, CHR 0x80, CHR 0x89],
      [CHR 0xE2, CHR 0x80, CHR 0x8A], [CHR 0xE2, CHR 0x80, CHR 0xA8],
      [CHR 0xE2, CHR 0x80, CHR 0xA9], [CHR 0xE2, CHR 0x80, CHR 0xAF],
      [CHR 0xE2, CHR 0x81, CHR 0x9F], [CHR 0xE3, CHR 0x80, CHR 0x80]]"

definition is_space_rune :: "string \<Rightarrow> bool" where
  "is_space_rune r \<longleftrightarrow> r \<in> set space_runes"

definition trim_space :: "string \<Rightarrow> string" where
  "trim_space s =
     concat (rev (dropWhile is_space_rune (rev (dropWhile is_space_rune (runes s)))))"

fun field_runs :: "string list \<Rightarrow> string \<Rightarrow> string list" where
  "field_runs [] cur = (if cur = [] then [] else [cur])"
| "field_runs (r # rs) cur =
     (if is_space_rune r then (if cur = [] then field_runs rs [] else cur # field_runs rs [])
      else field_runs rs (cur @ r))"

text \<open>\<open>strings.Fields\<close>.\<close>

definition go_fields :: "string \<Rightarrow> string list" where
  "go_fields s = field_runs (runes s) []"

definition visible_ascii :: "char \<Rightarrow> bool" where
  "visible_ascii c \<longleftrightarrow> CHR ''!'' \<le> c \<and> c \<le> CHR ''~''"

lemma visible_is_ascii: "visible_ascii c \<Longrightarrow> ascii c"
  by (simp add: visible_ascii_def ascii_def less_eq_char_def less_char_def)

lemma visible_not_space: "visible_ascii c \<Longrightarrow> \<not> is_space_rune [c]"
  by (auto simp: visible_ascii_def is_space_rune_def space_runes_def less_eq_char_def)

lemma visible_list_ascii: "list_all visible_ascii s \<Longrightarrow> list_all ascii s"
  by (simp add: list_all_iff visible_is_ascii)

lemma trim_space_Nil [simp]: "trim_space [] = []"
  by (simp add: trim_space_def)

lemma dropWhile_singletons:
  "list_all visible_ascii s \<Longrightarrow> dropWhile is_space_rune (map (\<lambda>c. [c]) s) = map (\<lambda>c. [c]) s"
  by (cases s) (auto simp: visible_not_space)

lemma concat_singletons [simp]: "concat (map (\<lambda>c. [c]) s) = s"
  by (induction s) auto

lemma trim_space_visible:
  assumes "list_all visible_ascii s"
  shows "trim_space s = s"
proof -
  have "list_all visible_ascii (rev s)" using assms by simp
  then have "dropWhile is_space_rune (rev (map (\<lambda>c. [c]) s)) = rev (map (\<lambda>c. [c]) s)"
    using dropWhile_singletons [of "rev s"] by (simp add: rev_map)
  with assms show ?thesis
    by (simp add: trim_space_def runes_ascii visible_list_ascii dropWhile_singletons)
qed

lemma field_runs_visible:
  "list_all visible_ascii s \<Longrightarrow>
   field_runs (map (\<lambda>c. [c]) s @ rs) cur = field_runs rs (cur @ s)"
  by (induction s arbitrary: cur) (auto simp: visible_not_space)

lemma runes_append_ascii: "list_all ascii s \<Longrightarrow> runes (s @ t) = map (\<lambda>c. [c]) s @ runes t"
  by (induction s) auto

lemma space_is_space_rune [simp]: "is_space_rune '' ''"
  by (simp add: is_space_rune_def space_runes_def)

lemma go_fields_join:
  assumes "\<forall>p\<in>set ps. p \<noteq> [] \<and> list_all visible_ascii p"
  shows "go_fields (join_str '' '' ps) = ps"
proof -
  have sp: "ascii CHR '' ''" by (simp add: ascii_def less_char_def)
  have "field_runs (runes (join_str '' '' ps)) [] = ps"
    using assms
  proof (induction "'' ''" ps rule: join_str.induct)
    case 1
    then show ?case by simp
  next
    case (2 s)
    then show ?case
      using field_runs_visible [of s "[]" "[]"] by (simp add: runes_ascii visible_list_ascii)
  next
    case (3 s t ss)
    then have s: "s \<noteq> []" "list_all visible_ascii s" by auto
    from 3 have IH: "field_runs (runes (join_str '' '' (t # ss))) [] = t # ss" by simp
    have "runes (s @ '' '' @ join_str '' '' (t # ss)) =
        map (\<lambda>c. [c]) s @ '' '' # runes (join_str '' '' (t # ss))"
      using s sp by (simp add: runes_append_ascii visible_list_ascii)
    with s IH show ?case by (simp add: field_runs_visible)
  qed
  then show ?thesis by (simp add: go_fields_def)
qed

section \<open>Case\<close>

text \<open>
  ASCII lower-casing. The callers compare the result with the prefixes \<open>http://\<close> and
  \<open>https://\<close> or with ASCII header names; no rune outside ASCII lower-cases to one of their
  letters.
\<close>

definition lower_char :: "char \<Rightarrow> char" where
  "lower_char c = (if CHR ''A'' \<le> c \<and> c \<le> CHR ''Z'' then char_of (of_char c + 32 :: nat) else c)"

definition upper_char :: "char \<Rightarrow> char" where
  "upper_char c = (if CHR ''a'' \<le> c \<and> c \<le> CHR ''z'' then char_of (of_char c - 32 :: nat) else c)"

definition to_lower :: "string \<Rightarrow> string" where
  "to_lower s = map lower_char s"

text \<open>
  Case folding, as \<open>strings.EqualFold\<close> and the field matching of encoding/json apply it when
  one of the two texts is ASCII: two runes outside ASCII, the long s and the Kelvin sign, fold to
  a letter.
\<close>

definition fold_rune :: "string \<Rightarrow> string" where
  "fold_rune r = (if r = [CHR 0xC5, CHR 0xBF] then ''s''
     else if r = [CHR 0xE2, CHR 0x84, CHR 0xAA] then ''k'' else to_lower r)"

definition equal_fold :: "string \<Rightarrow> string \<Rightarrow> bool" where
  "equal_fold s t \<longleftrightarrow> map fold_rune (runes s) = map fold_rune (runes t)"

section \<open>Paths\<close>

definition slash :: char where "slash = CHR ''/''"

definition newline :: char where "newline = CHR 0x0A"

text \<open>
  \<open>filepath.Clean\<close>: the components from left to right, dropping empty ones and dots; a
  \<open>..\<close> removes the component before it, is dropped at the root and is kept at the start of a
  relative path. The accumulator is the reversed list of kept components.
\<close>

fun clean_step :: "bool \<Rightarrow> string list \<Rightarrow> string \<Rightarrow> string list" where
  "clean_step rooted acc c =
     (if c = [] \<or> c = ''.'' then acc
      else if c = ''..'' then
        (case acc of
           [] \<Rightarrow> if rooted then [] else [c]
         | a # rest \<Rightarrow> if a = ''..'' then c # acc else rest)
      else c # acc)"

declare clean_step.simps [simp del]

definition clean_components :: "bool \<Rightarrow> string \<Rightarrow> string list" where
  "clean_components rooted s = rev (foldl (clean_step rooted) [] (split_char slash s))"

definition is_rooted :: "string \<Rightarrow> bool" where
  "is_rooted s \<longleftrightarrow> has_prefix s [slash]"

definition path_clean :: "string \<Rightarrow> string" where
  "path_clean s =
     (let cs = clean_components (is_rooted s) s in
      if is_rooted s then slash # join_str [slash] cs
      else if cs = [] then ''.'' else join_str [slash] cs)"

text \<open>\<open>filepath.Join\<close>: empty elements are skipped, the rest is joined and cleaned.\<close>

definition path_join :: "string list \<Rightarrow> string" where
  "path_join elems =
     (let es = filter (\<lambda>e. e \<noteq> []) elems in
      if es = [] then [] else path_clean (join_str [slash] es))"

definition plain_component :: "string \<Rightarrow> bool" where
  "plain_component c \<longleftrightarrow> c \<noteq> [] \<and> c \<noteq> ''.'' \<and> c \<noteq> ''..'' \<and> slash \<notin> set c"

lemma clean_step_plain: "plain_component c \<Longrightarrow> clean_step rooted acc c = c # acc"
  by (simp add: plain_component_def clean_step.simps)

lemma foldl_clean_plain:
  "\<forall>c\<in>set cs. plain_component c \<Longrightarrow> foldl (clean_step rooted) acc cs = rev cs @ acc"
  by (induction cs arbitrary: acc) (auto simp: clean_step_plain)

lemma clean_rooted_plain:
  assumes "\<forall>c\<in>set acc. plain_component c" and "\<forall>c\<in>set cs. slash \<notin> set c"
  shows "\<forall>c\<in>set (foldl (clean_step True) acc cs). plain_component c"
  using assms
proof (induction cs arbitrary: acc)
  case (Cons c cs)
  have "\<forall>d\<in>set (clean_step True acc c). plain_component d"
    using Cons.prems by (cases acc) (auto simp: plain_component_def clean_step.simps)
  then show ?case using Cons by simp
qed simp

lemma clean_components_plain: "c \<in> set (clean_components True s) \<Longrightarrow> plain_component c"
  using clean_rooted_plain [of "[]" "split_char slash s"]
  by (auto simp: clean_components_def dest: split_char_parts)

lemma path_clean_rooted:
  "is_rooted s \<Longrightarrow> path_clean s = slash # join_str [slash] (clean_components True s)"
  by (simp add: path_clean_def Let_def)

lemma clean_components_join:
  assumes "\<forall>c\<in>set cs. plain_component c" and "cs \<noteq> []"
  shows "clean_components rooted (join_str [slash] cs) = cs"
proof -
  have "\<forall>c\<in>set cs. slash \<notin> set c" using assms(1) by (auto simp: plain_component_def)
  then show ?thesis
    using assms by (simp add: clean_components_def split_char_join foldl_clean_plain)
qed

text \<open>
  A cleaned component list, and the path string it stands for: \<open>path_clean\<close> is the second
  of the first, and cleaning a cleaned path changes nothing.
\<close>

definition unclean :: "bool \<Rightarrow> string list \<Rightarrow> string" where
  "unclean rooted cs =
     (if rooted then slash # join_str [slash] cs
      else if cs = [] then ''.'' else join_str [slash] cs)"

definition clean_list :: "bool \<Rightarrow> string list \<Rightarrow> bool" where
  "clean_list rooted cs \<longleftrightarrow>
     (\<exists>n ps. cs = replicate n ''..'' @ ps \<and> (\<forall>p\<in>set ps. plain_component p) \<and> (rooted \<longrightarrow> n = 0))"

lemma path_clean_unclean: "path_clean s = unclean (is_rooted s) (clean_components (is_rooted s) s)"
  by (simp add: path_clean_def unclean_def Let_def)

lemma clean_list_append:
  "clean_list rooted cs \<Longrightarrow> \<forall>d\<in>set ds. plain_component d \<Longrightarrow> clean_list rooted (cs @ ds)"
proof -
  assume "clean_list rooted cs" and ds: "\<forall>d\<in>set ds. plain_component d"
  then obtain n ps where "cs = replicate n ''..'' @ ps" "\<forall>p\<in>set ps. plain_component p"
    "rooted \<longrightarrow> n = 0" by (auto simp: clean_list_def)
  with ds show ?thesis
    unfolding clean_list_def by (intro exI [of _ n] exI [of _ "ps @ ds"]) auto
qed

lemma clean_list_plain: "\<forall>d\<in>set ds. plain_component d \<Longrightarrow> clean_list rooted ds"
  unfolding clean_list_def by (rule exI [of _ 0]) simp

lemma dots_not_plain [simp]: "\<not> plain_component ''..''"
  by (simp add: plain_component_def)

lemma clean_step_clean_list:
  assumes "clean_list rooted (rev acc)" and "slash \<notin> set c"
  shows "clean_list rooted (rev (clean_step rooted acc c))"
proof -
  from assms(1) obtain n ps where acc: "rev acc = replicate n ''..'' @ ps"
    and ps: "\<forall>p\<in>set ps. plain_component p" and n: "rooted \<longrightarrow> n = 0"
    by (auto simp: clean_list_def)
  consider "c = [] \<or> c = ''.''" | (up) "c = ''..''" | (plain) "plain_component c"
    using assms(2) by (auto simp: plain_component_def)
  then show ?thesis
  proof cases
    case 1
    then show ?thesis using assms(1) by (auto simp: clean_step.simps)
  next
    case plain
    then show ?thesis using clean_list_append [OF assms(1), of "[c]"] by (simp add: clean_step_plain)
  next
    case up
    show ?thesis
    proof (cases ps rule: rev_cases)
      case Nil
      with acc have acc': "acc = replicate n ''..''" by (metis append_Nil2 rev_replicate rev_rev_ident)
      have "clean_list rooted (replicate (if rooted then 0 else Suc n) ''..'')"
        unfolding clean_list_def by (rule exI [of _ "if rooted then 0 else Suc n"]) simp
      then show ?thesis
        using up acc' n by (cases n) (auto simp: clean_step.simps replicate_append_same)
    next
      case (snoc qs p)
      have acc': "acc = p # rev (replicate n ''..'' @ qs)"
        using acc snoc by (metis append.assoc rev.simps(2) rev_rev_ident rev_swap)
      have "p \<noteq> ''..''" using ps snoc by auto
      moreover have "clean_list rooted (replicate n ''..'' @ qs)"
        using ps snoc n unfolding clean_list_def by auto
      ultimately show ?thesis using up acc' by (simp add: clean_step.simps)
    qed
  qed
qed

lemma foldl_clean_list:
  "clean_list rooted (rev acc) \<Longrightarrow> \<forall>c\<in>set cs. slash \<notin> set c \<Longrightarrow>
   clean_list rooted (rev (foldl (clean_step rooted) acc cs))"
  by (induction cs arbitrary: acc) (auto intro: clean_step_clean_list)

lemma clean_list_components: "clean_list rooted (clean_components rooted s)"
  unfolding clean_components_def
  by (rule foldl_clean_list) (auto simp: clean_list_plain dest: split_char_parts)

lemma foldl_clean_dots:
  "foldl (clean_step False) (replicate m ''..'') (replicate n ''..'') = replicate (m + n) ''..''"
proof (induction n arbitrary: m)
  case (Suc n)
  have "clean_step False (replicate m ''..'') ''..'' = replicate (Suc m) ''..''"
    by (cases m) (simp_all add: clean_step.simps)
  then show ?case using Suc [of "Suc m"] by simp
qed simp

lemma foldl_clean_id:
  assumes "clean_list rooted cs"
  shows "foldl (clean_step rooted) [] cs = rev cs"
proof -
  from assms obtain n ps where cs: "cs = replicate n ''..'' @ ps"
    and ps: "\<forall>p\<in>set ps. plain_component p" and n: "rooted \<longrightarrow> n = 0"
    by (auto simp: clean_list_def)
  have "foldl (clean_step rooted) [] (replicate n ''..'') = replicate n ''..''"
    using n foldl_clean_dots [of 0 n] by (cases rooted) auto
  then show ?thesis using cs ps by (simp add: foldl_clean_plain)
qed

lemma clean_list_component:
  "clean_list rooted cs \<Longrightarrow> c \<in> set cs \<Longrightarrow> c \<noteq> [] \<and> slash \<notin> set c"
proof -
  assume "clean_list rooted cs" and c: "c \<in> set cs"
  then obtain n ps where "c \<in> set (replicate n ''..'' @ ps)"
    and ps: "\<forall>p\<in>set ps. plain_component p"
    unfolding clean_list_def by (elim exE conjE) simp
  then have "c = ''..'' \<or> c \<in> set ps" unfolding set_append by (elim UnE) auto
  then show ?thesis
  proof
    assume "c = ''..''"
    then show ?thesis by (simp add: slash_def)
  next
    assume "c \<in> set ps"
    then have "plain_component c" using ps by blast
    then show ?thesis by (simp add: plain_component_def)
  qed
qed

lemma hd_join_str: "ss \<noteq> [] \<Longrightarrow> hd ss \<noteq> [] \<Longrightarrow> hd (join_str sep ss) = hd (hd ss)"
  by (cases ss; cases "tl ss") auto

lemma join_str_ne: "ss \<noteq> [] \<Longrightarrow> hd ss \<noteq> [] \<Longrightarrow> join_str sep ss \<noteq> []"
  by (cases ss; cases "tl ss") auto

lemma unclean_ne:
  assumes "clean_list rooted cs"
  shows "unclean rooted cs \<noteq> []"
proof (cases "cs = []")
  case False
  then have "hd cs \<noteq> []" using clean_list_component [OF assms] by simp
  with False show ?thesis by (simp add: unclean_def join_str_ne)
qed (simp add: unclean_def)

lemma is_rooted_unclean:
  assumes "clean_list rooted cs"
  shows "is_rooted (unclean rooted cs) = rooted"
proof (cases "rooted \<or> cs = []")
  case True
  then show ?thesis by (auto simp: unclean_def is_rooted_def has_prefix_def slash_def)
next
  case False
  then obtain c t where cs: "cs = c # t" by (cases cs) auto
  then have c: "c \<noteq> []" "slash \<notin> set c" using clean_list_component [OF assms] by auto
  then have "hd (join_str [slash] cs) \<noteq> slash"
    using cs c by (metis hd_in_set hd_join_str list.discI list.sel(1))
  then show ?thesis using False
    by (cases "join_str [slash] cs") (auto simp: unclean_def is_rooted_def has_prefix_def)
qed

lemma split_char_append: "split_char sep (s @ sep # t) = split_char sep s @ split_char sep t"
  by (induction s) (auto split: list.split)

lemma foldl_clean_skip [simp]: "clean_step rooted acc [] = acc"
  by (simp add: clean_step.simps)

lemma clean_components_unclean:
  assumes "clean_list rooted cs"
  shows "clean_components rooted (unclean rooted cs) = cs"
proof -
  have sep: "\<forall>c\<in>set cs. slash \<notin> set c" using clean_list_component [OF assms] by blast
  show ?thesis
  proof (cases "cs = []")
    case True
    then show ?thesis
      by (auto simp: unclean_def clean_components_def slash_def clean_step.simps)
  next
    case False
    then have "split_char slash (join_str [slash] cs) = cs" using sep by (rule split_char_join)
    then show ?thesis using False foldl_clean_id [OF assms]
      by (auto simp: unclean_def clean_components_def)
  qed
qed

lemma path_join_unclean:
  assumes "root \<noteq> []" and "\<forall>d\<in>set ds. plain_component d"
  shows "path_join [root, unclean True ds] =
    unclean (is_rooted root) (clean_components (is_rooted root) root @ ds)"
proof -
  let ?s = "root @ [slash] @ unclean True ds"
  have rooted: "is_rooted ?s = is_rooted root"
    using assms(1) by (cases root) (auto simp: is_rooted_def has_prefix_def)
  have parts: "split_char slash (root @ slash # unclean True ds) =
      split_char slash root @ split_char slash (unclean True ds)"
    by (rule split_char_append)
  have ds: "split_char slash (unclean True ds) = [] # (if ds = [] then [[]] else ds)"
    using assms(2) by (simp add: unclean_def split_char_join plain_component_def)
  have "clean_components (is_rooted root) ?s = clean_components (is_rooted root) root @ ds"
    using assms(2) by (simp add: clean_components_def parts ds foldl_clean_plain)
  moreover have "unclean True ds \<noteq> []" by (simp add: unclean_def)
  ultimately show ?thesis
    using assms(1) rooted by (simp add: path_join_def path_clean_unclean)
qed

lemma path_join_plain:
  assumes "plain_component c"
  shows "path_join [root, c] =
    unclean (is_rooted root) (clean_components (is_rooted root) root @ [c])"
proof (cases "root = []")
  case True
  have "clean_components False c = [c]"
    using assms by (simp add: clean_components_def split_char_no_sep plain_component_def
        clean_step.simps)
  moreover have "\<not> is_rooted c"
    using assms by (cases c) (auto simp: is_rooted_def has_prefix_def plain_component_def)
  ultimately show ?thesis
    using True assms
    by (simp add: path_join_def path_clean_unclean plain_component_def clean_components_def
        is_rooted_def has_prefix_def)
next
  case False
  let ?s = "root @ slash # c"
  have "is_rooted ?s = is_rooted root"
    using False by (cases root) (auto simp: is_rooted_def has_prefix_def)
  moreover have "clean_components (is_rooted root) ?s = clean_components (is_rooted root) root @ [c]"
    using assms
    by (simp add: clean_components_def split_char_append split_char_no_sep plain_component_def
        clean_step.simps)
  moreover have "c \<noteq> []" using assms by (simp add: plain_component_def)
  ultimately show ?thesis
    using False by (simp add: path_join_def path_clean_unclean)
qed

lemma unclean_inject:
  assumes "clean_list rooted cs" and "clean_list rooted ds"
  shows "unclean rooted cs = unclean rooted ds \<longleftrightarrow> cs = ds"
  by (metis assms clean_components_unclean)

text \<open>\<open>filepath.Dir\<close>: everything up to the last slash, cleaned.\<close>

definition path_dir :: "string \<Rightarrow> string" where
  "path_dir s = path_clean (rev (dropWhile (\<lambda>c. c \<noteq> slash) (rev s)))"

lemma join_str_snoc: "ss \<noteq> [] \<Longrightarrow> join_str sep (ss @ [s]) = join_str sep ss @ sep @ s"
  by (induction sep ss rule: join_str.induct) (auto simp: join_str_Cons)

lemma unclean_append: "unclean rooted (cs @ [c]) @ t = unclean rooted (cs @ [c @ t])"
  by (cases "cs = []") (simp_all add: unclean_def join_str_snoc)

lemma clean_list_butlast:
  assumes "clean_list rooted (cs @ [c])"
  shows "clean_list rooted cs"
proof -
  obtain n ps where e: "cs @ [c] = replicate n ''..'' @ ps" "\<forall>p\<in>set ps. plain_component p"
    "rooted \<longrightarrow> n = 0" using assms by (auto simp: clean_list_def)
  show ?thesis
  proof (cases ps rule: rev_cases)
    case Nil
    with e(1) have "cs @ [c] = replicate n ''..''" by simp
    then have "cs = replicate (n - 1) ''..''"
      by (metis butlast_snoc butlast_conv_take take_replicate length_replicate diff_le_self min_def)
    then show ?thesis using e(3) unfolding clean_list_def
      by (intro exI [of _ "n - 1"] exI [of _ "[]"]) auto
  next
    case (snoc qs q)
    with e(1) have "cs = replicate n ''..'' @ qs" by simp
    then show ?thesis using e(2,3) snoc unfolding clean_list_def
      by (intro exI [of _ n] exI [of _ qs]) auto
  qed
qed

text \<open>Cutting a path behind its last slash.\<close>

lemma drop_after_slash:
  assumes "slash \<notin> set c"
  shows "rev (dropWhile (\<lambda>x. x \<noteq> slash) (rev (u @ slash # c))) = u @ [slash]"
proof -
  have "dropWhile (\<lambda>x. x \<noteq> slash) (rev c @ slash # rev u) = slash # rev u"
    using assms by (subst dropWhile_append2) auto
  then show ?thesis by simp
qed

lemma path_dir_unclean:
  assumes "clean_list rooted (cs @ [c])"
  shows "path_dir (unclean rooted (cs @ [c])) = unclean rooted cs"
proof -
  have c: "slash \<notin> set c" using clean_list_component [OF assms, of c] by simp
  have cl: "clean_list rooted cs" by (rule clean_list_butlast [OF assms])
  note drop = drop_after_slash [OF c]
  consider (empty) "cs = []" "\<not> rooted" | (root) "cs = []" "rooted" | (more) "cs \<noteq> []" by blast
  then show ?thesis
  proof cases
    case empty
    have "dropWhile (\<lambda>x. x \<noteq> slash) (rev c) = []" using c by (auto simp: dropWhile_eq_Nil_conv)
    then have "path_dir c = path_clean []" by (simp only: path_dir_def rev.simps(1))
    then show ?thesis using empty
      by (simp add: unclean_def path_clean_def is_rooted_def has_prefix_def Let_def
          clean_components_def)
  next
    case root
    have "rev (dropWhile (\<lambda>x. x \<noteq> slash) (rev (slash # c))) = [slash]"
      using drop [of "[]"] by simp
    then show ?thesis using root
      by (simp add: path_dir_def unclean_def path_clean_def is_rooted_def has_prefix_def Let_def
          clean_components_def)
  next
    case more
    have u: "unclean rooted (cs @ [c]) = unclean rooted cs @ slash # c"
      using more by (simp add: unclean_def join_str_snoc)
    have "is_rooted (unclean rooted cs @ [slash]) = rooted"
      using is_rooted_unclean [OF cl] unclean_ne [OF cl]
      by (cases "unclean rooted cs") (auto simp: is_rooted_def has_prefix_def)
    moreover have "clean_components rooted (unclean rooted cs @ [slash]) = cs"
      using clean_components_unclean [OF cl]
      by (simp add: clean_components_def split_char_append)
    ultimately show ?thesis by (simp only: path_dir_def u drop path_clean_unclean)
  qed
qed

section \<open>Quoting\<close>

definition hex_low :: "nat \<Rightarrow> char" where
  "hex_low n = (if n < 10 then char_of (48 + n) else char_of (87 + n))"

text \<open>
  \<open>%q\<close>: a double-quoted Go literal. Runes outside ASCII are kept (the program only quotes
  printable ones); an invalid byte and an unprintable ASCII byte become \<open>\x..\<close>.
\<close>

fun quote_rune :: "string \<Rightarrow> string" where
  "quote_rune [c] =
     (if c = CHR 0x22 then [CHR 0x5C, CHR 0x22]
      else if c = CHR 0x5C then [CHR 0x5C, CHR 0x5C]
      else if CHR '' '' \<le> c \<and> c \<le> CHR ''~'' then [c]
      else if c = CHR 0x07 then [CHR 0x5C, CHR ''a'']
      else if c = CHR 0x08 then [CHR 0x5C, CHR ''b'']
      else if c = CHR 0x0C then [CHR 0x5C, CHR ''f'']
      else if c = CHR 0x0A then [CHR 0x5C, CHR ''n'']
      else if c = CHR 0x0D then [CHR 0x5C, CHR ''r'']
      else if c = CHR 0x09 then [CHR 0x5C, CHR ''t'']
      else if c = CHR 0x0B then [CHR 0x5C, CHR ''v'']
      else [CHR 0x5C, CHR ''x'', hex_low (of_char c div 16), hex_low (of_char c mod 16)])"
| "quote_rune r = r"

definition go_quote :: "string \<Rightarrow> string" where
  "go_quote s = [CHR 0x22] @ concat (map quote_rune (runes s)) @ [CHR 0x22]"

end
