(* ===== verification/Schema.thy ===== *)
theory Schema
  imports Go_Strings
begin

text \<open>
  Go error values and the PostgreSQL database behind every store: one record with a table per
  \<open>CREATE TABLE\<close> of \<open>internal/database/migrations\<close>, the identity sequences, the clock that
  \<open>NOW()\<close> and \<open>time.Now()\<close> read, and the faults the connection pool will hit. Every SQL
  statement of the stores is one atomic step on this record.
\<close>

section \<open>Errors\<close>

text \<open>The package-level error variables; \<open>errors.Is\<close> compares them by identity.\<close>

datatype sentinel =
    Repos_ErrAlreadyExists | Repos_ErrNotFound
  | Gitdata_ErrNotFound
  | Collab_ErrNotFound | Collab_ErrInvalidState | Collab_ErrNotMergeable
  | Collab_ErrProtected | Collab_ErrReviewRequired
  | Auth_ErrUserExists | Auth_ErrInvalidUsername | Auth_ErrWeakPassword
  | Auth_ErrBadCredentials | Auth_ErrNoSession | Auth_ErrNotFound
  | Storage_ErrNotFound
  | Gitserve_ErrAccessDenied

fun sentinel_text :: "sentinel \<Rightarrow> string" where
  "sentinel_text Repos_ErrAlreadyExists = ''repository already exists''"
| "sentinel_text Repos_ErrNotFound = ''repository not found''"
| "sentinel_text Gitdata_ErrNotFound = ''not found''"
| "sentinel_text Collab_ErrNotFound = ''not found''"
| "sentinel_text Collab_ErrInvalidState = ''invalid state transition''"
| "sentinel_text Collab_ErrNotMergeable = ''pull request is not open''"
| "sentinel_text Collab_ErrProtected = ''branch is protected''"
| "sentinel_text Collab_ErrReviewRequired = ''required approvals missing''"
| "sentinel_text Auth_ErrUserExists = ''user already exists''"
| "sentinel_text Auth_ErrInvalidUsername = ''invalid username''"
| "sentinel_text Auth_ErrWeakPassword = ''password must be at least 8 characters''"
| "sentinel_text Auth_ErrBadCredentials = ''invalid username or password''"
| "sentinel_text Auth_ErrNoSession = ''no valid session''"
| "sentinel_text Auth_ErrNotFound = ''permission not found''"
| "sentinel_text Storage_ErrNotFound = ''object not found''"
| "sentinel_text Gitserve_ErrAccessDenied = ''access denied''"

text \<open>
  \<open>ErrText\<close>: \<open>errors.New\<close> or \<open>fmt.Errorf\<close> without \<open>%w\<close>; \<open>Wrap pre e post\<close>:
  \<open>fmt.Errorf\<close> of \<open>pre\<close>, \<open>%w\<close> and \<open>post\<close>; \<open>PathError\<close>: a system call on a path
  failed; \<open>NoRows\<close>: \<open>pgx.ErrNoRows\<close>;
  \<open>PgError code msg\<close>: an error the server reports.
\<close>

datatype errno = ENOENT | ENOTDIR | EISDIR | ENOTEMPTY | EIO

fun errno_text :: "errno \<Rightarrow> string" where
  "errno_text ENOENT = ''no such file or directory''"
| "errno_text ENOTDIR = ''not a directory''"
| "errno_text EISDIR = ''is a directory''"
| "errno_text ENOTEMPTY = ''directory not empty''"
| "errno_text EIO = ''input/output error''"

datatype goerr =
    Sentinel sentinel
  | ErrText string
  | NoRows
  | PgError string string
  | PathError errno string
  | Wrap string goerr string

fun err_text :: "goerr \<Rightarrow> string" where
  "err_text (Sentinel x) = sentinel_text x"
| "err_text (ErrText m) = m"
| "err_text NoRows = ''no rows in result set''"
| "err_text (PgError code m) = ''ERROR: '' @ m @ '' (SQLSTATE '' @ code @ '')''"
| "err_text (PathError no path) = path @ '': '' @ errno_text no"
| "err_text (Wrap pre e post) = pre @ err_text e @ post"

text \<open>\<open>errors.Is(err, target)\<close> for a sentinel target.\<close>

fun err_is :: "goerr \<Rightarrow> sentinel \<Rightarrow> bool" where
  "err_is (Sentinel x) t = (x = t)"
| "err_is (Wrap pre e post) t = err_is e t"
| "err_is _ t = False"

text \<open>\<open>errors.As\<close> to an error with an SQLSTATE.\<close>

fun err_sqlstate :: "goerr \<Rightarrow> string option" where
  "err_sqlstate (PgError code m) = Some code"
| "err_sqlstate (Wrap pre e post) = err_sqlstate e"
| "err_sqlstate _ = None"

text \<open>\<open>errors.Is(err, pgx.ErrNoRows)\<close>.\<close>

fun err_is_no_rows :: "goerr \<Rightarrow> bool" where
  "err_is_no_rows NoRows = True"
| "err_is_no_rows (Wrap pre e post) = err_is_no_rows e"
| "err_is_no_rows _ = False"

text \<open>
  \<open>os.IsNotExist(err)\<close>, which does not look through wrapping, and
  \<open>errors.Is(err, os.ErrNotExist)\<close>, which does.
\<close>

fun os_is_not_exist :: "goerr \<Rightarrow> bool" where
  "os_is_not_exist (PathError no path) = (no = ENOENT)"
| "os_is_not_exist _ = False"

fun err_is_not_exist :: "goerr \<Rightarrow> bool" where
  "err_is_not_exist (PathError no path) = (no = ENOENT)"
| "err_is_not_exist (Wrap pre e post) = err_is_not_exist e"
| "err_is_not_exist _ = False"

abbreviation wrap_err :: "string \<Rightarrow> goerr \<Rightarrow> goerr" where
  "wrap_err pre e \<equiv> Wrap (pre @ '': '') e []"

definition unique_violation :: goerr where
  "unique_violation = PgError ''23505'' ''duplicate key value violates unique constraint''"

definition fk_violation :: goerr where
  "fk_violation = PgError ''23503'' ''insert or update violates foreign key constraint''"

definition check_violation :: goerr where
  "check_violation = PgError ''23514'' ''new row violates check constraint''"

section \<open>Rows\<close>

type_synonym time = int  \<comment> \<open>microseconds\<close>

text \<open>Rows of the tables users and sessions (002, 008).\<close>

record user_row =
  usr_id :: int
  usr_name :: string
  usr_hash :: string
  usr_created :: time
  usr_display :: string
  usr_bio :: string
  usr_location :: string
  usr_website :: string

record session_row =
  ses_hash :: string
  ses_user :: int
  ses_expires :: time

record repository =
  repo_id :: int
  repo_owner :: string
  repo_name :: string
  repo_path :: string
  repo_created :: time

record permission_row =
  perm_repo :: int
  perm_user :: string
  perm_role :: string

record issue =
  issue_number :: int
  issue_title :: string
  issue_body :: string
  issue_author :: string
  issue_state :: string
  issue_created :: time
  issue_updated :: time

record comment =
  cmt_id :: int
  cmt_author :: string
  cmt_body :: string
  cmt_created :: time

record comment_row =
  crow_repo :: int
  crow_subject_type :: string
  crow_subject_number :: int
  crow_comment :: comment

record pull_request =
  pr_number :: int
  pr_title :: string
  pr_body :: string
  pr_author :: string
  pr_state :: string
  pr_source :: string
  pr_target :: string
  pr_merge_commit :: "string option"
  pr_created :: time
  pr_updated :: time

record review =
  rev_reviewer :: string
  rev_verdict :: string
  rev_body :: string
  rev_created :: time

record review_row =
  rrow_id :: int
  rrow_pull :: int
  rrow_review :: review

record branch_protection =
  bp_branch :: string
  bp_required_approvals :: int
  bp_allow_force_push :: bool

record protection_row =
  prow_repo :: int
  prow_rule :: branch_protection

text \<open>A row of a table whose Go struct omits the row id and the repository.\<close>

record 'd row =
  row_id :: int
  row_repo :: int
  row_data :: 'd

record hook =
  hook_id :: int
  hook_url :: string
  hook_secret :: string
  hook_events :: "string list"

record hook_row =
  hrow_repo :: int
  hrow_active :: bool
  hrow_hook :: hook

record delivery =
  dlv_id :: int
  dlv_webhook :: int
  dlv_event :: string
  dlv_payload :: string
  dlv_status :: int
  dlv_attempts :: int
  dlv_delivered :: bool

record delivery_row =
  drow_created :: time
  drow_delivery :: delivery

record job =
  job_id :: int
  job_commit :: string
  job_branch :: string
  job_trigger_kind :: string
  job_trigger_ref :: string
  job_status :: string
  job_output :: string
  job_exit_code :: "int option"
  job_created :: time
  job_started :: "time option"
  job_finished :: "time option"

record job_row =
  jrow_repo :: int
  jrow_job :: job

record secret_row =
  sec_repo :: int
  sec_name :: string
  sec_ciphertext :: string
  sec_nonce :: string
  sec_created :: time

record audit_row =
  aud_id :: int
  aud_time :: time
  aud_actor :: string
  aud_action :: string
  aud_target :: string
  aud_details :: "string option"
  aud_remote_ip :: string

section \<open>The database\<close>

text \<open>The tables with a \<open>BIGSERIAL\<close> identity column.\<close>

datatype serial_table =
  T_repositories | T_users | T_issues | T_pull_requests | T_comments | T_reviews
  | T_webhooks | T_deliveries | T_jobs | T_secrets | T_audit

record db =
  t_users :: "user_row list"
  t_sessions :: "session_row list"
  t_repositories :: "repository list"
  t_permissions :: "permission_row list"
  t_issues :: "issue row list"
  t_pulls :: "pull_request row list"
  t_comments :: "comment_row list"
  t_reviews :: "review_row list"
  t_protections :: "protection_row list"
  t_hooks :: "hook_row list"
  t_deliveries :: "delivery_row list"
  t_jobs :: "job_row list"
  t_secrets :: "secret_row list"
  t_audit :: "audit_row list"
  next_ids :: "serial_table \<Rightarrow> int"
  clock :: time
  faults :: "string option list"

definition empty_db :: db where
  "empty_db =
     \<lparr>t_users = [], t_sessions = [], t_repositories = [], t_permissions = [], t_issues = [],
      t_pulls = [], t_comments = [], t_reviews = [], t_protections = [], t_hooks = [],
      t_deliveries = [], t_jobs = [], t_secrets = [], t_audit = [],
      next_ids = (\<lambda>_. 1), clock = 0, faults = []\<rparr>"

text \<open>
  One call of the pool. Each call consumes the head of \<open>faults\<close>: \<open>Some m\<close> makes it fail with
  the connection error \<open>m\<close> before the statement has any effect, \<open>None\<close>, and the end of the
  list, let the statement run. A theorem that leaves \<open>faults\<close> arbitrary holds whatever calls
  fail; \<open>calm\<close> is the absence of failures. Two limits of this model: a failed call has had no
  effect (a reply lost after the statement ran is not covered), and text is any bytes. PostgreSQL
  refuses text with NUL or invalid UTF-8 in the columns the program stores it in; such a refusal
  is one of the failures that \<open>faults\<close> lists and \<open>calm\<close> excludes.
\<close>

definition connection_failure :: "string \<Rightarrow> goerr" where
  "connection_failure m = PgError ''08006'' m"

definition pool :: "('z db_scheme, goerr + 'a) st \<Rightarrow> ('z db_scheme, goerr + 'a) st" where
  "pool stmt s =
     (case faults s of
        [] \<Rightarrow> stmt s
      | Some m # fs \<Rightarrow> (Inl (connection_failure m), s\<lparr>faults := fs\<rparr>)
      | None # fs \<Rightarrow> stmt (s\<lparr>faults := fs\<rparr>))"

definition calm :: "'z db_scheme \<Rightarrow> bool" where
  "calm s \<longleftrightarrow> faults s = []"

lemma pool_calm [simp]: "calm s \<Longrightarrow> pool stmt s = stmt s"
  by (simp add: calm_def pool_def)

lemma pool_cases:
  obtains (run) s' where "pool stmt s = stmt s'" and "s' = s\<lparr>faults := faults s'\<rparr>"
  | (failed) m fs where "pool stmt s = (Inl (connection_failure m), s\<lparr>faults := fs\<rparr>)"
proof (cases "faults s")
  case Nil
  then have "pool stmt s = stmt s" by (simp add: pool_def)
  then show thesis by (rule run) simp
next
  case (Cons f fs)
  show thesis
  proof (cases f)
    case None
    with Cons have "pool stmt s = stmt (s\<lparr>faults := fs\<rparr>)" by (simp add: pool_def)
    then show thesis by (rule run) simp
  next
    case (Some m)
    with Cons have "pool stmt s = (Inl (connection_failure m), s\<lparr>faults := fs\<rparr>)"
      by (simp add: pool_def)
    then show thesis by (rule failed)
  qed
qed

lemma pool_resultE:
  assumes "pool stmt s = (res, t)"
  obtains (run) fs where "stmt (s\<lparr>faults := fs\<rparr>) = (res, t)"
  | (failed) m fs where "res = Inl (connection_failure m)" and "t = s\<lparr>faults := fs\<rparr>"
proof (cases "faults s")
  case Nil
  have "s\<lparr>faults := faults s\<rparr> = s" by simp
  then have e: "s\<lparr>faults := []\<rparr> = s" unfolding Nil .
  have "stmt (s\<lparr>faults := []\<rparr>) = (res, t)" using assms Nil unfolding e by (simp add: pool_def)
  then show thesis by (rule run)
next
  case (Cons f fs)
  then show thesis using assms run failed by (cases f) (auto simp: pool_def)
qed

text \<open>
  A relation that does not depend on \<open>faults\<close> holds of a pool call when it holds of the
  statement.
\<close>

lemma steps_pool:
  assumes "steps R stmt" and "\<And>s fs. R s (s\<lparr>faults := fs\<rparr>)"
    and "\<And>s t u. R s t \<Longrightarrow> R t u \<Longrightarrow> R s u"
  shows "steps R (pool stmt)"
proof (rule stepsI)
  fix s
  have st: "R t (snd (stmt t))" for t using assms(1) by (rule stepsD)
  show "R s (snd (pool stmt s))"
  proof (cases rule: pool_cases [of stmt s])
    case (run s')
    have "R s s'" using run(2) assms(2) by metis
    then have "R s (snd (stmt s'))" using st by (rule assms(3))
    with run(1) show ?thesis by simp
  next
    case (failed m fs)
    with assms(2) show ?thesis by simp
  qed
qed

lemma steps_pool_same:
  assumes "steps (same f) stmt" and "\<And>s fs. f (s\<lparr>faults := fs\<rparr>) = f s"
  shows "steps (same f) (pool stmt)"
  by (rule steps_pool [OF assms(1)]) (simp_all add: same_def assms(2))

lemma steps_pool_keeps:
  assumes "steps (keeps P) stmt" and "\<And>s fs. P s \<Longrightarrow> P (s\<lparr>faults := fs\<rparr>)"
  shows "steps (keeps P) (pool stmt)"
  by (rule steps_pool [OF assms(1)]) (simp_all add: keeps_def assms(2))

text \<open>\<open>nextval\<close> of a \<open>BIGSERIAL\<close> column: not undone when the insertion fails.\<close>

definition next_id :: "serial_table \<Rightarrow> ('z db_scheme, int) st" where
  "next_id tbl s = (next_ids s tbl, s\<lparr>next_ids := (next_ids s)(tbl := next_ids s tbl + 1)\<rparr>)"

definition repo_exists :: "'z db_scheme \<Rightarrow> int \<Rightarrow> bool" where
  "repo_exists s i \<longleftrightarrow> i \<in> repo_id ` set (t_repositories s)"

text \<open>Time passes between statements.\<close>

definition tick :: "time \<Rightarrow> 'z db_scheme \<Rightarrow> 'z db_scheme" where
  "tick d s = s\<lparr>clock := clock s + d\<rparr>"

text \<open>\<open>COALESCE(MAX(number), 0) + 1\<close>.\<close>

definition max_plus_one :: "int list \<Rightarrow> int" where
  "max_plus_one ns = foldr max ns 0 + 1"

lemma foldr_max_ge: "n \<in> set ns \<Longrightarrow> n \<le> foldr max ns (a :: int)"
  by (induction ns) (auto simp: le_max_iff_disj)

lemma max_plus_one_greater: "n \<in> set ns \<Longrightarrow> n < max_plus_one ns"
  using foldr_max_ge [of n ns 0] by (simp add: max_plus_one_def)

lemma max_plus_one_pos: "0 < max_plus_one ns"
proof -
  have "0 \<le> foldr max ns (0 :: int)" by (induction ns) auto
  then show ?thesis by (simp add: max_plus_one_def)
qed

end
