(* ===== verification/Keyed_Store.thy ===== *)
theory Keyed_Store
  imports Prelude
begin

text \<open>
  The contract several stores of the program share: a value is written under a key, read back
  and removed (role grants, branch protection rules, deployment secrets, stored objects). The
  locale states the laws of one write and one removal; its lemmas carry them to any sequence
  of writes and removals. Each component that provides such a store interprets the locale on
  its own operations.
\<close>

section \<open>Sequences of writes and removals\<close>

datatype ('k, 'v) kv_op = Put_op 'k 'v | Del_op 'k

fun run_ops ::
  "('k \<Rightarrow> 'v \<Rightarrow> 's \<Rightarrow> 's) \<Rightarrow> ('k \<Rightarrow> 's \<Rightarrow> 's) \<Rightarrow> ('k, 'v) kv_op list \<Rightarrow> 's \<Rightarrow> 's" where
  "run_ops put del [] s = s"
| "run_ops put del (Put_op k v # ops) s = run_ops put del ops (put k v s)"
| "run_ops put del (Del_op k # ops) s = run_ops put del ops (del k s)"

text \<open>The abstract store: a finite map.\<close>

fun run_map :: "('k, 'v) kv_op list \<Rightarrow> ('k \<rightharpoonup> 'v) \<Rightarrow> ('k \<rightharpoonup> 'v)" where
  "run_map [] m = m"
| "run_map (Put_op k v # ops) m = run_map ops (m(k \<mapsto> v))"
| "run_map (Del_op k # ops) m = run_map ops (m(k := None))"

fun ops_ok :: "('k \<Rightarrow> bool) \<Rightarrow> ('v \<Rightarrow> bool) \<Rightarrow> ('k, 'v) kv_op list \<Rightarrow> bool" where
  "ops_ok kok vok [] = True"
| "ops_ok kok vok (Put_op k v # ops) = (kok k \<and> vok v \<and> ops_ok kok vok ops)"
| "ops_ok kok vok (Del_op k # ops) = (kok k \<and> ops_ok kok vok ops)"

text \<open>The last operation of a sequence that concerns a key.\<close>

fun last_write :: "'k \<Rightarrow> ('k, 'v) kv_op list \<Rightarrow> 'v option option" where
  "last_write k [] = None"
| "last_write k (Put_op l v # ops) =
     (case last_write k ops of None \<Rightarrow> if l = k then Some (Some v) else None | r \<Rightarrow> r)"
| "last_write k (Del_op l # ops) =
     (case last_write k ops of None \<Rightarrow> if l = k then Some None else None | r \<Rightarrow> r)"

lemma run_map_last_write:
  "run_map ops m k = (case last_write k ops of None \<Rightarrow> m k | Some r \<Rightarrow> r)"
  by (induction ops m rule: run_map.induct)
    (simp_all del: fun_upd_apply split: option.splits, simp_all)

section \<open>The contract\<close>

text \<open>
  \<open>ready s\<close> says when the store accepts operations (no pending connection failure, the
  store's own invariant); \<open>key_ok s\<close> says which keys it accepts in \<open>s\<close>.
\<close>

locale keyed_store =
  fixes put :: "'k \<Rightarrow> 'v \<Rightarrow> 's \<Rightarrow> 's"
    and del :: "'k \<Rightarrow> 's \<Rightarrow> 's"
    and get :: "'k \<Rightarrow> 's \<Rightarrow> 'v option"
    and ready :: "'s \<Rightarrow> bool"
    and key_ok :: "'s \<Rightarrow> 'k \<Rightarrow> bool"
    and val_ok :: "'v \<Rightarrow> bool"
  assumes get_put_same:
      "ready s \<Longrightarrow> key_ok s k \<Longrightarrow> val_ok v \<Longrightarrow> get k (put k v s) = Some v"
    and get_put_other:
      "ready s \<Longrightarrow> key_ok s k \<Longrightarrow> val_ok v \<Longrightarrow> key_ok s l \<Longrightarrow> l \<noteq> k \<Longrightarrow> get l (put k v s) = get l s"
    and get_del_same: "ready s \<Longrightarrow> key_ok s k \<Longrightarrow> get k (del k s) = None"
    and get_del_other: "ready s \<Longrightarrow> key_ok s k \<Longrightarrow> key_ok s l \<Longrightarrow> l \<noteq> k \<Longrightarrow> get l (del k s) = get l s"
    and ready_put: "ready s \<Longrightarrow> key_ok s k \<Longrightarrow> val_ok v \<Longrightarrow> ready (put k v s)"
    and ready_del: "ready s \<Longrightarrow> key_ok s k \<Longrightarrow> ready (del k s)"
    and key_ok_put: "ready s \<Longrightarrow> key_ok (put k v s) = key_ok s"
    and key_ok_del: "ready s \<Longrightarrow> key_ok (del k s) = key_ok s"
begin

lemma last_write_wins:
  assumes "ready s" and "key_ok s k" and "val_ok v" and "val_ok w"
  shows "get k (put k w (put k v s)) = Some w"
  using assms by (simp add: get_put_same ready_put key_ok_put)

lemma writes_commute:
  assumes "ready s" "key_ok s k" "key_ok s l" "key_ok s j" "val_ok v" "val_ok w" "k \<noteq> l"
  shows "get j (put k v (put l w s)) = get j (put l w (put k v s))"
  using assms
  by (cases "j = k"; cases "j = l")
    (simp_all add: get_put_same get_put_other ready_put key_ok_put)

lemma run_ops_refines:
  assumes "ready s" and "ops_ok (key_ok s) val_ok ops" and "key_ok s k"
  shows "get k (run_ops put del ops s) = run_map ops (\<lambda>j. if key_ok s j then get j s else None) k"
  using assms
proof (induction ops arbitrary: s)
  case Nil
  then show ?case by simp
next
  case (Cons p ops)
  show ?case
  proof (cases p)
    case (Put_op l v)
    with Cons.prems have ok: "key_ok s l" "val_ok v" "ops_ok (key_ok s) val_ok ops" by auto
    have same: "(\<lambda>j. if key_ok s j then get j (put l v s) else None) =
        (\<lambda>j. if key_ok s j then get j s else None)(l \<mapsto> v)"
      using ok Cons.prems(1) by (auto simp: get_put_same get_put_other fun_eq_iff)
    show ?thesis
      using Cons.IH [of "put l v s"] Cons.prems ok Put_op
      by (simp add: ready_put key_ok_put same)
  next
    case (Del_op l)
    with Cons.prems have ok: "key_ok s l" "ops_ok (key_ok s) val_ok ops" by auto
    have same: "(\<lambda>j. if key_ok s j then get j (del l s) else None) =
        (\<lambda>j. if key_ok s j then get j s else None)(l := None)"
      using ok Cons.prems(1) by (auto simp: get_del_same get_del_other fun_eq_iff)
    show ?thesis
      using Cons.IH [of "del l s"] Cons.prems ok Del_op
      by (simp add: ready_del key_ok_del same)
  qed
qed

lemma run_ops_last_write:
  assumes "ready s" and "ops_ok (key_ok s) val_ok ops" and "key_ok s k"
  shows "get k (run_ops put del ops s) =
    (case last_write k ops of None \<Rightarrow> get k s | Some r \<Rightarrow> r)"
  using assms by (simp add: run_ops_refines run_map_last_write)

end

end
