(* ===== verification/Auth.thy ===== *)
theory Auth
  imports Schema Keyed_Store
begin

text \<open>
  Package \<open>internal/auth\<close>: accounts, password checks, cookie sessions, profiles and the
  per-repository role grants. The tables are \<open>t_users\<close>, \<open>t_sessions\<close> and
  \<open>t_permissions\<close>. SHA-256 (\<open>sha256\<close>, bytes to 32 bytes) and bcrypt (\<open>gen\<close>, \<open>cmp\<close>) are
  parameters; randomness is an argument.
\<close>

section \<open>Roles and grants (permissions.go)\<close>

definition RoleRead :: string where "RoleRead = ''read''"
definition RoleWrite :: string where "RoleWrite = ''write''"
definition RoleAdmin :: string where "RoleAdmin = ''admin''"

definition valid_role :: "string \<Rightarrow> bool" where
  "valid_role r \<longleftrightarrow> r = RoleRead \<or> r = RoleWrite \<or> r = RoleAdmin"

text \<open>The map literal \<open>rank\<close>; a missing key reads as 0.\<close>

definition role_rank :: "string \<Rightarrow> int" where
  "role_rank r = (if r = RoleRead then 1 else if r = RoleWrite then 2
                  else if r = RoleAdmin then 3 else 0)"

definition HasAtLeast :: "string \<Rightarrow> string \<Rightarrow> bool" where
  "HasAtLeast role required \<longleftrightarrow> role_rank role \<ge> role_rank required"

definition perm_key :: "int \<Rightarrow> string \<Rightarrow> permission_row \<Rightarrow> bool" where
  "perm_key rid uname p \<longleftrightarrow> perm_repo p = rid \<and> perm_user p = uname"

definition stmt_grant ::
  "int \<Rightarrow> string \<Rightarrow> string \<Rightarrow> ('z db_scheme, goerr + unit) st" where
  "stmt_grant rid uname role s =
     (if \<not> valid_role role then (Inl check_violation, s)
      else if \<not> repo_exists s rid then (Inl fk_violation, s)
      else (Inr (), s\<lparr>t_permissions :=
              upsert_row (perm_key rid uname) (\<lambda>p. p\<lparr>perm_role := role\<rparr>)
                \<lparr>perm_repo = rid, perm_user = uname, perm_role = role\<rparr> (t_permissions s)\<rparr>))"

definition Grant :: "int \<Rightarrow> string \<Rightarrow> string \<Rightarrow> ('z db_scheme, goerr + unit) st" where
  "Grant repositoryID username role =
     (if role = RoleRead \<or> role = RoleWrite \<or> role = RoleAdmin then
        on_result (pool (stmt_grant repositoryID username role))
          (\<lambda>err. fail (wrap_err ''grant permission'' err))
          (\<lambda>_. ok ())
      else fail (ErrText (''invalid role \"'' @ role @ ''\"'')))"

definition stmt_revoke :: "int \<Rightarrow> string \<Rightarrow> ('z db_scheme, goerr + unit) st" where
  "stmt_revoke rid uname s =
     (Inr (), s\<lparr>t_permissions := delete_rows (perm_key rid uname) (t_permissions s)\<rparr>)"

definition Revoke :: "int \<Rightarrow> string \<Rightarrow> ('z db_scheme, goerr + unit) st" where
  "Revoke repositoryID username =
     on_result (pool (stmt_revoke repositoryID username))
       (\<lambda>err. fail (wrap_err ''revoke permission'' err))
       (\<lambda>_. ok ())"

definition stmt_select_role :: "int \<Rightarrow> string \<Rightarrow> ('z db_scheme, goerr + string) st" where
  "stmt_select_role rid uname s =
     (case List.find (perm_key rid uname) (t_permissions s) of
        None \<Rightarrow> Inl NoRows | Some p \<Rightarrow> Inr (perm_role p), s)"

definition RoleFor :: "int \<Rightarrow> string \<Rightarrow> ('z db_scheme, goerr + string) st" where
  "RoleFor repositoryID username =
     on_result (pool (stmt_select_role repositoryID username))
       (\<lambda>err. if err_is_no_rows err then fail (Sentinel Auth_ErrNotFound)
              else fail (wrap_err ''lookup permission'' err))
       (\<lambda>role. ok role)"

section \<open>Hashing and session tokens (hash.go, util.go, store.go)\<close>

definition hex_digit :: "nat \<Rightarrow> char" where
  "hex_digit n = (if n < 10 then char_of (48 + n) else char_of (87 + n))"

definition hexEncode :: "string \<Rightarrow> string" where
  "hexEncode data =
     concat (map (\<lambda>c. [hex_digit (of_char c div 16), hex_digit (of_char c mod 16)]) data)"

definition sha256Sum :: "(string \<Rightarrow> string) \<Rightarrow> string \<Rightarrow> string" where
  "sha256Sum sha256 value = hexEncode (sha256 value)"

definition base64_digit :: "nat \<Rightarrow> char" where
  "base64_digit n =
     (if n < 26 then char_of (65 + n) else if n < 52 then char_of (71 + n)
      else if n < 62 then char_of (n - 4) else if n = 62 then CHR ''-'' else CHR ''_'')"

text \<open>\<open>base64.RawURLEncoding.EncodeToString\<close>: URL alphabet, no padding.\<close>

fun raw_url_encode :: "string \<Rightarrow> string" where
  "raw_url_encode (a # b # c # s) =
     (let n = of_char a * 65536 + of_char b * 256 + of_char c :: nat in
      map base64_digit [n div 262144, n div 4096 mod 64, n div 64 mod 64, n mod 64]
        @ raw_url_encode s)"
| "raw_url_encode [a, b] =
     (let n = of_char a * 65536 + of_char b * 256 :: nat in
      map base64_digit [n div 262144, n div 4096 mod 64, n div 64 mod 64])"
| "raw_url_encode [a] =
     (let n = of_char a * 65536 :: nat in map base64_digit [n div 262144, n div 4096 mod 64])"
| "raw_url_encode [] = []"

definition isUniqueViolation :: "goerr \<Rightarrow> bool" where
  "isUniqueViolation err \<longleftrightarrow> err_sqlstate err = Some ''23505''"

text \<open>\<open>rand\<close> is the outcome of \<open>rand.Read\<close>: the 32 random bytes, or an error.\<close>

definition newSessionToken ::
  "(string \<Rightarrow> string) \<Rightarrow> goerr + string \<Rightarrow> goerr + (string \<times> string)" where
  "newSessionToken sha256 rand =
     (case rand of
        Inl err \<Rightarrow> Inl (wrap_err ''generate session token'' err)
      | Inr raw \<Rightarrow> (let token = raw_url_encode raw in Inr (token, sha256Sum sha256 token)))"

section \<open>Accounts (store.go)\<close>

record user =
  user_id :: int
  user_name :: string
  user_created :: time

definition username_char :: "char \<Rightarrow> bool" where
  "username_char r \<longleftrightarrow>
     CHR ''a'' \<le> r \<and> r \<le> CHR ''z'' \<or> CHR ''A'' \<le> r \<and> r \<le> CHR ''Z'' \<or>
     CHR ''0'' \<le> r \<and> r \<le> CHR ''9'' \<or> r = CHR ''-'' \<or> r = CHR ''_''"

text \<open>
  The loop ranges over runes; a byte outside ASCII makes a rune of at least 128, which no case
  accepts, so the test on bytes is the same.
\<close>

definition validateUsername :: "string \<Rightarrow> goerr option" where
  "validateUsername username =
     (if length username < 1 \<or> length username > 40 then Some (Sentinel Auth_ErrInvalidUsername)
      else if list_all username_char username then None
      else Some (Sentinel Auth_ErrInvalidUsername))"

definition stmt_insert_user :: "string \<Rightarrow> string \<Rightarrow> ('z db_scheme, goerr + int \<times> time) st" where
  "stmt_insert_user uname hash =
     and_then (next_id T_users) (\<lambda>i s.
       if uname \<in> usr_name ` set (t_users s) then (Inl unique_violation, s)
       else (Inr (i, clock s),
             s\<lparr>t_users := t_users s @
                [\<lparr>usr_id = i, usr_name = uname, usr_hash = hash, usr_created = clock s,
                  usr_display = [], usr_bio = [], usr_location = [], usr_website = []\<rparr>]\<rparr>))"

text \<open>\<open>gen\<close> is \<open>bcrypt.GenerateFromPassword\<close> at the default cost.\<close>

definition CreateUser ::
  "(string \<Rightarrow> goerr + string) \<Rightarrow> string \<Rightarrow> string \<Rightarrow> ('z db_scheme, goerr + user) st" where
  "CreateUser gen username password =
     (case validateUsername username of
        Some err \<Rightarrow> fail err
      | None \<Rightarrow>
          if length password < 8 then fail (Sentinel Auth_ErrWeakPassword)
          else (case gen password of
              Inl err \<Rightarrow> fail (wrap_err ''hash password'' err)
            | Inr hash \<Rightarrow>
                on_result (pool (stmt_insert_user username hash))
                  (\<lambda>err. if isUniqueViolation err then fail (Sentinel Auth_ErrUserExists)
                         else fail (wrap_err ''insert user'' err))
                  (\<lambda>(i, created).
                     ok \<lparr>user_id = i, user_name = username, user_created = created\<rparr>)))"

definition user_of_row :: "user_row \<Rightarrow> user" where
  "user_of_row r = \<lparr>user_id = usr_id r, user_name = usr_name r, user_created = usr_created r\<rparr>"

definition find_user_by_name :: "string \<Rightarrow> 'z db_scheme \<Rightarrow> user_row option" where
  "find_user_by_name uname s = List.find (\<lambda>r. usr_name r = uname) (t_users s)"

definition find_user_by_id :: "int \<Rightarrow> 'z db_scheme \<Rightarrow> user_row option" where
  "find_user_by_id i s = List.find (\<lambda>r. usr_id r = i) (t_users s)"

definition stmt_select_user :: "string \<Rightarrow> ('z db_scheme, goerr + user_row) st" where
  "stmt_select_user uname s =
     (case find_user_by_name uname s of None \<Rightarrow> Inl NoRows | Some r \<Rightarrow> Inr r, s)"

text \<open>
  \<open>cmp\<close> is \<open>bcrypt.CompareHashAndPassword(hash, password) == nil\<close>. The comparison with a fixed
  hash on the branch of a missing user only takes time.
\<close>

definition Authenticate ::
  "(string \<Rightarrow> string \<Rightarrow> bool) \<Rightarrow> string \<Rightarrow> string \<Rightarrow> ('z db_scheme, goerr + user) st" where
  "Authenticate cmp username password =
     on_result (pool (stmt_select_user username))
       (\<lambda>err. if err_is_no_rows err then fail (Sentinel Auth_ErrBadCredentials)
              else fail (wrap_err ''lookup user'' err))
       (\<lambda>r. if \<not> cmp (usr_hash r) password then fail (Sentinel Auth_ErrBadCredentials)
            else ok (user_of_row r))"

definition sessionDuration :: time where
  "sessionDuration = 14 * 24 * 60 * 60 * 1000000"

definition stmt_insert_session ::
  "string \<Rightarrow> int \<Rightarrow> time \<Rightarrow> ('z db_scheme, goerr + unit) st" where
  "stmt_insert_session hash uid expires s =
     (if hash \<in> ses_hash ` set (t_sessions s) then (Inl unique_violation, s)
      else if uid \<notin> usr_id ` set (t_users s) then (Inl fk_violation, s)
      else (Inr (), s\<lparr>t_sessions := t_sessions s @
              [\<lparr>ses_hash = hash, ses_user = uid, ses_expires = expires\<rparr>]\<rparr>))"

definition StartSession ::
  "(string \<Rightarrow> string) \<Rightarrow> goerr + string \<Rightarrow> int \<Rightarrow> ('z db_scheme, goerr + string \<times> time) st" where
  "StartSession sha256 rand userID =
     (case newSessionToken sha256 rand of
        Inl err \<Rightarrow> fail err
      | Inr (token, tokenHash) \<Rightarrow>
          and_then (read_state clock) (\<lambda>now.
            let expires = now + sessionDuration in
            on_result (pool (stmt_insert_session tokenHash userID expires))
              (\<lambda>err. fail (wrap_err ''insert session'' err))
              (\<lambda>_. ok (token, expires))))"

definition stmt_select_session :: "string \<Rightarrow> ('z db_scheme, goerr + user_row) st" where
  "stmt_select_session hash s =
     (case List.find (\<lambda>r. ses_hash r = hash \<and> ses_expires r > clock s) (t_sessions s) of
        None \<Rightarrow> Inl NoRows
      | Some r \<Rightarrow>
          (case find_user_by_id (ses_user r) s of None \<Rightarrow> Inl NoRows | Some u \<Rightarrow> Inr u), s)"

definition UserForToken :: "(string \<Rightarrow> string) \<Rightarrow> string \<Rightarrow> ('z db_scheme, goerr + user) st" where
  "UserForToken sha256 token =
     on_result (pool (stmt_select_session (sha256Sum sha256 token)))
       (\<lambda>err. if err_is_no_rows err then fail (Sentinel Auth_ErrNoSession)
              else fail (wrap_err ''resolve session'' err))
       (\<lambda>r. ok (user_of_row r))"

definition stmt_select_user_id :: "int \<Rightarrow> ('z db_scheme, goerr + user_row) st" where
  "stmt_select_user_id i s =
     (case find_user_by_id i s of None \<Rightarrow> Inl NoRows | Some r \<Rightarrow> Inr r, s)"

definition UserForID :: "int \<Rightarrow> ('z db_scheme, goerr + user) st" where
  "UserForID userID =
     on_result (pool (stmt_select_user_id userID))
       (\<lambda>err. if err_is_no_rows err then fail (Sentinel Auth_ErrNoSession)
              else fail (wrap_err ''lookup user by id'' err))
       (\<lambda>r. ok (user_of_row r))"

definition stmt_delete_session :: "string \<Rightarrow> ('z db_scheme, goerr + unit) st" where
  "stmt_delete_session hash s =
     (Inr (), s\<lparr>t_sessions := delete_rows (\<lambda>r. ses_hash r = hash) (t_sessions s)\<rparr>)"

definition EndSession :: "(string \<Rightarrow> string) \<Rightarrow> string \<Rightarrow> ('z db_scheme, goerr + unit) st" where
  "EndSession sha256 token =
     on_result (pool (stmt_delete_session (sha256Sum sha256 token)))
       (\<lambda>err. fail (wrap_err ''delete session'' err))
       (\<lambda>_. ok ())"

section \<open>Profiles (profile.go)\<close>

record profile =
  prof_username :: string
  prof_display :: string
  prof_bio :: string
  prof_location :: string
  prof_website :: string
  prof_joined :: time

definition maxProfileField :: nat where "maxProfileField = 500"

definition isPlausibleURL :: "string \<Rightarrow> bool" where
  "isPlausibleURL raw =
     (let lower = to_lower raw in
      if \<not> has_prefix lower ''http://'' \<and> \<not> has_prefix lower ''https://'' then False
      else if contains_any raw
          [CHR '' '', CHR 0x09, CHR 0x0D, CHR 0x0A, CHR 0x22, CHR 0x27, CHR ''<'', CHR ''>'',
           CHR ''('', CHR '')''] then False
      else length raw \<le> 2000)"

text \<open>\<open>isNoRows\<close> of package auth compares the error text.\<close>

definition auth_isNoRows :: "goerr \<Rightarrow> bool" where
  "auth_isNoRows err \<longleftrightarrow> err_text err = ''no rows in result set''"

definition profile_of_row :: "user_row \<Rightarrow> profile" where
  "profile_of_row r =
     \<lparr>prof_username = usr_name r, prof_display = usr_display r, prof_bio = usr_bio r,
      prof_location = usr_location r, prof_website = usr_website r, prof_joined = usr_created r\<rparr>"

definition GetProfile :: "string \<Rightarrow> ('z db_scheme, goerr + profile) st" where
  "GetProfile username =
     (case validateUsername username of
        Some err \<Rightarrow> fail err
      | None \<Rightarrow>
          on_result (pool (stmt_select_user username))
            (\<lambda>err. if auth_isNoRows err then fail (Sentinel Auth_ErrNotFound)
                   else fail (wrap_err ''get profile'' err))
            (\<lambda>r. ok (profile_of_row r)))"

definition stmt_update_profile ::
  "string \<Rightarrow> string \<Rightarrow> string \<Rightarrow> string \<Rightarrow> string \<Rightarrow> ('z db_scheme, goerr + user_row) st" where
  "stmt_update_profile uname display bio loc website s =
     (let users = update_rows (\<lambda>r. usr_name r = uname)
            (\<lambda>r. r\<lparr>usr_display := display, usr_bio := bio, usr_location := loc,
                    usr_website := website\<rparr>) (t_users s) in
      case List.find (\<lambda>r. usr_name r = uname) users of
        None \<Rightarrow> (Inl NoRows, s)
      | Some r \<Rightarrow> (Inr r, s\<lparr>t_users := users\<rparr>))"

definition UpdateProfile :: "string \<Rightarrow> profile \<Rightarrow> ('z db_scheme, goerr + profile) st" where
  "UpdateProfile username p =
     (if list_ex (\<lambda>field. length field > maxProfileField)
           [prof_display p, prof_bio p, prof_location p]
      then fail (ErrText (''profile field exceeds '' @ nat_str maxProfileField @ '' characters''))
      else if prof_website p \<noteq> [] \<and> \<not> isPlausibleURL (prof_website p)
      then fail (ErrText ''website must be an http(s) URL'')
      else
        on_result (pool (stmt_update_profile username (trim_space (prof_display p)) (prof_bio p)
                     (trim_space (prof_location p)) (trim_space (prof_website p))))
          (\<lambda>err. if auth_isNoRows err then fail (Sentinel Auth_ErrNotFound)
                 else fail (wrap_err ''update profile'' err))
          (\<lambda>r. ok (profile_of_row r)))"

section \<open>The invariant of the account tables\<close>

text \<open>
  What the migrations' constraints and the store's checks keep true of users and sessions:
  unique ids below the next one of the sequence, unique and valid names, profile fields within
  the limit, a website that is empty or an http(s) URL, unique session hashes, and no session
  without its user.
\<close>

definition profile_fields_ok :: "user_row \<Rightarrow> bool" where
  "profile_fields_ok r \<longleftrightarrow>
     length (usr_display r) \<le> 500 \<and> length (usr_bio r) \<le> 500 \<and> length (usr_location r) \<le> 500
     \<and> (usr_website r = [] \<or> length (usr_website r) \<le> 2000)"

definition users_wf :: "'z db_scheme \<Rightarrow> bool" where
  "users_wf s \<longleftrightarrow>
     distinct (map usr_id (t_users s)) \<and> distinct (map usr_name (t_users s)) \<and>
     (\<forall>u\<in>set (t_users s). usr_id u < next_ids s T_users \<and> validateUsername (usr_name u) = None
        \<and> profile_fields_ok u)"

definition sessions_wf :: "'z db_scheme \<Rightarrow> bool" where
  "sessions_wf s \<longleftrightarrow>
     distinct (map ses_hash (t_sessions s)) \<and>
     (\<forall>r\<in>set (t_sessions s). ses_user r \<in> usr_id ` set (t_users s))"

definition permissions_wf :: "'z db_scheme \<Rightarrow> bool" where
  "permissions_wf s \<longleftrightarrow>
     distinct (map (\<lambda>p. (perm_repo p, perm_user p)) (t_permissions s)) \<and>
     (\<forall>p\<in>set (t_permissions s). valid_role (perm_role p) \<and> repo_exists s (perm_repo p))"

definition auth_wf :: "'z db_scheme \<Rightarrow> bool" where
  "auth_wf s \<longleftrightarrow> users_wf s \<and> sessions_wf s \<and> permissions_wf s"

lemmas auth_wf_defs = auth_wf_def users_wf_def sessions_wf_def permissions_wf_def repo_exists_def

lemma auth_wf_faults: "auth_wf s \<Longrightarrow> auth_wf (s\<lparr>faults := fs\<rparr>)"
  by (simp add: auth_wf_defs)

lemma auth_wf_tick: "auth_wf s \<Longrightarrow> auth_wf (tick d s)"
  by (simp add: auth_wf_defs tick_def)

lemmas steps_pool_auth_wf [step_rules] = steps_pool_keeps [where P = auth_wf, OF _ auth_wf_faults]

lemma keeps_steps_readonly: "(\<And>s. snd (m s) = s) \<Longrightarrow> steps (keeps P) m"
  by (simp add: steps_def keeps_def)

lemma stmt_select_role_keeps [step_rules]: "steps (keeps P) (stmt_select_role rid uname)"
  by (rule keeps_steps_readonly) (simp add: stmt_select_role_def)

lemma stmt_select_user_keeps [step_rules]: "steps (keeps P) (stmt_select_user uname)"
  by (rule keeps_steps_readonly) (simp add: stmt_select_user_def)

lemma stmt_select_user_id_keeps [step_rules]: "steps (keeps P) (stmt_select_user_id i)"
  by (rule keeps_steps_readonly) (simp add: stmt_select_user_id_def)

lemma stmt_select_session_keeps [step_rules]: "steps (keeps P) (stmt_select_session h)"
  by (rule keeps_steps_readonly) (simp add: stmt_select_session_def)

lemma stmt_grant_auth_wf [step_rules]: "steps (keeps auth_wf) (stmt_grant rid uname role)"
proof (rule stepsI)
  fix s :: "'a db_scheme"
  let ?f = "\<lambda>p. p\<lparr>perm_role := role\<rparr>"
  let ?r = "\<lparr>perm_repo = rid, perm_user = uname, perm_role = role\<rparr>"
  let ?ps = "upsert_row (perm_key rid uname) ?f ?r (t_permissions s)"
  show "keeps auth_wf s (snd (stmt_grant rid uname role s))"
  proof (cases "valid_role role \<and> repo_exists s rid \<and> auth_wf s")
    case True
    then have wf: "permissions_wf s" by (simp add: auth_wf_def)
    have "distinct (map (\<lambda>p. (perm_repo p, perm_user p)) ?ps)"
      by (rule distinct_map_upsert_row) (use wf in \<open>auto simp: perm_key_def permissions_wf_def\<close>)
    moreover have "\<forall>p\<in>set ?ps. valid_role (perm_role p) \<and> repo_exists s (perm_repo p)"
      using wf True by (auto simp: upsert_row_def set_update_rows permissions_wf_def)
    ultimately show ?thesis
      using True by (auto simp: keeps_def stmt_grant_def auth_wf_defs)
  next
    case False
    then show ?thesis by (auto simp: keeps_def stmt_grant_def)
  qed
qed

lemma stmt_revoke_auth_wf [step_rules]: "steps (keeps auth_wf) (stmt_revoke rid uname)"
  by (rule stepsI) (auto simp: keeps_def stmt_revoke_def auth_wf_defs distinct_map_delete_rows)

lemma stmt_insert_user_auth_wf [step_rules]:
  assumes "validateUsername uname = None"
  shows "steps (keeps auth_wf) (stmt_insert_user uname hash)"
  using assms
  by (intro stepsI)
    (force simp: keeps_def stmt_insert_user_def and_then_apply next_id_def auth_wf_defs
      profile_fields_ok_def)

lemma stmt_insert_session_auth_wf [step_rules]:
  "steps (keeps auth_wf) (stmt_insert_session hash uid expires)"
  by (rule stepsI) (auto simp: keeps_def stmt_insert_session_def auth_wf_defs)

lemma stmt_delete_session_auth_wf [step_rules]: "steps (keeps auth_wf) (stmt_delete_session hash)"
  by (rule stepsI)
    (auto simp: keeps_def stmt_delete_session_def auth_wf_defs distinct_map_delete_rows)

lemma length_dropWhile_concat:
  "length (concat (rev (dropWhile p (rev (dropWhile q xs))))) \<le> length (concat xs)"
proof -
  have drop: "length (concat (dropWhile q ys)) \<le> length (concat ys)" for q and ys :: "'a list list"
    by (induction ys) auto
  have rev: "length (concat (rev ys)) = length (concat ys)" for ys :: "'a list list"
    by (induction ys) auto
  have "length (concat (dropWhile p (rev (dropWhile q xs)))) \<le> length (concat (dropWhile q xs))"
    using drop [of p "rev (dropWhile q xs)"] by (simp only: rev)
  also have "\<dots> \<le> length (concat xs)" by (rule drop)
  finally show ?thesis by (simp only: rev)
qed

lemma length_trim_space: "length (trim_space s) \<le> length s"
  using length_dropWhile_concat [of is_space_rune is_space_rune "runes s"]
  by (simp add: trim_space_def)

lemma isPlausibleURL_length: "isPlausibleURL raw \<Longrightarrow> length raw \<le> 2000"
  by (simp add: isPlausibleURL_def Let_def split: if_splits)

lemma auth_wf_replace_users:
  assumes wf: "auth_wf s" and ids: "map usr_id us = map usr_id (t_users s)"
    and names: "map usr_name us = map usr_name (t_users s)"
    and ok: "\<forall>u\<in>set us. profile_fields_ok u"
  shows "auth_wf (s\<lparr>t_users := us\<rparr>)"
proof -
  have id_set: "usr_id ` set us = usr_id ` set (t_users s)"
    by (metis ids list.set_map)
  have name_set: "usr_name ` set us = usr_name ` set (t_users s)"
    by (metis names list.set_map)
  have "usr_id u < next_ids s T_users" if "u \<in> set us" for u
  proof -
    have "usr_id u \<in> usr_id ` set (t_users s)" using that id_set by blast
    then show ?thesis using wf by (auto simp: auth_wf_def users_wf_def)
  qed
  moreover have "validateUsername (usr_name u) = None" if "u \<in> set us" for u
  proof -
    have "usr_name u \<in> usr_name ` set (t_users s)" using that name_set by blast
    then show ?thesis using wf by (auto simp: auth_wf_def users_wf_def)
  qed
  ultimately have "users_wf (s\<lparr>t_users := us\<rparr>)"
    using wf ids names ok by (simp add: auth_wf_def users_wf_def)
  moreover have "sessions_wf (s\<lparr>t_users := us\<rparr>)"
    using wf by (simp add: auth_wf_def sessions_wf_def id_set)
  moreover have "permissions_wf (s\<lparr>t_users := us\<rparr>)"
    using wf by (simp add: auth_wf_def permissions_wf_def repo_exists_def)
  ultimately show ?thesis by (simp add: auth_wf_def)
qed

lemma stmt_update_profile_auth_wf [step_rules]:
  assumes "length display \<le> 500" "length bio \<le> 500" "length loc \<le> 500" "length website \<le> 2000"
  shows "steps (keeps auth_wf) (stmt_update_profile uname display bio loc website)"
proof (rule stepsI)
  fix s :: "'a db_scheme"
  define us where "us = update_rows (\<lambda>r. usr_name r = uname)
    (\<lambda>r. r\<lparr>usr_display := display, usr_bio := bio, usr_location := loc,
            usr_website := website\<rparr>) (t_users s)"
  have names: "map usr_name us = map usr_name (t_users s)"
    unfolding us_def by (rule map_update_rows) simp
  have ids: "map usr_id us = map usr_id (t_users s)"
    unfolding us_def by (rule map_update_rows) simp
  have ok: "\<forall>u\<in>set us. profile_fields_ok u" if "auth_wf s"
    using that assms
    by (auto simp: us_def set_update_rows auth_wf_def users_wf_def profile_fields_ok_def)
  have "snd (stmt_update_profile uname display bio loc website s) \<in> {s, s\<lparr>t_users := us\<rparr>}"
    by (simp add: stmt_update_profile_def Let_def us_def split: option.split)
  then show "keeps auth_wf s (snd (stmt_update_profile uname display bio loc website s))"
    using auth_wf_replace_users [OF _ ids names ok] by (auto simp: keeps_def)
qed

lemma Grant_auth_wf: "steps (keeps auth_wf) (Grant rid uname role)"
  unfolding Grant_def by (intro step_rules)

lemma Revoke_auth_wf: "steps (keeps auth_wf) (Revoke rid uname)"
  unfolding Revoke_def by (intro step_rules)

lemma CreateUser_auth_wf: "steps (keeps auth_wf) (CreateUser gen uname pw)"
  unfolding CreateUser_def by (intro step_rules)

lemma StartSession_auth_wf: "steps (keeps auth_wf) (StartSession sha rand uid)"
  unfolding StartSession_def by (intro step_rules)

lemma EndSession_auth_wf: "steps (keeps auth_wf) (EndSession sha token)"
  unfolding EndSession_def by (intro step_rules)

lemma UpdateProfile_auth_wf: "steps (keeps auth_wf) (UpdateProfile uname p)"
proof -
  have *: "length (trim_space x) \<le> n" if "length x \<le> n" for x n
    using length_trim_space [of x] that by simp
  show ?thesis
    unfolding UpdateProfile_def
    by (intro step_rules)
      (auto simp: maxProfileField_def intro: * dest: isPlausibleURL_length)
qed

section \<open>Role grants are a keyed store\<close>

definition grant_put :: "int \<times> string \<Rightarrow> string \<Rightarrow> 'z db_scheme \<Rightarrow> 'z db_scheme" where
  "grant_put k role s = snd (Grant (fst k) (snd k) role s)"

definition grant_del :: "int \<times> string \<Rightarrow> 'z db_scheme \<Rightarrow> 'z db_scheme" where
  "grant_del k s = snd (Revoke (fst k) (snd k) s)"

definition grant_get :: "int \<times> string \<Rightarrow> 'z db_scheme \<Rightarrow> string option" where
  "grant_get k s = (case fst (RoleFor (fst k) (snd k) s) of Inl _ \<Rightarrow> None | Inr r \<Rightarrow> Some r)"

definition grant_key_ok :: "'z db_scheme \<Rightarrow> int \<times> string \<Rightarrow> bool" where
  "grant_key_ok s k = repo_exists s (fst k)"

lemma Grant_calm:
  assumes "calm s" and "valid_role role" and "repo_exists s rid"
  shows "Grant rid uname role s =
    (Inr (), s\<lparr>t_permissions := upsert_row (perm_key rid uname) (\<lambda>p. p\<lparr>perm_role := role\<rparr>)
       \<lparr>perm_repo = rid, perm_user = uname, perm_role = role\<rparr> (t_permissions s)\<rparr>)"
  using assms
  by (simp add: Grant_def on_result_apply stmt_grant_def valid_role_def [symmetric])

lemma Revoke_calm:
  "calm s \<Longrightarrow> Revoke rid uname s =
    (Inr (), s\<lparr>t_permissions := delete_rows (perm_key rid uname) (t_permissions s)\<rparr>)"
  by (simp add: Revoke_def on_result_apply stmt_revoke_def)

lemma RoleFor_calm:
  "calm s \<Longrightarrow> RoleFor rid uname s =
    (case List.find (perm_key rid uname) (t_permissions s) of
       None \<Rightarrow> Inl (Sentinel Auth_ErrNotFound) | Some p \<Rightarrow> Inr (perm_role p), s)"
  by (simp add: RoleFor_def on_result_apply stmt_select_role_def split: option.split)

lemma grant_get_calm:
  "calm s \<Longrightarrow> grant_get k s =
    map_option perm_role (List.find (perm_key (fst k) (snd k)) (t_permissions s))"
  by (simp add: grant_get_def RoleFor_calm split: option.split)

lemma Grant_same_repositories: "steps (same t_repositories) (Grant rid uname role)"
proof -
  have "steps (same t_repositories) (pool (stmt_grant rid uname role))"
    by (rule steps_pool_same) (auto simp: steps_def same_def stmt_grant_def)
  then show ?thesis unfolding Grant_def by (intro step_rules)
qed

lemma calm_update_permissions [simp]: "calm (s\<lparr>t_permissions := ps\<rparr>) = calm s"
  by (simp add: calm_def)

lemma perm_key_update [simp]: "perm_key rid u (p\<lparr>perm_role := r\<rparr>) = perm_key rid u p"
  by (simp add: perm_key_def)

lemma find_upsert_grant:
  "map_option perm_role
     (List.find (perm_key rid u) (upsert_row (perm_key rid u) (\<lambda>p. p\<lparr>perm_role := r\<rparr>)
        \<lparr>perm_repo = rid, perm_user = u, perm_role = r\<rparr> ps)) = Some r"
  by (subst find_upsert_row_same) (auto simp: perm_key_def split: option.split)

lemma find_upsert_grant_other:
  "(rid', u') \<noteq> (rid, u) \<Longrightarrow>
     List.find (perm_key rid' u') (upsert_row (perm_key rid u) (\<lambda>p. p\<lparr>perm_role := r\<rparr>)
        \<lparr>perm_repo = rid, perm_user = u, perm_role = r\<rparr> ps) = List.find (perm_key rid' u') ps"
  by (rule find_upsert_row_other) (auto simp: perm_key_def)

lemma find_delete_grant_other:
  "(rid', u') \<noteq> (rid, u) \<Longrightarrow>
     List.find (perm_key rid' u') (delete_rows (perm_key rid u) ps) = List.find (perm_key rid' u') ps"
  by (rule find_delete_rows_other) (auto simp: perm_key_def)

interpretation grants: keyed_store grant_put grant_del grant_get calm grant_key_ok valid_role
proof unfold_locales
  fix s :: "'z db_scheme" and k l :: "int \<times> string" and v
  assume c: "calm s"
  show key: "grant_key_ok (grant_put k v s) = grant_key_ok s"
    using stepsD [OF Grant_same_repositories, of s]
    by (simp add: fun_eq_iff grant_key_ok_def grant_put_def repo_exists_def same_def)
  show "grant_key_ok (grant_del k s) = grant_key_ok s"
    using c by (simp add: fun_eq_iff grant_key_ok_def grant_del_def repo_exists_def Revoke_calm)
  assume k: "grant_key_ok s k"
  then have r: "repo_exists s (fst k)" by (simp add: grant_key_ok_def)
  show "calm (grant_del k s)" using c by (simp add: grant_del_def Revoke_calm)
  show "grant_get k (grant_del k s) = None"
    using c by (simp add: grant_get_calm grant_del_def Revoke_calm find_delete_rows_same)
  { assume v: "valid_role v"
    show "calm (grant_put k v s)" using c v r by (simp add: grant_put_def Grant_calm)
    show "grant_get k (grant_put k v s) = Some v"
      using c v r find_upsert_grant
      by (simp add: grant_get_calm grant_put_def Grant_calm)
    assume "l \<noteq> k"
    then show "grant_get l (grant_put k v s) = grant_get l s"
      using c v r by (simp add: grant_get_calm grant_put_def Grant_calm find_upsert_grant_other
          prod_eq_iff) }
  assume "l \<noteq> k"
  then show "grant_get l (grant_del k s) = grant_get l s"
    using c by (simp add: grant_get_calm grant_del_def Revoke_calm find_delete_grant_other
        prod_eq_iff)
qed

section \<open>Accounts and sessions: what the operations return\<close>

lemma find_user_by_id_unique:
  "users_wf s \<Longrightarrow> u \<in> set (t_users s) \<Longrightarrow> find_user_by_id (usr_id u) s = Some u"
  unfolding find_user_by_id_def
  by (rule find_eq_SomeI) (auto simp: users_wf_def distinct_map dest: inj_onD)

lemma find_user_by_name_unique:
  "users_wf s \<Longrightarrow> u \<in> set (t_users s) \<Longrightarrow> find_user_by_name (usr_name u) s = Some u"
  unfolding find_user_by_name_def
  by (rule find_eq_SomeI) (auto simp: users_wf_def distinct_map dest: inj_onD)

lemma CreateUser_calm:
  assumes "calm s"
  shows "CreateUser gen uname pw s =
    (case validateUsername uname of Some e \<Rightarrow> (Inl e, s) | None \<Rightarrow>
     if length pw < 8 then (Inl (Sentinel Auth_ErrWeakPassword), s)
     else (case gen pw of Inl e \<Rightarrow> (Inl (wrap_err ''hash password'' e), s) | Inr h \<Rightarrow>
       let i = next_ids s T_users; t = s\<lparr>next_ids := (next_ids s)(T_users := i + 1)\<rparr> in
       if uname \<in> usr_name ` set (t_users s) then (Inl (Sentinel Auth_ErrUserExists), t)
       else (Inr \<lparr>user_id = i, user_name = uname, user_created = clock s\<rparr>,
             t\<lparr>t_users := t_users s @
                [\<lparr>usr_id = i, usr_name = uname, usr_hash = h, usr_created = clock s,
                  usr_display = [], usr_bio = [], usr_location = [], usr_website = []\<rparr>]\<rparr>)))"
  using assms
  by (auto simp: CreateUser_def on_result_apply and_then_apply stmt_insert_user_def next_id_def Let_def
      isUniqueViolation_def unique_violation_def split: option.split sum.split)

lemma Authenticate_calm:
  "calm s \<Longrightarrow> Authenticate cmp uname pw s =
    (case find_user_by_name uname s of None \<Rightarrow> Inl (Sentinel Auth_ErrBadCredentials)
     | Some r \<Rightarrow> if cmp (usr_hash r) pw then Inr (user_of_row r)
                 else Inl (Sentinel Auth_ErrBadCredentials), s)"
  by (simp add: Authenticate_def on_result_apply stmt_select_user_def split: option.split)

lemma UserForToken_calm:
  "calm s \<Longrightarrow> UserForToken sha token s =
    (case List.find (\<lambda>r. ses_hash r = sha256Sum sha token \<and> ses_expires r > clock s) (t_sessions s) of
       None \<Rightarrow> Inl (Sentinel Auth_ErrNoSession)
     | Some r \<Rightarrow> (case find_user_by_id (ses_user r) s of
                   None \<Rightarrow> Inl (Sentinel Auth_ErrNoSession)
                 | Some u \<Rightarrow> Inr (user_of_row u)), s)"
  by (simp add: UserForToken_def on_result_apply stmt_select_session_def split: option.split)

lemma EndSession_calm:
  "calm s \<Longrightarrow> EndSession sha token s =
    (Inr (), s\<lparr>t_sessions :=
       delete_rows (\<lambda>r. ses_hash r = sha256Sum sha token) (t_sessions s)\<rparr>)"
  by (simp add: EndSession_def on_result_apply stmt_delete_session_def)

lemma StartSession_calm_Inr:
  assumes "calm s" and "StartSession sha rand uid s = (Inr (token, expires), t)"
  shows "expires = clock s + sessionDuration \<and> uid \<in> usr_id ` set (t_users s)
    \<and> sha256Sum sha token \<notin> ses_hash ` set (t_sessions s)
    \<and> t = s\<lparr>t_sessions := t_sessions s @
         [\<lparr>ses_hash = sha256Sum sha token, ses_user = uid, ses_expires = expires\<rparr>]\<rparr>"
  using assms
  by (auto simp: StartSession_def newSessionToken_def Let_def and_then_apply on_result_apply
      stmt_insert_session_def split: sum.splits if_splits)

text \<open>
  C25: Registration and login. When no database call fails and \<open>CreateUser\<close> succeeds, the account
  holds a hash that \<open>gen\<close> made of this password, and a login to it at once succeeds exactly for the
  passwords \<open>cmp\<close> accepts for that hash; the password itself is one, by the documented law of
  bcrypt that a hash matches the password it was made of. (bcrypt accepts a few others: it
  reads 72 bytes of a password.) Every failed attempt on the account and on any unknown name gets the
  same error, logins to other names are what they were before, and registering the name again
  is refused.
\<close>

theorem register_then_login:
  assumes "calm s" and "auth_wf s"
    and bcrypt: "\<And>p h. gen p = Inr h \<Longrightarrow> cmp h p"
    and created: "CreateUser gen uname pw s = (Inr u, t)"
  shows "(\<exists>h. gen pw = Inr h \<and> (\<forall>q. Authenticate cmp uname q t =
            (if cmp h q then Inr u else Inl (Sentinel Auth_ErrBadCredentials), t)))
    \<and> Authenticate cmp uname pw t = (Inr u, t)
    \<and> (\<forall>name q. name \<noteq> uname \<longrightarrow> fst (Authenticate cmp name q t) = fst (Authenticate cmp name q s))
    \<and> (\<forall>name q. name \<notin> usr_name ` set (t_users t) \<longrightarrow>
            fst (Authenticate cmp name q t) = Inl (Sentinel Auth_ErrBadCredentials))
    \<and> fst (CreateUser gen uname pw t) = Inl (Sentinel Auth_ErrUserExists)"
proof -
  from created assms(1) obtain h where h: "gen pw = Inr h" and valid: "validateUsername uname = None"
    and len: "\<not> length pw < 8" and new: "uname \<notin> usr_name ` set (t_users s)"
    by (auto simp: CreateUser_calm Let_def split: option.splits sum.splits if_splits)
  let ?r = "\<lparr>usr_id = next_ids s T_users, usr_name = uname, usr_hash = h, usr_created = clock s,
      usr_display = [], usr_bio = [], usr_location = [], usr_website = []\<rparr>"
  have u: "u = user_of_row ?r" and t: "t_users t = t_users s @ [?r]" and c: "calm t"
    using created assms(1) h valid len new
    by (auto simp: CreateUser_calm Let_def user_of_row_def calm_def)
  have "List.find (\<lambda>r. usr_name r = uname) (t_users s) = None"
    using new by (auto simp: find_None_iff_all image_iff)
  then have find: "find_user_by_name uname t = Some ?r"
    by (simp add: find_user_by_name_def t find_append)
  have other: "find_user_by_name name t = find_user_by_name name s" if "name \<noteq> uname" for name
    using that by (simp add: find_user_by_name_def t find_append split: option.split)
  have none: "find_user_by_name name t = None" if "name \<notin> usr_name ` set (t_users t)" for name
    using that by (auto simp: find_user_by_name_def find_None_iff_all)
  have "uname \<in> usr_name ` set (t_users t)" by (simp add: t)
  then have "fst (CreateUser gen uname pw t) = Inl (Sentinel Auth_ErrUserExists)"
    using c h valid len by (simp add: CreateUser_calm Let_def)
  then show ?thesis
    using find other none c assms(1) u bcrypt [OF h] h by (simp add: Authenticate_calm)
qed

text \<open>
  The life of a session. A token that \<open>StartSession\<close> returned is known to the database by
  its hash only; it resolves to its user at every later time before the two-week expiry and to
  \<open>ErrNoSession\<close> from the expiry on, and to \<open>ErrNoSession\<close> after \<open>EndSession\<close>, which
  leaves every token with another hash as it was.
\<close>

theorem session_lifecycle:
  assumes "calm s" and "auth_wf s"
    and started: "StartSession sha rand uid s = (Inr (token, expires), t)"
    and "0 \<le> d"
  shows "\<exists>u. find_user_by_id uid s = Some u
    \<and> expires = clock s + sessionDuration
    \<and> ses_hash ` set (t_sessions t) = insert (sha256Sum sha token) (ses_hash ` set (t_sessions s))
    \<and> fst (UserForToken sha token (tick d t)) =
        (if clock s + d < expires then Inr (user_of_row u) else Inl (Sentinel Auth_ErrNoSession))
    \<and> fst (UserForToken sha token (snd (EndSession sha token (tick d t)))) =
        Inl (Sentinel Auth_ErrNoSession)
    \<and> (\<forall>other. sha256Sum sha other \<noteq> sha256Sum sha token \<longrightarrow>
        fst (UserForToken sha other (snd (EndSession sha token (tick d t)))) =
        fst (UserForToken sha other (tick d s)))"
proof -
  let ?h = "sha256Sum sha token"
  let ?r = "\<lparr>ses_hash = ?h, ses_user = uid, ses_expires = expires\<rparr>"
  note st = StartSession_calm_Inr [OF assms(1) started]
  then have ex: "expires = clock s + sessionDuration"
    and new: "?h \<notin> ses_hash ` set (t_sessions s)"
    and t: "t = s\<lparr>t_sessions := t_sessions s @ [?r]\<rparr>" by auto
  from st obtain u where u: "u \<in> set (t_users s)" "usr_id u = uid" by auto
  have uid: "find_user_by_id uid s = Some u"
    using u find_user_by_id_unique assms(2) by (auto simp: auth_wf_def)
  have c: "calm (tick d t)" "calm (tick d s)" using assms(1) t by (simp_all add: calm_def tick_def)
  have none: "List.find (\<lambda>r. ses_hash r = ?h \<and> ses_expires r > x) (t_sessions s) = None" for x
    using new by (auto simp: find_None_iff_all image_iff)
  have live: "List.find (\<lambda>r. ses_hash r = ?h \<and> ses_expires r > x) (t_sessions t) =
      (if x < expires then Some ?r else None)" for x
    using none by (simp add: t find_append)
  have 1: "fst (UserForToken sha token (tick d t)) =
      (if clock s + d < expires then Inr (user_of_row u) else Inl (Sentinel Auth_ErrNoSession))"
    using c live uid by (simp add: UserForToken_calm tick_def t find_user_by_id_def)
  have 2: "fst (UserForToken sha token (snd (EndSession sha token (tick d t)))) =
      Inl (Sentinel Auth_ErrNoSession)"
    using c by (simp add: EndSession_calm UserForToken_calm calm_def)
  have 3: "fst (UserForToken sha other (snd (EndSession sha token (tick d t)))) =
      fst (UserForToken sha other (tick d s))" if "sha256Sum sha other \<noteq> ?h" for other
  proof -
    have "List.find (\<lambda>r. ses_hash r = sha256Sum sha other \<and> ses_expires r > clock s + d)
        (delete_rows (\<lambda>r. ses_hash r = ?h) (t_sessions t)) =
      List.find (\<lambda>r. ses_hash r = sha256Sum sha other \<and> ses_expires r > clock s + d) (t_sessions s)"
      using that by (subst find_delete_rows_other) (auto simp: t find_append split: option.split)
    then show ?thesis
      using c
      by (simp add: EndSession_calm UserForToken_calm calm_def tick_def t find_user_by_id_def
          cong: option.case_cong)
  qed
  from uid ex 1 2 3 show ?thesis by (simp add: t)
qed

text \<open>A concrete database with one account, for the witnesses.\<close>

definition demo_gen :: "string \<Rightarrow> goerr + string" where
  "demo_gen p = (if length p \<le> 72 then Inr p else Inl (ErrText ''bcrypt: password length exceeds 72 bytes''))"

definition demo_db :: db where
  "demo_db = snd (CreateUser demo_gen ''alice'' ''castle-secret-1'' empty_db)"

lemma demo_gen_contract: "demo_gen p = Inr h \<Longrightarrow> h = p"
  by (auto simp: demo_gen_def split: if_splits)

lemma calm_empty_db [simp]: "calm empty_db"
  by (simp add: calm_def empty_db_def)

lemma auth_wf_empty_db: "auth_wf empty_db"
  by (simp add: auth_wf_defs empty_db_def)

lemma demo_db_created:
  "CreateUser demo_gen ''alice'' ''castle-secret-1'' empty_db =
   (Inr \<lparr>user_id = 1, user_name = ''alice'', user_created = 0\<rparr>, demo_db)"
  by (simp add: demo_db_def CreateUser_calm validateUsername_def username_char_def demo_gen_def
      empty_db_def calm_def Let_def less_eq_char_def)

lemma demo_db_wf: "calm demo_db \<and> auth_wf demo_db"
proof -
  have "auth_wf (snd (CreateUser demo_gen ''alice'' ''castle-secret-1'' empty_db))"
    using stepsD [OF CreateUser_auth_wf, of empty_db demo_gen] auth_wf_empty_db
    by (simp add: keeps_def)
  moreover have "calm demo_db"
    by (simp add: demo_db_def CreateUser_calm validateUsername_def username_char_def demo_gen_def
        empty_db_def calm_def Let_def less_eq_char_def)
  ultimately show ?thesis by (simp add: demo_db_def)
qed

theorem register_then_login_witness:
  "fst (Authenticate (=) ''alice'' ''castle-secret-1'' demo_db) =
     Inr \<lparr>user_id = 1, user_name = ''alice'', user_created = 0\<rparr>
   \<and> fst (Authenticate (=) ''alice'' ''guess'' demo_db) = Inl (Sentinel Auth_ErrBadCredentials)"
  using register_then_login [where cmp = "(=)", OF calm_empty_db auth_wf_empty_db demo_gen_contract demo_db_created]
  by (auto dest: demo_gen_contract)

theorem session_lifecycle_witness:
  "\<exists>token expires (t :: db).
     StartSession (\<lambda>x. x) (Inr (replicate 32 CHR ''k'')) 1 demo_db = (Inr (token, expires), t)
     \<and> fst (UserForToken (\<lambda>x. x) token (tick 5 t)) =
     Inr \<lparr>user_id = 1, user_name = ''alice'', user_created = 0\<rparr>"
proof -
  obtain token expires t where
    started: "StartSession (\<lambda>x. x) (Inr (replicate 32 CHR ''k'')) 1 demo_db = (Inr (token, expires), t)"
    by (simp add: StartSession_def newSessionToken_def Let_def and_then_apply on_result_apply
        stmt_insert_session_def demo_db_wf demo_db_def CreateUser_calm validateUsername_def
        username_char_def demo_gen_def empty_db_def calm_def less_eq_char_def pool_def)
  have find: "find_user_by_id 1 demo_db = Some u \<Longrightarrow>
      user_of_row u = \<lparr>user_id = 1, user_name = ''alice'', user_created = 0\<rparr>" for u
    by (auto simp: demo_db_def CreateUser_calm validateUsername_def username_char_def demo_gen_def
        empty_db_def calm_def less_eq_char_def Let_def find_user_by_id_def user_of_row_def)
  have "clock demo_db = 0"
    by (simp add: demo_db_def CreateUser_calm validateUsername_def username_char_def demo_gen_def
        empty_db_def calm_def Let_def less_eq_char_def)
  then show ?thesis
    using session_lifecycle [OF _ _ started, of 5] demo_db_wf find started
    by (auto simp: sessionDuration_def)
qed

text \<open>
  C11: Any sequence of grants and revocations leaves each user with the role of the last one
  that names the user and the repository (no role after a revocation, the former role where
  none does): the grants table refines a finite map from repository and user to role.
\<close>

theorem grants_last_write_wins:
  assumes "calm s" and "ops_ok (grant_key_ok s) valid_role ops" and "repo_exists s rid"
  shows "grant_get (rid, uname) (run_ops grant_put grant_del ops s) =
    (case last_write (rid, uname) ops of None \<Rightarrow> grant_get (rid, uname) s | Some r \<Rightarrow> r)"
  by (rule grants.run_ops_last_write) (use assms in \<open>auto simp: grant_key_ok_def\<close>)

definition demo_repo_db :: db where
  "demo_repo_db = empty_db\<lparr>t_repositories :=
     [\<lparr>repo_id = 1, repo_owner = ''alice'', repo_name = ''castle'',
       repo_path = ''/r/alice/castle.git'', repo_created = 0\<rparr>]\<rparr>"

lemma demo_repo_db_ready: "calm demo_repo_db \<and> repo_exists demo_repo_db 1"
  by (simp add: demo_repo_db_def calm_def empty_db_def repo_exists_def)

theorem grants_last_write_wins_witness:
  "grant_get (1, ''bob'') (run_ops grant_put grant_del
     [Put_op (1, ''bob'') RoleWrite, Del_op (1, ''eve''), Put_op (1, ''bob'') RoleRead] demo_repo_db)
   = Some RoleRead"
  using grants_last_write_wins [of demo_repo_db
      "[Put_op (1, ''bob'') RoleWrite, Del_op (1, ''eve''), Put_op (1, ''bob'') RoleRead]" 1 "''bob''"]
    demo_repo_db_ready
  by (simp add: grant_key_ok_def valid_role_def)

end
