(* ===== verification/Files.thy ===== *)
theory Files
  imports Schema "HOL-Library.AList"
begin

text \<open>
  The part of package \<open>os\<close> on a Unix file system that the program uses. A path is the list of
  its cleaned components (a rooted path starts with an empty component); the state holds the
  regular files with their contents and modification times and the directories. Each call can
  also fail with an injected error, as the database calls can: \<open>io_faults\<close> is consumed one
  entry per call, and an injected failure has no effect.
\<close>

type_synonym path = "string list"

record fs_file =
  file_data :: string
  file_mtime :: time

record host = db +
  fs_files :: "(path \<times> fs_file) list"
  fs_dirs :: "path list"
  io_faults :: "string option list"

definition fs_path :: "string \<Rightarrow> path" where
  "fs_path s = (if is_rooted s then [[]] else []) @ clean_components (is_rooted s) s"

definition io_calm :: "'z host_scheme \<Rightarrow> bool" where
  "io_calm s \<longleftrightarrow> io_faults s = []"

definition syscall :: "('z host_scheme, goerr + 'a) st \<Rightarrow> ('z host_scheme, goerr + 'a) st" where
  "syscall act s =
     (case io_faults s of
        [] \<Rightarrow> act s
      | Some m # fs \<Rightarrow> (Inl (PathError EIO m), s\<lparr>io_faults := fs\<rparr>)
      | None # fs \<Rightarrow> act (s\<lparr>io_faults := fs\<rparr>))"

lemma syscall_calm [simp]: "io_calm s \<Longrightarrow> syscall act s = act s"
  by (simp add: io_calm_def syscall_def)

lemma steps_syscall:
  assumes "steps R act" and "\<And>s fs. R s (s\<lparr>io_faults := fs\<rparr>)"
    and "\<And>s t u. R s t \<Longrightarrow> R t u \<Longrightarrow> R s u"
  shows "steps R (syscall act)"
proof (rule stepsI)
  fix s
  have st: "R t (snd (act t))" for t using assms(1) by (rule stepsD)
  have "R s (snd (act (s\<lparr>io_faults := fs\<rparr>)))" for fs
    using assms(2,3) st by blast
  then show "R s (snd (syscall act s))"
    using assms(2) st by (auto simp: syscall_def split: list.split option.split)
qed

lemma steps_syscall_same:
  assumes "steps (same f) act" and "\<And>s fs. f (s\<lparr>io_faults := fs\<rparr>) = f s"
  shows "steps (same f) (syscall act)"
  by (rule steps_syscall [OF assms(1)]) (simp_all add: same_def assms(2))

definition file_at :: "'z host_scheme \<Rightarrow> path \<Rightarrow> fs_file option" where
  "file_at s p = map_of (fs_files s) p"

definition is_dir :: "'z host_scheme \<Rightarrow> path \<Rightarrow> bool" where
  "is_dir s p \<longleftrightarrow> p = [] \<or> p = [[]] \<or> p \<in> set (fs_dirs s)"

text \<open>A proper prefix of the path is a regular file: the lookup fails with \<open>ENOTDIR\<close>.\<close>

definition through_file :: "'z host_scheme \<Rightarrow> path \<Rightarrow> bool" where
  "through_file s p \<longleftrightarrow> list_ex (\<lambda>q. file_at s q \<noteq> None) (butlast (prefixes p))"

definition path_text :: "path \<Rightarrow> string" where
  "path_text p = join_str [slash] p"

definition os_mkdir_all :: "path \<Rightarrow> ('z host_scheme, goerr + unit) st" where
  "os_mkdir_all p = syscall (\<lambda>s.
     if list_ex (\<lambda>q. file_at s q \<noteq> None) (prefixes p)
     then (Inl (PathError ENOTDIR (path_text p)), s)
     else (Inr (), s\<lparr>fs_dirs := fs_dirs s @ filter (\<lambda>q. \<not> is_dir s q) (prefixes p)\<rparr>))"

text \<open>\<open>os.WriteFile\<close>: create or truncate.\<close>

definition os_write_file :: "path \<Rightarrow> string \<Rightarrow> ('z host_scheme, goerr + unit) st" where
  "os_write_file p data = syscall (\<lambda>s.
     if through_file s p then (Inl (PathError ENOTDIR (path_text p)), s)
     else if is_dir s p then (Inl (PathError EISDIR (path_text p)), s)
     else if \<not> is_dir s (butlast p) then (Inl (PathError ENOENT (path_text p)), s)
     else (Inr (), s\<lparr>fs_files :=
             AList.update p \<lparr>file_data = data, file_mtime = clock s\<rparr> (fs_files s)\<rparr>))"

text \<open>\<open>os.Rename\<close> of a regular file.\<close>

definition os_rename :: "path \<Rightarrow> path \<Rightarrow> ('z host_scheme, goerr + unit) st" where
  "os_rename p q = syscall (\<lambda>s.
     case file_at s p of
       None \<Rightarrow> (Inl (PathError ENOENT (path_text p)), s)
     | Some f \<Rightarrow>
         if through_file s q then (Inl (PathError ENOTDIR (path_text q)), s)
         else if is_dir s q then (Inl (PathError EISDIR (path_text q)), s)
         else if \<not> is_dir s (butlast q) then (Inl (PathError ENOENT (path_text q)), s)
         else (Inr (), s\<lparr>fs_files := AList.update q f (AList.delete p (fs_files s))\<rparr>))"

definition os_read_file :: "path \<Rightarrow> ('z host_scheme, goerr + string) st" where
  "os_read_file p = syscall (\<lambda>s.
     (case file_at s p of
        Some f \<Rightarrow> Inr (file_data f)
      | None \<Rightarrow>
          if through_file s p then Inl (PathError ENOTDIR (path_text p))
          else if is_dir s p then Inl (PathError EISDIR (path_text p))
          else Inl (PathError ENOENT (path_text p)), s))"

text \<open>\<open>os.Stat\<close>: whether the path exists.\<close>

definition os_stat :: "path \<Rightarrow> ('z host_scheme, goerr + unit) st" where
  "os_stat p = syscall (\<lambda>s.
     (if file_at s p \<noteq> None \<or> is_dir s p then Inr ()
      else if through_file s p then Inl (PathError ENOTDIR (path_text p))
      else Inl (PathError ENOENT (path_text p)), s))"

text \<open>\<open>os.Remove\<close>: a file, or an empty directory.\<close>

definition os_remove :: "path \<Rightarrow> ('z host_scheme, goerr + unit) st" where
  "os_remove p = syscall (\<lambda>s.
     if file_at s p \<noteq> None then (Inr (), s\<lparr>fs_files := AList.delete p (fs_files s)\<rparr>)
     else if through_file s p then (Inl (PathError ENOTDIR (path_text p)), s)
     else if is_dir s p then
       (if list_ex (\<lambda>q. strict_prefix p q) (map fst (fs_files s) @ fs_dirs s)
        then (Inl (PathError ENOTEMPTY (path_text p)), s)
        else (Inr (), s\<lparr>fs_dirs := filter (\<lambda>q. q \<noteq> p) (fs_dirs s)\<rparr>))
     else (Inl (PathError ENOENT (path_text p)), s))"

text \<open>\<open>os.RemoveAll\<close>: the path and everything below it; no error when it is missing.\<close>

definition os_remove_all :: "path \<Rightarrow> ('z host_scheme, goerr + unit) st" where
  "os_remove_all p = syscall (\<lambda>s.
     (Inr (), s\<lparr>fs_files := filter (\<lambda>(q, _). \<not> prefix p q) (fs_files s),
               fs_dirs := filter (\<lambda>q. \<not> prefix p q) (fs_dirs s)\<rparr>))"

text \<open>
  \<open>filepath.WalkDir\<close> restricted to the regular files it visits: the file itself, or all files
  below a directory, each directory's entries in lexical order, which is the lexicographic
  order of the component lists.
\<close>

definition os_walk :: "path \<Rightarrow> ('z host_scheme, goerr + (path \<times> fs_file) list) st" where
  "os_walk p = syscall (\<lambda>s.
     (case file_at s p of
        Some f \<Rightarrow> Inr [(p, f)]
      | None \<Rightarrow>
          if through_file s p then Inl (PathError ENOTDIR (path_text p))
          else if is_dir s p
          then Inr (sort_key fst (filter (\<lambda>(q, _). strict_prefix p q) (fs_files s)))
          else Inl (PathError ENOENT (path_text p)), s))"

definition empty_host :: host where
  "empty_host = db.extend empty_db \<lparr>fs_files = [], fs_dirs = [], io_faults = []\<rparr>"

lemma io_calm_simps [simp]:
  "io_calm (s\<lparr>fs_files := a\<rparr>) = io_calm s"
  "io_calm (s\<lparr>fs_dirs := b\<rparr>) = io_calm s"
  by (simp_all add: io_calm_def)

lemma file_at_update:
  "file_at (s\<lparr>fs_files := AList.update p f (fs_files s)\<rparr>) q =
     (if q = p then Some f else file_at s q)"
  by (simp add: file_at_def update_conv')

lemma file_at_dirs [simp]: "file_at (s\<lparr>fs_dirs := ds\<rparr>) p = file_at s p"
  by (simp add: file_at_def)

lemma file_at_replace:
  "file_at (s\<lparr>fs_files := AList.update q f (AList.delete p xs)\<rparr>) r =
     (if r = q then Some f else if r = p then None else map_of xs r)"
  by (simp add: file_at_def update_conv' delete_conv')

lemma file_at_delete:
  "file_at (s\<lparr>fs_files := AList.delete p (fs_files s)\<rparr>) q = (if q = p then None else file_at s q)"
  by (simp add: file_at_def delete_conv')

lemma is_dir_files [simp]: "is_dir (s\<lparr>fs_files := fs\<rparr>) p = is_dir s p"
  by (simp add: is_dir_def)

lemma is_dir_mkdir:
  "is_dir (s\<lparr>fs_dirs := fs_dirs s @ filter (\<lambda>q. \<not> is_dir s q) ps\<rparr>) p \<longleftrightarrow> is_dir s p \<or> p \<in> set ps"
  by (auto simp: is_dir_def)

lemma through_file_iff: "through_file s p \<longleftrightarrow> (\<exists>q. strict_prefix q p \<and> file_at s q \<noteq> None)"
proof -
  have "set (butlast (prefixes p)) = {q. strict_prefix q p}"
  proof -
    have d: "distinct (prefixes p)" and l: "last (prefixes p) = p" by (auto intro: distinct_prefixes)
    obtain ps where ps: "prefixes p = ps @ [p]"
      using l by (metis append_butlast_last_id prefixes_not_Nil)
    then have "p \<notin> set ps" using d by simp
    then have "set (butlast (prefixes p)) = set (prefixes p) - {p}"
      by (simp only: ps butlast_snoc set_append) auto
    then show ?thesis by (simp add: strict_prefix_def set_eq_iff)
  qed
  then show ?thesis by (auto simp: through_file_def list_ex_iff)
qed

end
