(* ===== verification/Exec.thy ===== *)
theory Exec
  imports Files
begin

text \<open>
  Running another program (package \<open>os/exec\<close>). What the program does is not part of this
  repository, so whoever runs one takes the runner as a parameter: a function from the command
  to its outcome that may change the world.
\<close>

record command =
  cmd_args :: "string list"  \<comment> \<open>program and arguments\<close>
  cmd_dir :: string  \<comment> \<open>empty: the server's own directory\<close>
  cmd_env :: "string list option"  \<comment> \<open>None: the server's environment\<close>
  cmd_stdin :: string

text \<open>\<open>out_err\<close> is the error of \<open>Run\<close>; \<open>out_exit\<close> the exit code when the error is an
  \<open>ExitError\<close>.\<close>

record outcome =
  out_err :: "goerr option"
  out_exit :: "int option"
  out_stdout :: string
  out_stderr :: string
  out_combined :: string

type_synonym 'w runner = "command \<Rightarrow> ('w, outcome) st"

definition plain_command :: "string list \<Rightarrow> command" where
  "plain_command args = \<lparr>cmd_args = args, cmd_dir = [], cmd_env = None, cmd_stdin = []\<rparr>"

text \<open>
  \<open>cmd.CombinedOutput()\<close> with the error wrapped as the callers do it:
  \<open>fmt.Errorf("what: %w: %s", err, output)\<close>.
\<close>

definition run_combined :: "'w runner \<Rightarrow> string \<Rightarrow> command \<Rightarrow> ('w, goerr + string) st" where
  "run_combined run what cmd =
     and_then (run cmd) (\<lambda>out.
       case out_err out of
         Some err \<Rightarrow> fail (Wrap (what @ '': '') err ('': '' @ out_combined out))
       | None \<Rightarrow> ok (out_combined out))"

text \<open>\<open>cmd.Output()\<close>: the standard output, or the error.\<close>

definition run_output :: "'w runner \<Rightarrow> command \<Rightarrow> ('w, goerr + string) st" where
  "run_output run cmd =
     and_then (run cmd) (\<lambda>out.
       case out_err out of Some err \<Rightarrow> fail err | None \<Rightarrow> ok (out_stdout out))"

end
