(* ===== verification/Storage.thy ===== *)
theory Storage
  imports Files Keyed_Store "HOL-Library.Multiset"
begin

text \<open>
  Package \<open>internal/storage\<close>: the blob store on the local file system that holds repository
  backups. The state is the file system of theory Files; \<open>root\<close> is \<open>LocalStore.Root\<close>. Shown:
  no key leaves the root, the reference meaning of the sorting loop of \<open>List\<close>, and that the
  store behaves as a finite map on the keys the program uses.
\<close>

section \<open>The local store (storage.go)\<close>

record stored_object =
  obj_key :: string
  obj_size :: int
  obj_modified :: time

definition store_path :: "string \<Rightarrow> string \<Rightarrow> goerr + string" where
  "store_path root key =
     (if contains_str key [CHR 0x00] then Inl (ErrText ''invalid object key'')
      else
        let clean = path_clean (slash # key) in
        if contains_str clean ''..''
        then Inl (ErrText (''object key escapes storage root: '' @ go_quote key))
        else Inr (path_join [root, clean]))"

definition Local_Put :: "string \<Rightarrow> string \<Rightarrow> string \<Rightarrow> ('z host_scheme, goerr + unit) st" where
  "Local_Put root key data =
     (case store_path root key of
        Inl err \<Rightarrow> fail err
      | Inr path \<Rightarrow>
          on_result (os_mkdir_all (fs_path (path_dir path)))
            (\<lambda>err. fail (wrap_err ''create object dir'' err))
            (\<lambda>_. let tmp = path @ ''.tmp'' in
              on_result (os_write_file (fs_path tmp) data)
                (\<lambda>err. fail (wrap_err ''write object'' err))
                (\<lambda>_. on_result (os_rename (fs_path tmp) (fs_path path))
                  (\<lambda>err. fail (wrap_err ''commit object'' err))
                  (\<lambda>_. ok ()))))"

definition Local_Get :: "string \<Rightarrow> string \<Rightarrow> ('z host_scheme, goerr + string) st" where
  "Local_Get root key =
     (case store_path root key of
        Inl err \<Rightarrow> fail err
      | Inr path \<Rightarrow>
          on_result (os_read_file (fs_path path))
            (\<lambda>err. if os_is_not_exist err then fail (Sentinel Storage_ErrNotFound)
                   else fail (wrap_err ''read object'' err))
            (\<lambda>data. ok data))"

text \<open>
  The sorting loops of \<open>List\<close>: \<open>sink j\<close> is the inner loop from index \<open>j\<close> downwards,
  \<open>sort_from i\<close> the outer one from index \<open>i\<close> upwards.
\<close>

fun sink :: "nat \<Rightarrow> stored_object list \<Rightarrow> stored_object list" where
  "sink 0 objects = objects"
| "sink (Suc j) objects =
     (if obj_modified (objects ! Suc j) > obj_modified (objects ! j)
      then sink j (objects[Suc j := objects ! j, j := objects ! Suc j])
      else objects)"

lemma length_sink [simp]: "length (sink j objects) = length objects"
  by (induction j objects rule: sink.induct) auto

function sort_from :: "nat \<Rightarrow> stored_object list \<Rightarrow> stored_object list" where
  "sort_from i objects =
     (if i < length objects then sort_from (Suc i) (sink i objects) else objects)"
  by pat_completeness auto
termination
  by (relation "measure (\<lambda>(i, objects). length objects - i)") auto

declare sort_from.simps [simp del]

definition sort_newest :: "stored_object list \<Rightarrow> stored_object list" where
  "sort_newest objects = sort_from 1 objects"

text \<open>\<open>filepath.Rel\<close> of a visited path to the root.\<close>

definition rel_path :: "path \<Rightarrow> path \<Rightarrow> string" where
  "rel_path root p = (if p = root then ''.'' else join_str [slash] (drop (length root) p))"

text \<open>
  \<open>ctx_err\<close> is \<open>ctx.Err()\<close>: the walk stops with it at the first file once the context is done.
  The walk's callback turns a missing directory into \<open>io.EOF\<close>, which ends in an empty list.
\<close>

definition Local_List ::
  "string \<Rightarrow> goerr option \<Rightarrow> string \<Rightarrow> ('z host_scheme, goerr + stored_object list) st" where
  "Local_List root ctx_err pfx =
     (case store_path root pfx of
        Inl err \<Rightarrow> fail err
      | Inr base \<Rightarrow>
          on_result (os_walk (fs_path base))
            (\<lambda>err. if os_is_not_exist err then ok [] else fail (wrap_err ''list objects'' err))
            (\<lambda>files.
              (case (files, ctx_err) of
                 (_ # _, Some e) \<Rightarrow> fail (wrap_err ''list objects'' e)
               | _ \<Rightarrow>
                 ok (sort_newest
                   (map (\<lambda>(p, f). \<lparr>obj_key = rel_path (fs_path root) p,
                                   obj_size = int (length (file_data f)),
                                   obj_modified = file_mtime f\<rparr>) files)))))"

definition Local_Delete :: "string \<Rightarrow> string \<Rightarrow> ('z host_scheme, goerr + unit) st" where
  "Local_Delete root key =
     (case store_path root key of
        Inl err \<Rightarrow> fail err
      | Inr path \<Rightarrow>
          on_result (os_remove (fs_path path))
            (\<lambda>err. if os_is_not_exist err then fail (Sentinel Storage_ErrNotFound)
                   else fail (wrap_err ''delete object'' err))
            (\<lambda>_. ok ()))"

section \<open>Paths stay below the root\<close>

lemma sublist_across_sep:
  assumes "sep \<notin> set xs"
  shows "sublist xs (ys @ sep # zs) \<longleftrightarrow> sublist xs ys \<or> sublist xs zs"
proof
  assume "sublist xs (ys @ sep # zs)"
  then obtain as bs where e: "ys @ sep # zs = as @ xs @ bs" by (auto simp: sublist_def)
  then consider (left) us where "as @ xs = ys @ us" "sep # zs = us @ bs"
    | (right) us where "ys = (as @ xs) @ us" "us @ sep # zs = bs"
    by (metis append_assoc append_eq_append_conv2)
  then show "sublist xs ys \<or> sublist xs zs"
  proof cases
    case right
    then show ?thesis by (auto simp: sublist_def)
  next
    case left
    show ?thesis
    proof (cases us)
      case Nil
      with left(1) have "ys = as @ xs @ []" by simp
      then show ?thesis unfolding sublist_def by blast
    next
      case (Cons u us')
      with left(2) have u: "u = sep" and zs: "zs = us' @ bs" by auto
      from left(1) Cons u have "as @ xs = ys @ sep # us'" by simp
      then consider vs where "as = ys @ sep # vs" "us' = vs @ xs"
        | "sep \<in> set xs"
        by (auto simp: append_eq_append_conv2 append_eq_Cons_conv)
      then show ?thesis using assms zs by cases (auto simp: sublist_def)
    qed
  qed
next
  assume "sublist xs ys \<or> sublist xs zs"
  then show "sublist xs (ys @ sep # zs)"
  proof
    assume "sublist xs ys"
    then obtain as bs where "ys = as @ xs @ bs" by (auto simp: sublist_def)
    then have "ys @ sep # zs = as @ xs @ (bs @ sep # zs)" by simp
    then show ?thesis unfolding sublist_def by blast
  next
    assume "sublist xs zs"
    then obtain as bs where "zs = as @ xs @ bs" by (auto simp: sublist_def)
    then have "ys @ sep # zs = (ys @ sep # as) @ xs @ bs" by simp
    then show ?thesis unfolding sublist_def by blast
  qed
qed

lemma contains_join:
  assumes "sep \<notin> set xs" and "xs \<noteq> []"
  shows "contains_str (join_str [sep] cs) xs \<longleftrightarrow> (\<exists>c\<in>set cs. contains_str c xs)"
  using assms
  by (induction "[sep]" cs rule: join_str.induct)
    (auto simp: contains_str_def sublist_across_sep)

lemma contains_dots_clean:
  "contains_str (path_clean (slash # key)) ''..'' \<longleftrightarrow>
     (\<exists>c\<in>set (clean_components True (slash # key)). contains_str c ''..'')"
proof -
  have ns: "slash \<notin> set ''..''" by (simp add: slash_def)
  then have "contains_str (slash # join_str [slash] cs) ''..'' \<longleftrightarrow>
      contains_str (join_str [slash] cs) ''..''" for cs
    using sublist_across_sep [of slash "''..''" "[]" "join_str [slash] cs"]
    by (simp add: contains_str_def)
  moreover have "path_clean (slash # key) =
      slash # join_str [slash] (clean_components True (slash # key))"
    by (simp add: path_clean_unclean is_rooted_def has_prefix_def unclean_def)
  ultimately show ?thesis using contains_join [OF ns] by simp
qed

lemma fs_path_unclean:
  "clean_list rooted cs \<Longrightarrow> fs_path (unclean rooted cs) = (if rooted then [[]] else []) @ cs"
  by (simp add: fs_path_def is_rooted_unclean clean_components_unclean)

text \<open>The component lists of the paths \<open>Put\<close> handles, for a key with components \<open>cs\<close>.\<close>

lemma store_path_Inr:
  assumes "store_path root key = Inr p" and "root \<noteq> []"
  defines "cs \<equiv> clean_components True (slash # key)"
  shows "p = unclean (is_rooted root) (clean_components (is_rooted root) root @ cs)"
    and "fs_path p = fs_path root @ cs"
    and "\<forall>c\<in>set cs. plain_component c \<and> \<not> contains_str c ''..''"
proof -
  have plain: "\<forall>c\<in>set cs. plain_component c" by (simp add: cs_def clean_components_plain)
  have clean: "path_clean (slash # key) = unclean True cs"
    by (simp add: path_clean_unclean cs_def is_rooted_def has_prefix_def)
  from assms(1) show p: "p = unclean (is_rooted root) (clean_components (is_rooted root) root @ cs)"
    using path_join_unclean [OF assms(2) plain]
    by (auto simp: store_path_def Let_def clean split: if_splits)
  show "fs_path p = fs_path root @ cs"
    unfolding p by (subst fs_path_unclean)
      (auto intro: clean_list_append clean_list_components plain [rule_format] simp: fs_path_def)
  from assms(1) have "\<not> contains_str (path_clean (slash # key)) ''..''"
    by (auto simp: store_path_def Let_def split: if_splits)
  with plain show "\<forall>c\<in>set cs. plain_component c \<and> \<not> contains_str c ''..''"
    by (simp add: contains_dots_clean cs_def)
qed

lemma store_path_rejects:
  "(\<exists>e. store_path root key = Inl e) \<longleftrightarrow> CHR 0x00 \<in> set key \<or>
    (\<exists>c\<in>set (clean_components True (slash # key)). contains_str c ''..'')"
proof -
  have "contains_str key [CHR 0x00] \<longleftrightarrow> CHR 0x00 \<in> set key"
    by (auto simp: contains_str_def sublist_def in_set_conv_decomp)
  then show ?thesis by (simp add: store_path_def Let_def contains_dots_clean)
qed

lemma store_path_accepts:
  assumes "root \<noteq> []" and "CHR 0x00 \<notin> set key"
    and "\<forall>c\<in>set (clean_components True (slash # key)). \<not> contains_str c ''..''"
  shows "store_path root key = Inr (unclean (is_rooted root)
    (clean_components (is_rooted root) root @ clean_components True (slash # key)))"
proof -
  have "\<not> (\<exists>e. store_path root key = Inl e)" unfolding store_path_rejects using assms(2,3) by blast
  then obtain p where p: "store_path root key = Inr p" by (cases "store_path root key") auto
  with store_path_Inr(1) [OF p assms(1)] show ?thesis by simp
qed

text \<open>
  C15: Confinement. For every key whatever, traversal segments included, \<open>path\<close> either rejects
  the key or yields a path strictly composed of the root's components followed by plain ones
  (never a dot or dot-dot segment, no separator, no NUL is let through); and it rejects exactly
  the keys that hold a NUL byte or that still have two consecutive dots inside a segment after
  cleaning, so a key that climbs with whole \<open>..\<close> segments is accepted and stays below the root.
\<close>

theorem store_path_confined:
  assumes "root \<noteq> []"
  shows "(\<forall>p. store_path root key = Inr p \<longrightarrow>
      (\<exists>cs. fs_path p = fs_path root @ cs \<and> (\<forall>c\<in>set cs. plain_component c))) \<and>
    ((\<exists>e. store_path root key = Inl e) \<longleftrightarrow>
      CHR 0x00 \<in> set key \<or>
      (\<exists>c\<in>set (clean_components True (slash # key)). contains_str c ''..''))"
proof (intro conjI allI impI)
  fix p assume "store_path root key = Inr p"
  from store_path_Inr [OF this assms]
  show "\<exists>cs. fs_path p = fs_path root @ cs \<and> (\<forall>c\<in>set cs. plain_component c)" by blast
qed (rule store_path_rejects)

theorem store_path_confined_witness:
  "''/srv/.backups'' \<noteq> []
   \<and> store_path ''/srv/.backups'' ''../../etc/passwd'' = Inr ''/srv/.backups/etc/passwd''
   \<and> (\<exists>e. store_path ''/srv/.backups'' ''backups/o/a..b/x'' = Inl e)"
proof -
  have d: "contains_str ''a..b'' ''..''" by (simp add: contains_str_def sublist_code)
  have "clean_components True (slash # ''backups/o/a..b/x'') = [''backups'', ''o'', ''a..b'', ''x'']"
    by (simp add: clean_components_def slash_def clean_step.simps)
  then have "\<exists>e. store_path ''/srv/.backups'' ''backups/o/a..b/x'' = Inl e"
    using store_path_confined [of "''/srv/.backups''" "''backups/o/a..b/x''"] d by auto
  moreover have "store_path ''/srv/.backups'' ''../../etc/passwd'' = Inr ''/srv/.backups/etc/passwd''"
    by (simp add: store_path_def Let_def path_clean_def path_join_def clean_components_def slash_def
        clean_step.simps contains_str_def sublist_code is_rooted_def has_prefix_def)
  ultimately show ?thesis by simp
qed

section \<open>The listing is sorted, newest first\<close>

lemma sink_insort:
  "sink (length ys) (rev ys @ x # zs) = rev (insort_key obj_modified x ys) @ zs"
proof (induction ys arbitrary: zs)
  case Nil
  then show ?case by simp
next
  case (Cons y ys)
  let ?os = "rev ys @ [y, x] @ zs"
  have y: "?os ! length ys = y" and x: "?os ! Suc (length ys) = x"
    by (simp_all add: nth_append)
  have swap: "?os[Suc (length ys) := y, length ys := x] = rev ys @ x # y # zs"
    by (simp add: list_update_append)
  show ?case
    using Cons.IH [of "y # zs"] y x swap by auto
qed

lemma sort_from_fold:
  "sort_from (length ys) (rev ys @ zs) = rev (fold (insort_key obj_modified) zs ys)"
proof (induction zs arbitrary: ys)
  case Nil
  then show ?case by (simp add: sort_from.simps)
next
  case (Cons x zs)
  have "sort_from (length ys) (rev ys @ x # zs) =
      sort_from (Suc (length ys)) (rev (insort_key obj_modified x ys) @ zs)"
    by (subst sort_from.simps) (simp add: sink_insort)
  then show ?case using Cons.IH [of "insort_key obj_modified x ys"] by simp
qed

lemma sort_newest_rev: "sort_newest objects = rev (sort_key obj_modified (rev objects))"
proof (cases objects)
  case Nil
  then show ?thesis by (simp add: sort_newest_def sort_from.simps)
next
  case (Cons x xs)
  have "sort_newest objects = rev (fold (insort_key obj_modified) xs [x])"
    using sort_from_fold [of "[x]" xs] Cons by (simp add: sort_newest_def)
  also have "\<dots> = rev (foldr (insort_key obj_modified) (rev objects) [])"
    using Cons by (simp add: foldr_conv_fold)
  finally show ?thesis by (simp add: sort_key_def)
qed

text \<open>
  The two nested loops with adjacent swaps at the end of \<open>List\<close> compute the stable sort by
  descending modification time: the result is a permutation of the walked objects, newest
  first, and objects of equal time keep the walk's order.
\<close>

theorem sort_newest_stable_descending:
  "sort_newest objects = sort_key (\<lambda>x. - obj_modified x) objects
   \<and> mset (sort_newest objects) = mset objects
   \<and> sorted_wrt (\<lambda>x y. obj_modified x \<ge> obj_modified y) (sort_newest objects)"
proof -
  have desc: "sorted_wrt (\<lambda>x y. obj_modified x \<ge> obj_modified y) (sort_newest objects)"
    using sorted_sort_key [of obj_modified "rev objects"]
    by (simp add: sort_newest_rev sorted_wrt_rev sorted_map)
  then have "sorted (map (\<lambda>x. - obj_modified x) (sort_newest objects))"
    by (simp add: sorted_map)
  moreover have perm: "mset (sort_newest objects) = mset objects"
    by (simp add: sort_newest_rev)
  moreover have "filter (\<lambda>x. - obj_modified o' = - obj_modified x) (sort_newest objects) =
      filter (\<lambda>x. - obj_modified o' = - obj_modified x) objects" for o'
    using sort_key_stable [of "obj_modified" "obj_modified o'" "rev objects"]
    by (simp add: sort_newest_rev rev_filter [symmetric] eq_commute [of "obj_modified o'"])
  ultimately have "sort_key (\<lambda>x. - obj_modified x) objects = sort_newest objects"
    by (intro properties_for_sort_key) auto
  with desc perm show ?thesis by simp
qed

section \<open>The store is a finite map on the keys of backups\<close>

text \<open>
  The keys the program stores objects under have four segments
  (\<open>backups/owner/name/file\<close>); a segment holds no consecutive dots and no NUL, and the key
  does not end in the \<open>.tmp\<close> that \<open>Put\<close> appends for its scratch file.
\<close>

definition object_component :: "string \<Rightarrow> bool" where
  "object_component c \<longleftrightarrow> plain_component c \<and> \<not> contains_str c ''..'' \<and> CHR 0x00 \<notin> set c"

definition object_key :: "string \<Rightarrow> bool" where
  "object_key k \<longleftrightarrow>
     (let cs = split_char slash k in
      length cs = 4 \<and> list_all object_component cs \<and> \<not> has_suffix k ''.tmp'')"

text \<open>
  The file system below the root: files only at depth four, directories only above them, and
  no regular file in the way of the root.
\<close>

definition store_ready :: "string \<Rightarrow> 'z host_scheme \<Rightarrow> bool" where
  "store_ready root s \<longleftrightarrow>
     root \<noteq> [] \<and> io_calm s \<and>
     (\<forall>q. file_at s q \<noteq> None \<longrightarrow> \<not> prefix q (fs_path root)) \<and>
     (\<forall>q. file_at s (fs_path root @ q) \<noteq> None \<longrightarrow> length q = 4) \<and>
     (\<forall>q. fs_path root @ q \<in> set (fs_dirs s) \<longrightarrow> length q < 4)"

definition object_put :: "string \<Rightarrow> string \<Rightarrow> string \<Rightarrow> 'z host_scheme \<Rightarrow> 'z host_scheme" where
  "object_put root k v s = snd (Local_Put root k v s)"

definition object_del :: "string \<Rightarrow> string \<Rightarrow> 'z host_scheme \<Rightarrow> 'z host_scheme" where
  "object_del root k s = snd (Local_Delete root k s)"

definition object_get :: "string \<Rightarrow> string \<Rightarrow> 'z host_scheme \<Rightarrow> string option" where
  "object_get root k s = (case fst (Local_Get root k s) of Inl _ \<Rightarrow> None | Inr v \<Rightarrow> Some v)"

text \<open>The file a key names, and the scratch file \<open>Put\<close> writes first.\<close>

definition key_path :: "string \<Rightarrow> string \<Rightarrow> path" where
  "key_path root k = fs_path root @ split_char slash k"

definition tmp_path :: "string \<Rightarrow> string \<Rightarrow> path" where
  "tmp_path root k = key_path root (k @ ''.tmp'')"

lemma object_key_split:
  assumes "object_key k"
  obtains a c where "split_char slash k = a @ [c]" and "length a = 3"
    and "\<forall>d\<in>set (a @ [c]). plain_component d" and "split_char slash (k @ ''.tmp'') = a @ [c @ ''.tmp'']"
    and "clean_components True (slash # k) = a @ [c]"
proof -
  let ?cs = "split_char slash k"
  have cs: "length ?cs = 4" "\<forall>d\<in>set ?cs. plain_component d"
    using assms by (auto simp: object_key_def Let_def list_all_iff object_component_def)
  then obtain a c where ac: "?cs = a @ [c]" by (metis append_butlast_last_id split_char_ne)
  with cs(1) have a: "length a = 3" by simp
  have k: "k = join_str [slash] (a @ [c])" using join_split_char [of slash k] ac by simp
  have ane: "a \<noteq> []" using a by auto
  have t: "k @ ''.tmp'' = join_str [slash] (a @ [c @ ''.tmp''])"
    using k ane by (simp add: join_str_snoc)
  have sl: "\<forall>d\<in>set (a @ [c @ ''.tmp'']). slash \<notin> set d"
    using cs(2) ac by (auto simp: plain_component_def slash_def)
  have "split_char slash (k @ ''.tmp'') = a @ [c @ ''.tmp'']"
    unfolding t by (rule split_char_join [OF _ sl]) simp
  moreover have "clean_components True (slash # k) = a @ [c]"
    using ac cs(2) by (simp add: clean_components_def foldl_clean_plain clean_step_plain)
  ultimately show thesis using that ac a cs(2) by simp
qed

lemma store_path_object_key:
  assumes "object_key k" and "root \<noteq> []"
  obtains a c where "store_path root k =
      Inr (unclean (is_rooted root) ((clean_components (is_rooted root) root @ a) @ [c]))"
    and "key_path root k = (fs_path root @ a) @ [c]"
    and "tmp_path root k = (fs_path root @ a) @ [c @ ''.tmp'']"
    and "length a = 3" and "\<forall>d\<in>set (a @ [c]). plain_component d"
proof -
  obtain a c where ac: "split_char slash k = a @ [c]" "length a = 3"
    "\<forall>d\<in>set (a @ [c]). plain_component d" "split_char slash (k @ ''.tmp'') = a @ [c @ ''.tmp'']"
    "clean_components True (slash # k) = a @ [c]"
    using assms(1) by (rule object_key_split)
  have comp: "\<forall>d\<in>set (a @ [c]). object_component d"
    using assms(1) ac(1) by (simp add: object_key_def Let_def list_all_iff)
  have "CHR 0x00 \<notin> set k"
  proof -
    have "set (join_str [slash] ds) \<subseteq> {slash} \<union> (\<Union> (set ` set ds))" for ds
      by (induction "[slash]" ds rule: join_str.induct) auto
    from this [of "a @ [c]"] comp have "CHR 0x00 \<notin> set (join_str [slash] (a @ [c]))"
      by (auto simp: object_component_def slash_def)
    then show ?thesis using join_split_char [of slash k] ac(1) by simp
  qed
  then have "store_path root k =
      Inr (unclean (is_rooted root) ((clean_components (is_rooted root) root @ a) @ [c]))"
    using store_path_accepts [OF assms(2), of k] comp ac(5) by (simp add: object_component_def)
  then show thesis using that ac by (simp add: key_path_def tmp_path_def)
qed

lemma fs_path_of_key:
  assumes "\<forall>d\<in>set ds. plain_component d"
  shows "fs_path (unclean (is_rooted root) (clean_components (is_rooted root) root @ ds)) =
    fs_path root @ ds"
  using assms
  by (subst fs_path_unclean) (auto intro: clean_list_append clean_list_components simp: fs_path_def)

lemma plain_tmp: "plain_component c \<Longrightarrow> plain_component (c @ ''.tmp'')"
  by (auto simp: plain_component_def slash_def append_eq_Cons_conv)

lemma store_ready_key:
  assumes "store_ready root s" and "length q = 4"
  shows "\<not> through_file s (fs_path root @ q)" and "\<not> is_dir s (fs_path root @ q)"
proof -
  have r: "file_at s p \<noteq> None \<Longrightarrow> \<not> prefix p (fs_path root)"
    "file_at s (fs_path root @ p) \<noteq> None \<Longrightarrow> length p = 4"
    "fs_path root @ p \<in> set (fs_dirs s) \<Longrightarrow> length p < 4" for p
    using assms(1) by (auto simp: store_ready_def)
  show "\<not> through_file s (fs_path root @ q)"
  proof
    assume "through_file s (fs_path root @ q)"
    then obtain p where p: "strict_prefix p (fs_path root @ q)" "file_at s p \<noteq> None"
      by (auto simp: through_file_iff)
    then have "prefix p (fs_path root @ q)" by simp
    then have "prefix p (fs_path root) \<or> (\<exists>u. p = fs_path root @ u \<and> prefix u q)"
      by (simp add: prefix_append)
    then obtain u where u: "p = fs_path root @ u" "prefix u q" using r(1) p(2) by blast
    then have "length u < length q" using prefix_length_less [OF p(1)] by simp
    then show False using r(2) u(1) p(2) assms(2) by force
  qed
  have "fs_path root @ q \<noteq> []" "fs_path root @ q \<noteq> [[]]"
    using assms(2) by (auto simp: append_eq_Cons_conv)
  then show "\<not> is_dir s (fs_path root @ q)"
    using r(3) [of q] assms(2) unfolding is_dir_def by linarith
qed

lemma prefixes_no_file:
  assumes "store_ready root s" and "length q < 4" and "prefix p (fs_path root @ q)"
  shows "file_at s p = None"
proof (rule ccontr)
  assume f: "file_at s p \<noteq> None"
  from assms(3) have "prefix p (fs_path root) \<or> (\<exists>u. p = fs_path root @ u \<and> prefix u q)"
    by (simp add: prefix_append)
  then obtain u where u: "p = fs_path root @ u" "prefix u q"
    using f assms(1) by (auto simp: store_ready_def)
  then have "length u < 4" using assms(2) prefix_length_le by fastforce
  then show False using u(1) f assms(1) by (auto simp: store_ready_def)
qed

text \<open>The paths \<open>Put\<close> works on: the object, its scratch file and their directory.\<close>

lemma put_paths:
  assumes "object_key k" and "root \<noteq> []"
  obtains p a c where "store_path root k = Inr p" and "fs_path p = key_path root k"
    and "fs_path (p @ ''.tmp'') = tmp_path root k" and "fs_path (path_dir p) = fs_path root @ a"
    and "key_path root k = (fs_path root @ a) @ [c]" and "tmp_path root k = (fs_path root @ a) @ [c @ ''.tmp'']"
    and "length a = 3"
proof -
  obtain a c where ac: "store_path root k =
      Inr (unclean (is_rooted root) ((clean_components (is_rooted root) root @ a) @ [c]))"
    "key_path root k = (fs_path root @ a) @ [c]"
    "tmp_path root k = (fs_path root @ a) @ [c @ ''.tmp'']" "length a = 3"
    "\<forall>d\<in>set (a @ [c]). plain_component d"
    using store_path_object_key [OF assms] by metis
  let ?p = "unclean (is_rooted root) ((clean_components (is_rooted root) root @ a) @ [c])"
  have cl: "clean_list (is_rooted root) ((clean_components (is_rooted root) root @ a) @ [c])"
    using clean_list_append [OF clean_list_components ac(5)] by simp
  have dir: "fs_path (path_dir ?p) = fs_path root @ a"
    using ac(5) by (simp only: path_dir_unclean [OF cl]) (simp add: fs_path_of_key)
  have pth: "fs_path ?p = key_path root k"
    using fs_path_of_key [OF ac(5), of root] ac(2) by simp
  have pl: "\<forall>d\<in>set (a @ [c @ ''.tmp'']). plain_component d" using ac(5) plain_tmp by auto
  have tmp: "fs_path (?p @ ''.tmp'') = tmp_path root k"
    unfolding unclean_append using fs_path_of_key [OF pl, of root] ac(3) by simp
  show thesis by (rule that [OF ac(1) pth tmp dir ac(2-4)])
qed

lemma through_file_update:
  assumes "\<not> strict_prefix q p" and "\<not> through_file s p"
  shows "\<not> through_file (s\<lparr>fs_files := AList.update q f (fs_files s)\<rparr>) p"
proof -
  have "file_at (s\<lparr>fs_files := AList.update q f (fs_files s)\<rparr>) u = file_at s u" if "strict_prefix u p" for u
    using assms(1) that by (auto simp: file_at_def update_conv')
  then show ?thesis using assms(2) by (auto simp: through_file_iff)
qed

lemma Local_Put_ready:
  fixes v :: string
  assumes "store_ready root s" and "object_key k"
  defines "f \<equiv> \<lparr>file_data = v, file_mtime = clock s\<rparr>"
  obtains ds where "Local_Put root k v s = (Inr (), s\<lparr>fs_dirs := fs_dirs s @ ds,
      fs_files := AList.update (key_path root k) f
        (AList.delete (tmp_path root k) (AList.update (tmp_path root k) f (fs_files s)))\<rparr>)"
    and "\<forall>d\<in>set ds. \<exists>q. length q < 4 \<and> prefix d (fs_path root @ q)"
    and "is_dir (s\<lparr>fs_dirs := fs_dirs s @ ds\<rparr>) (butlast (key_path root k))"
proof -
  have root: "root \<noteq> []" and io: "io_calm s" using assms(1) by (simp_all add: store_ready_def)
  obtain p a c where paths: "store_path root k = Inr p" "fs_path p = key_path root k"
      "fs_path (p @ ''.tmp'') = tmp_path root k" "fs_path (path_dir p) = fs_path root @ a"
    and ac: "key_path root k = (fs_path root @ a) @ [c]" "tmp_path root k = (fs_path root @ a) @ [c @ ''.tmp'']" "length a = 3"
    by (rule put_paths [OF assms(2) root])
  let ?ds = "filter (\<lambda>q. \<not> is_dir s q) (prefixes (fs_path root @ a))"
  have nf: "\<not> list_ex (\<lambda>q. file_at s q \<noteq> None) (prefixes (fs_path root @ a))"
    using prefixes_no_file [OF assms(1), of a] ac(3) by (auto simp: list_ex_iff)
  let ?s1 = "s\<lparr>fs_dirs := fs_dirs s @ ?ds\<rparr>"
  have mk: "os_mkdir_all (fs_path root @ a) s = (Inr (), ?s1)"
    using io nf by (simp add: os_mkdir_all_def)
  have thr: "through_file (s\<lparr>fs_dirs := ds\<rparr>) p = through_file s p" for ds p
    by (simp add: through_file_def)
  have k4: "length (a @ [x]) = 4" for x using ac(3) by simp
  have ready: "\<not> through_file s ((fs_path root @ a) @ [x])" "\<not> is_dir s ((fs_path root @ a) @ [x])" for x
    using store_ready_key [OF assms(1) k4 [of x]] by simp_all
  have d1: "is_dir ?s1 (fs_path root @ a)" and d2: "\<not> is_dir ?s1 ((fs_path root @ a) @ [x])" for x
    using ready(2) [of x] by (auto simp: is_dir_mkdir)
  have parent: "butlast (tmp_path root k) = fs_path root @ a"
    "butlast (key_path root k) = fs_path root @ a"
    by (simp_all only: ac(1,2) butlast_snoc)
  have tk: "\<not> through_file s (tmp_path root k)" "\<not> is_dir ?s1 (tmp_path root k)"
    "\<not> is_dir ?s1 (key_path root k)"
    using ready(1) [of "c @ ''.tmp''"] d2 by (simp_all add: ac(1,2))
  have wr: "os_write_file (tmp_path root k) v ?s1 =
      (Inr (), ?s1\<lparr>fs_files := AList.update (tmp_path root k) f (fs_files s)\<rparr>)"
    using io tk d1 by (simp add: os_write_file_def thr f_def parent)
  let ?s2 = "?s1\<lparr>fs_files := AList.update (tmp_path root k) f (fs_files s)\<rparr>"
  have "\<not> strict_prefix (tmp_path root k) (key_path root k)"
    using ac(1,2) by (metis length_append_singleton less_irrefl prefix_length_less)
  then have thr2: "\<not> through_file ?s2 (key_path root k)"
    using through_file_update [of "tmp_path root k" "key_path root k" ?s1 f] ready(1) [of c] ac(1) by (simp add: thr)
  have rn: "os_rename (tmp_path root k) (key_path root k) ?s2 = (Inr (), ?s2\<lparr>fs_files :=
      AList.update (key_path root k) f (AList.delete (tmp_path root k) (fs_files ?s2))\<rparr>)"
    using io thr2 d1 tk by (simp add: os_rename_def file_at_def update_conv' parent)
  have "Local_Put root k v s = (Inr (), ?s2\<lparr>fs_files :=
      AList.update (key_path root k) f (AList.delete (tmp_path root k) (fs_files ?s2))\<rparr>)"
    using mk wr rn by (simp add: Local_Put_def paths on_result_apply Let_def
        del: append_assoc)
  moreover have "\<forall>d\<in>set ?ds. \<exists>q. length q < 4 \<and> prefix d (fs_path root @ q)"
    using ac(3) by (auto intro: exI [of _ a])
  moreover have "is_dir ?s1 (butlast (key_path root k))" using d1 by (simp only: parent)
  ultimately show thesis using that [of ?ds] by simp
qed

lemma key_path_inject: "key_path root k = key_path root l \<longleftrightarrow> k = l"
  unfolding key_path_def by (metis join_split_char same_append_eq)

lemma tmp_not_key:
  assumes "object_key l"
  shows "key_path root l \<noteq> tmp_path root k"
  using assms by (auto simp: tmp_path_def key_path_inject object_key_def Let_def has_suffix_def suffix_def)

lemma store_path_fs:
  assumes "object_key k" and "store_ready root s"
  obtains p where "store_path root k = Inr p" and "fs_path p = key_path root k"
    and "\<not> through_file s (key_path root k)" and "\<not> is_dir s (key_path root k)"
proof -
  have root: "root \<noteq> []" using assms(2) by (simp add: store_ready_def)
  obtain a c where ac: "store_path root k =
      Inr (unclean (is_rooted root) ((clean_components (is_rooted root) root @ a) @ [c]))"
    "key_path root k = (fs_path root @ a) @ [c]" "length a = 3"
    "\<forall>d\<in>set (a @ [c]). plain_component d"
    using store_path_object_key [OF assms(1) root] by metis
  have "length (a @ [c]) = 4" using ac(3) by simp
  from store_ready_key [OF assms(2) this] that [OF ac(1)] ac(2) fs_path_of_key [OF ac(4), of root]
  show thesis by simp
qed

lemma object_get_ready:
  assumes "store_ready root s" and "object_key k"
  shows "Local_Get root k s = (case file_at s (key_path root k) of
      None \<Rightarrow> Inl (Sentinel Storage_ErrNotFound) | Some f \<Rightarrow> Inr (file_data f), s)"
    and "object_get root k s = map_option file_data (file_at s (key_path root k))"
proof -
  obtain p where p: "store_path root k = Inr p" "fs_path p = key_path root k"
    "\<not> through_file s (key_path root k)" "\<not> is_dir s (key_path root k)"
    using store_path_fs [OF assms(2,1)] by metis
  have io: "io_calm s" using assms(1) by (simp add: store_ready_def)
  show g: "Local_Get root k s = (case file_at s (key_path root k) of
      None \<Rightarrow> Inl (Sentinel Storage_ErrNotFound) | Some f \<Rightarrow> Inr (file_data f), s)"
    using p io by (simp add: Local_Get_def on_result_apply os_read_file_def split: option.split)
  show "object_get root k s = map_option file_data (file_at s (key_path root k))"
    by (simp add: object_get_def g split: option.split)
qed

lemma Local_Delete_ready:
  assumes "store_ready root s" and "object_key k"
  shows "Local_Delete root k s =
    (if file_at s (key_path root k) = None then (Inl (Sentinel Storage_ErrNotFound), s)
     else (Inr (), s\<lparr>fs_files := AList.delete (key_path root k) (fs_files s)\<rparr>))"
proof -
  obtain p where p: "store_path root k = Inr p" "fs_path p = key_path root k"
    "\<not> through_file s (key_path root k)" "\<not> is_dir s (key_path root k)"
    using store_path_fs [OF assms(2,1)] by metis
  have io: "io_calm s" using assms(1) by (simp add: store_ready_def)
  show ?thesis
    using p io by (simp add: Local_Delete_def on_result_apply os_remove_def)
qed

lemma store_ready_put:
  assumes "store_ready root s" and "object_key k"
  shows "store_ready root (object_put root k v s)"
    and "object_key l \<Longrightarrow> object_get root l (object_put root k v s) =
      (if l = k then Some v else object_get root l s)"
proof -
  let ?f = "\<lparr>file_data = v, file_mtime = clock s\<rparr>"
  let ?t = "object_put root k v s"
  obtain ds where t: "?t = s\<lparr>fs_dirs := fs_dirs s @ ds,
      fs_files := AList.update (key_path root k) ?f
        (AList.delete (tmp_path root k) (AList.update (tmp_path root k) ?f (fs_files s)))\<rparr>"
    and ds: "\<forall>d\<in>set ds. \<exists>q. length q < 4 \<and> prefix d (fs_path root @ q)"
    using Local_Put_ready [OF assms] unfolding object_put_def by (metis snd_conv)
  have at: "file_at ?t p = (if p = key_path root k then Some ?f
      else if p = tmp_path root k then None else file_at s p)" for p
    by (simp add: t file_at_replace update_conv') (simp add: file_at_def)
  have len: "length (split_char slash k) = 4" using assms(2) by (simp add: object_key_def Let_def)
  show ready: "store_ready root ?t"
    unfolding store_ready_def
  proof (intro conjI allI impI)
    show "root \<noteq> []" "io_calm ?t" using assms(1) by (simp_all add: store_ready_def t)
    fix q
    show "\<not> prefix q (fs_path root)" if "file_at ?t q \<noteq> None"
    proof (cases "q = key_path root k")
      case True
      then have "length (fs_path root) < length q" using len by (simp add: key_path_def)
      then show ?thesis using prefix_length_le by fastforce
    next
      case False
      then show ?thesis using that assms(1) by (auto simp: at store_ready_def split: if_splits)
    qed
    show "length q = 4" if "file_at ?t (fs_path root @ q) \<noteq> None"
      using that assms(1) len by (auto simp: at store_ready_def key_path_def split: if_splits)
    show "length q < 4" if "fs_path root @ q \<in> set (fs_dirs ?t)"
    proof (cases "fs_path root @ q \<in> set (fs_dirs s)")
      case True
      then show ?thesis using assms(1) by (simp add: store_ready_def)
    next
      case False
      with that t ds obtain u where u: "length u < 4" "prefix (fs_path root @ q) (fs_path root @ u)"
        by auto
      from prefix_length_le [OF u(2)] u(1) show ?thesis by simp
    qed
  qed
  show "object_get root l ?t = (if l = k then Some v else object_get root l s)" if "object_key l"
    using that tmp_not_key [OF that, of root k] assms ready
    by (auto simp: object_get_ready at key_path_inject)
qed

lemma store_ready_del:
  assumes "store_ready root s" and "object_key k"
  shows "store_ready root (object_del root k s)"
    and "object_key l \<Longrightarrow> object_get root l (object_del root k s) =
      (if l = k then None else object_get root l s)"
proof -
  let ?t = "object_del root k s"
  have t: "?t = s \<or> ?t = s\<lparr>fs_files := AList.delete (key_path root k) (fs_files s)\<rparr>"
    by (simp add: object_del_def Local_Delete_ready [OF assms])
  have at: "file_at ?t p = (if p = key_path root k then None else file_at s p)" for p
    by (simp add: object_del_def Local_Delete_ready [OF assms] file_at_delete)
  have dirs: "fs_dirs ?t = fs_dirs s" and io: "io_calm ?t" using t assms(1)
    by (auto simp: store_ready_def)
  show ready: "store_ready root ?t"
    using assms(1) io by (auto simp: store_ready_def at dirs split: if_splits)
  show "object_get root l ?t = (if l = k then None else object_get root l s)" if "object_key l"
    using that assms ready by (auto simp: object_get_ready at key_path_inject)
qed

interpretation objects: keyed_store "object_put root" "object_del root" "object_get root"
    "store_ready root" "\<lambda>_. object_key" "\<lambda>_. True" for root
  by unfold_locales (simp_all add: store_ready_put store_ready_del)

text \<open>
  C14: On the four-segment keys of backups the local store refines a finite map: after any
  sequence of \<open>Put\<close> and \<open>Delete\<close> calls, \<open>Get\<close> returns the bytes of the last \<open>Put\<close> of that
  key, and nothing after a \<open>Delete\<close>; the temporary file and the directories \<open>Put\<close> creates
  disturb no other key.
\<close>

theorem local_store_refines_map:
  assumes "store_ready root s" and "ops_ok object_key (\<lambda>_. True) ops" and "object_key k"
  shows "object_get root k (run_ops (object_put root) (object_del root) ops s) =
    (case last_write k ops of None \<Rightarrow> object_get root k s | Some r \<Rightarrow> r)"
  by (rule objects.run_ops_last_write [OF assms])

lemma empty_host_ready: "root \<noteq> [] \<Longrightarrow> store_ready root empty_host"
  by (simp add: store_ready_def empty_host_def io_calm_def file_at_def db.defs host.defs)

lemma demo_keys:
  "object_key ''backups/o/n/a''" "object_key ''backups/o/n/b''" "object_key ''backups/o/n/a.t''"
  by (simp_all add: object_key_def Let_def slash_def object_component_def plain_component_def
      contains_str_def sublist_code has_suffix_def suffix_to_prefix)

theorem local_store_refines_map_witness:
  "object_get ''/srv'' ''backups/o/n/a'' (run_ops (object_put ''/srv'') (object_del ''/srv'')
     [Put_op ''backups/o/n/a'' ''one'', Put_op ''backups/o/n/b'' ''two'',
      Put_op ''backups/o/n/a'' ''three''] empty_host) = Some ''three''"
  using local_store_refines_map [OF empty_host_ready, of "''/srv''"
      "[Put_op ''backups/o/n/a'' ''one'', Put_op ''backups/o/n/b'' ''two'',
        Put_op ''backups/o/n/a'' ''three'']" "''backups/o/n/a''"] demo_keys
  by simp

text \<open>
  The scratch file of \<open>Put\<close> lies in the key space: a \<open>Put\<close> under \<open>k\<close> removes whatever
  file was stored under \<open>k.tmp\<close>, and \<open>Get\<close> then reports that object as not found.
\<close>

theorem put_destroys_tmp_object:
  assumes "store_ready root s" and "object_key k"
  shows "object_get root k (object_put root k v s) = Some v
    \<and> file_at (object_put root k v s) (tmp_path root k) = None"
proof -
  obtain ds where t: "object_put root k v s = s\<lparr>fs_dirs := fs_dirs s @ ds,
      fs_files := AList.update (key_path root k) \<lparr>file_data = v, file_mtime = clock s\<rparr>
        (AList.delete (tmp_path root k) (AList.update (tmp_path root k)
          \<lparr>file_data = v, file_mtime = clock s\<rparr> (fs_files s)))\<rparr>"
    using Local_Put_ready [OF assms, of v] unfolding object_put_def by (metis snd_conv)
  have "file_at (object_put root k v s) (tmp_path root k) = None"
    using tmp_not_key [OF assms(2), of root k] by (simp add: t file_at_replace)
  then show ?thesis using store_ready_put(2) [OF assms assms(2)] by simp
qed

theorem put_destroys_tmp_object_witness:
  "object_get ''/srv'' ''backups/o/n/a'' (object_put ''/srv'' ''backups/o/n/a'' ''one'' empty_host) =
     Some ''one''"
  using put_destroys_tmp_object [OF empty_host_ready demo_keys(1), of "''/srv''" "''one''"] by simp

end
