(* ===== verification/Repos.thy ===== *)
theory Repos
  imports Exec
begin

text \<open>
  Package \<open>internal/repos\<close>: the repository service (service.go) over a metadata store
  (store.go) and a git initialiser. The state is the host of theory Files: the table
  repositories and the file system. Shown: names cannot leave their directory, creation is
  atomic in the table whatever call fails, and the store's laws.
\<close>

section \<open>Names and input (model.go, service.go)\<close>

record create_input =
  inp_owner :: string
  inp_name :: string

definition alnum_char :: "char \<Rightarrow> bool" where
  "alnum_char c \<longleftrightarrow>
     char_range (CHR ''a'') (CHR ''z'') c \<or> char_range (CHR ''A'') (CHR ''Z'') c \<or> is_digit c"

definition name_char :: "char \<Rightarrow> bool" where
  "name_char c \<longleftrightarrow> alnum_char c \<or> c = CHR ''.'' \<or> c = CHR ''_'' \<or> c = CHR ''-''"

text \<open>\<open>validName.MatchString\<close>: the expression is anchored at both ends of the text.\<close>

definition validName :: "string \<Rightarrow> bool" where
  "validName s = (case s of [] \<Rightarrow> False
     | c # cs \<Rightarrow> alnum_char c \<and> list_all name_char cs \<and> length cs \<le> 99)"

definition validateName :: "string \<Rightarrow> string \<Rightarrow> goerr option" where
  "validateName kind value =
     (if \<not> validName value
      then Some (ErrText (''invalid '' @ kind @
        '' name: use 1-100 letters, numbers, dots, dashes, or underscores''))
      else None)"

section \<open>The metadata store (store.go)\<close>

definition repo_key :: "string \<Rightarrow> string \<Rightarrow> repository \<Rightarrow> bool" where
  "repo_key owner name r \<longleftrightarrow> repo_owner r = owner \<and> repo_name r = name"

definition stmt_insert_repository ::
  "string \<Rightarrow> string \<Rightarrow> string \<Rightarrow> ('z db_scheme, goerr + repository) st" where
  "stmt_insert_repository owner name path =
     and_then (next_id T_repositories) (\<lambda>i s.
       if list_ex (\<lambda>r. repo_path r = path \<or> repo_key owner name r) (t_repositories s)
       then (Inl unique_violation, s)
       else (let r = \<lparr>repo_id = i, repo_owner = owner, repo_name = name, repo_path = path,
                      repo_created = clock s\<rparr> in
             (Inr r, s\<lparr>t_repositories := t_repositories s @ [r]\<rparr>)))"

definition PostgresStore_Create :: "repository \<Rightarrow> ('z db_scheme, goerr + repository) st" where
  "PostgresStore_Create r =
     on_result (pool (stmt_insert_repository (repo_owner r) (repo_name r) (repo_path r)))
       (\<lambda>err. if err_sqlstate err = Some ''23505'' then fail (Sentinel Repos_ErrAlreadyExists)
              else fail (wrap_err ''insert repository'' err))
       (\<lambda>row. ok row)"

definition stmt_select_repository :: "string \<Rightarrow> string \<Rightarrow> ('z db_scheme, goerr + repository) st" where
  "stmt_select_repository owner name s =
     (case List.find (repo_key owner name) (t_repositories s) of
        None \<Rightarrow> Inl NoRows | Some r \<Rightarrow> Inr r, s)"

definition PostgresStore_Get :: "string \<Rightarrow> string \<Rightarrow> ('z db_scheme, goerr + repository) st" where
  "PostgresStore_Get owner name =
     on_result (pool (stmt_select_repository owner name))
       (\<lambda>err. if err_is_no_rows err then fail (Sentinel Repos_ErrNotFound)
              else fail (wrap_err ''get repository'' err))
       (\<lambda>row. ok row)"

text \<open>\<open>ORDER BY created_at DESC, id DESC\<close>.\<close>

definition stmt_list_repositories :: "('z db_scheme, goerr + repository list) st" where
  "stmt_list_repositories s =
     (Inr (sort_key (\<lambda>r. - repo_created r) (sort_key (\<lambda>r. - repo_id r) (t_repositories s))), s)"

definition PostgresStore_List :: "('z db_scheme, goerr + repository list) st" where
  "PostgresStore_List =
     on_result (pool stmt_list_repositories)
       (\<lambda>err. fail (wrap_err ''list repositories'' err))
       (\<lambda>rows. ok rows)"

section \<open>The service (service.go)\<close>

text \<open>The interfaces \<open>Store\<close> and \<open>GitInitializer\<close>; \<open>None\<close> is a nil interface value.\<close>

record 'w repo_store =
  store_create :: "repository \<Rightarrow> ('w, goerr + repository) st"
  store_get :: "string \<Rightarrow> string \<Rightarrow> ('w, goerr + repository) st"
  store_list :: "('w, goerr + repository list) st"

record 'w repo_service =
  svc_store :: "'w repo_store option"
  svc_root :: string
  svc_git :: "(string \<Rightarrow> ('w, goerr + unit) st) option"

definition InitBare :: "'w runner \<Rightarrow> string \<Rightarrow> ('w, goerr + unit) st" where
  "InitBare run path =
     on_result (run_combined run ''initialize bare repository''
         (plain_command [''git'', ''init'', ''--bare'', ''--initial-branch=main'', path]))
       fail
       (\<lambda>_. on_result (run_combined run ''enable http.receivepack''
             (plain_command [''git'', ''-C'', path, ''config'', ''http.receivepack'', ''true'']))
         fail
         (\<lambda>_. ok ()))"

definition repository_path :: "string \<Rightarrow> string \<Rightarrow> string \<Rightarrow> string" where
  "repository_path root owner name = path_join [path_join [root, owner], name @ ''.git'']"

definition Service_Create ::
  "'z host_scheme repo_service \<Rightarrow> create_input \<Rightarrow> ('z host_scheme, goerr + repository) st" where
  "Service_Create svc input =
     (case validateName ''owner'' (inp_owner input) of
        Some err \<Rightarrow> fail err
      | None \<Rightarrow>
     (case validateName ''repository'' (inp_name input) of
        Some err \<Rightarrow> fail err
      | None \<Rightarrow>
     (case (svc_store svc, svc_git svc) of
        (Some store, Some init_bare) \<Rightarrow>
          let ownerDirectory = path_join [svc_root svc, inp_owner input];
              repositoryPath = path_join [ownerDirectory, inp_name input @ ''.git''] in
          on_result (os_mkdir_all (fs_path ownerDirectory))
            (\<lambda>err. fail (wrap_err ''create owner directory'' err))
            (\<lambda>_. on_result (os_stat (fs_path repositoryPath))
              (\<lambda>err. if \<not> err_is_not_exist err then fail (wrap_err ''check repository path'' err)
                else on_result (init_bare repositoryPath) fail
                  (\<lambda>_. on_result
                    (store_create store
                      \<lparr>repo_id = 0, repo_owner = inp_owner input, repo_name = inp_name input,
                       repo_path = repositoryPath, repo_created = 0\<rparr>)
                    (\<lambda>err. discard_result (os_remove_all (fs_path repositoryPath)) (fail err))
                    (\<lambda>repository. ok repository)))
              (\<lambda>_. fail (Sentinel Repos_ErrAlreadyExists)))
      | _ \<Rightarrow> fail (ErrText ''repository service is not configured''))))"

definition Service_Get ::
  "'w repo_store \<Rightarrow> string \<Rightarrow> string \<Rightarrow> ('w, goerr + repository) st" where
  "Service_Get store owner name =
     (case validateName ''owner'' owner of
        Some err \<Rightarrow> fail err
      | None \<Rightarrow>
     (case validateName ''repository'' name of
        Some err \<Rightarrow> fail err
      | None \<Rightarrow> store_get store owner name))"

definition Service_List :: "'w repo_store \<Rightarrow> ('w, goerr + repository list) st" where
  "Service_List store = store_list store"

definition postgres_store :: "'z db_scheme repo_store" where
  "postgres_store = \<lparr>store_create = PostgresStore_Create, store_get = PostgresStore_Get,
     store_list = PostgresStore_List\<rparr>"

section \<open>Names stay in their directory\<close>

lemma alnum_not_special: "alnum_char c \<Longrightarrow> c \<noteq> slash \<and> c \<noteq> CHR ''.''"
  by (auto simp: alnum_char_def slash_def is_digit_def)

lemma name_char_not_slash: "name_char c \<Longrightarrow> c \<noteq> slash"
  by (auto simp: name_char_def slash_def alnum_char_def is_digit_def)

lemma validName_plain:
  assumes "validName s"
  shows "plain_component s" and "plain_component (s @ ''.git'')"
proof -
  obtain c cs where s: "s = c # cs" and c: "alnum_char c" and cs: "list_all name_char cs"
    using assms by (auto simp: validName_def split: list.splits)
  have "slash \<notin> set s" using alnum_not_special [OF c] cs name_char_not_slash
    by (auto simp: s list_all_iff)
  then show "plain_component s" "plain_component (s @ ''.git'')"
    using alnum_not_special [OF c] s by (auto simp: plain_component_def slash_def)
qed

lemma repository_path_unclean:
  assumes "validName owner" and "validName name"
  shows "path_join [root, owner] =
      unclean (is_rooted root) (clean_components (is_rooted root) root @ [owner])"
    and "repository_path root owner name =
      unclean (is_rooted root) (clean_components (is_rooted root) root @ [owner, name @ ''.git''])"
proof -
  show o: "path_join [root, owner] =
      unclean (is_rooted root) (clean_components (is_rooted root) root @ [owner])"
    by (rule path_join_plain [OF validName_plain(1) [OF assms(1)]])
  have cl: "clean_list (is_rooted root) (clean_components (is_rooted root) root @ [owner])"
    using clean_list_append [OF clean_list_components] validName_plain(1) [OF assms(1)] by simp
  show "repository_path root owner name =
      unclean (is_rooted root) (clean_components (is_rooted root) root @ [owner, name @ ''.git''])"
    unfolding repository_path_def path_join_plain [OF validName_plain(2) [OF assms(2)]]
    by (simp add: o is_rooted_unclean [OF cl] clean_components_unclean [OF cl])
qed

lemma repository_fs_path:
  assumes "validName owner" and "validName name"
  shows "fs_path (repository_path root owner name) = fs_path root @ [owner, name @ ''.git'']"
    and "fs_path (path_join [root, owner]) = fs_path root @ [owner]"
proof -
  have cl: "clean_list (is_rooted root) (clean_components (is_rooted root) root @ ds)"
    if "\<forall>d\<in>set ds. plain_component d" for ds
    using that by (rule clean_list_append [OF clean_list_components])
  have fs: "fs_path (unclean (is_rooted root) (clean_components (is_rooted root) root @ ds)) =
      fs_path root @ ds" if "\<forall>d\<in>set ds. plain_component d" for ds
    using cl [OF that]
    by (simp add: fs_path_def is_rooted_unclean clean_components_unclean)
  show "fs_path (repository_path root owner name) = fs_path root @ [owner, name @ ''.git'']"
    "fs_path (path_join [root, owner]) = fs_path root @ [owner]"
    using fs validName_plain assms by (simp_all add: repository_path_unclean)
qed

text \<open>
  C13: Isolation of repository directories. For names the service accepts, the directory lies
  exactly two plain components below the root (no name climbs out of it), two repositories
  share a directory only when owner and name agree, and no repository directory lies inside
  another one.
\<close>

theorem repository_directories_isolated:
  assumes "validName owner" and "validName name" and "validName owner'" and "validName name'"
  shows "(\<exists>o' n'. fs_path (repository_path root owner name) = fs_path root @ [o', n']
        \<and> plain_component o' \<and> plain_component n')
    \<and> (repository_path root owner name = repository_path root owner' name' \<longleftrightarrow>
        owner = owner' \<and> name = name')
    \<and> (prefix (fs_path (repository_path root owner name))
              (fs_path (repository_path root owner' name')) \<longleftrightarrow> owner = owner' \<and> name = name')"
proof -
  note fs = repository_fs_path(1) [OF assms(1,2)] repository_fs_path(1) [OF assms(3,4)]
  have "(fs_path root @ [owner, name @ ''.git''] = fs_path root @ [owner', name' @ ''.git'']) =
      (owner = owner' \<and> name = name')" by simp
  then have inj: "repository_path root owner name = repository_path root owner' name' \<longleftrightarrow>
      owner = owner' \<and> name = name'"
    unfolding fs [of root, symmetric] by auto
  have "prefix (fs_path root @ [owner, name @ ''.git'']) (fs_path root @ [owner', name' @ ''.git'']) \<longleftrightarrow>
      owner = owner' \<and> name = name'" by simp
  moreover have "\<exists>o' n'. fs_path (repository_path root owner name) = fs_path root @ [o', n']
      \<and> plain_component o' \<and> plain_component n'"
    using fs(1) validName_plain(1) [OF assms(1)] validName_plain(2) [OF assms(2)] by blast
  ultimately show ?thesis using inj unfolding fs by blast
qed

theorem repository_directories_isolated_witness:
  "repository_path ''/srv'' ''a.b'' ''c'' \<noteq> repository_path ''/srv'' ''a'' ''b.c''"
  using repository_directories_isolated [of "''a.b''" "''c''" "''a''" "''b.c''" "''/srv''"]
  by (simp add: validName_def alnum_char_def name_char_def less_eq_char_def)

section \<open>The contract of a metadata store\<close>

text \<open>
  What the service relies on: \<open>lookup s\<close> is the finite map from owner and name to the row. The
  store never touches the file system, and the file system never touches the map.
\<close>

locale repository_store =
  fixes create :: "repository \<Rightarrow> ('z host_scheme, goerr + repository) st"
    and get :: "string \<Rightarrow> string \<Rightarrow> ('z host_scheme, goerr + repository) st"
    and lookup :: "'z host_scheme \<Rightarrow> string \<times> string \<Rightarrow> repository option"
  assumes create_Inr: "create r s = (Inr x, t) \<Longrightarrow>
      lookup s (repo_owner r, repo_name r) = None \<and>
      lookup t = (lookup s)((repo_owner r, repo_name r) \<mapsto> x) \<and>
      repo_owner x = repo_owner r \<and> repo_name x = repo_name r \<and> repo_path x = repo_path r"
    and create_Inl: "create r s = (Inl e, t) \<Longrightarrow> lookup t = lookup s"
    and create_files: "create r s = (res, t) \<Longrightarrow> fs_files t = fs_files s \<and> fs_dirs t = fs_dirs s"
    and get_state: "get owner name s = (res, t) \<Longrightarrow> lookup t = lookup s"
    and get_Inr: "get owner name s = (Inr x, t) \<Longrightarrow> lookup s (owner, name) = Some x"
    and lookup_files: "lookup (s\<lparr>fs_files := fs, fs_dirs := ds, io_faults := io\<rparr>) = lookup s"
begin

lemma lookup_syscall:
  assumes "\<And>s. lookup (snd (act s)) = lookup s"
  shows "lookup (snd (syscall act s)) = lookup s"
proof -
  have "lookup (s\<lparr>io_faults := io\<rparr>) = lookup s" for io
    using lookup_files [where s = s and fs = "fs_files s" and ds = "fs_dirs s" and io = io] by simp
  then show ?thesis using assms by (simp add: syscall_def split: list.split option.split)
qed

lemma lookup_os:
  "lookup (snd (os_mkdir_all p s)) = lookup s"
  "lookup (snd (os_stat p s)) = lookup s"
  "lookup (snd (os_remove_all p s)) = lookup s"
proof -
  have upd: "lookup (s\<lparr>fs_dirs := ds\<rparr>) = lookup s" "lookup (s\<lparr>fs_files := fs\<rparr>) = lookup s"
    for s fs ds
    using lookup_files [where s = s and fs = "fs_files s" and ds = ds and io = "io_faults s"]
      lookup_files [where s = s and fs = fs and ds = "fs_dirs s" and io = "io_faults s"]
    by simp_all
  show "lookup (snd (os_mkdir_all p s)) = lookup s" "lookup (snd (os_stat p s)) = lookup s"
    "lookup (snd (os_remove_all p s)) = lookup s"
    unfolding os_mkdir_all_def os_stat_def os_remove_all_def
    by (auto intro!: lookup_syscall simp: upd)
qed

text \<open>The calls of \<open>Service.Create\<close> in order, for names that are accepted.\<close>

lemma Service_Create_runs:
  assumes svc: "svc_store svc = Some \<lparr>store_create = create, store_get = get, store_list = lst\<rparr>"
      "svc_git svc = Some init_bare"
    and names: "validName (inp_owner input)" "validName (inp_name input)"
    and run: "Service_Create svc input s = (r, t)"
  defines "rp \<equiv> repository_path (svc_root svc) (inp_owner input) (inp_name input)"
  obtains r1 s1 r2 s2 r3 s3 r4 s4
  where "os_mkdir_all (fs_path (path_join [svc_root svc, inp_owner input])) s = (r1, s1)"
    and "os_stat (fs_path rp) s1 = (r2, s2)" and "init_bare rp s2 = (r3, s3)"
    and "create \<lparr>repo_id = 0, repo_owner = inp_owner input, repo_name = inp_name input, repo_path = rp, repo_created = 0\<rparr> s3 = (r4, s4)"
    and "case r of Inr x \<Rightarrow> r3 = Inr () \<and> r4 = Inr x \<and> t = s4
      | Inl e \<Rightarrow> t \<in> {s1, s2, s3} \<or> (\<exists>e4. r4 = Inl e4) \<and> t \<in> {s4, snd (os_remove_all (fs_path rp) s4)}"
proof -
  let ?row = "\<lparr>repo_id = 0, repo_owner = inp_owner input, repo_name = inp_name input, repo_path = rp, repo_created = 0\<rparr>"
  obtain r1 s1 where m: "os_mkdir_all (fs_path (path_join [svc_root svc, inp_owner input])) s = (r1, s1)" by (rule prod.exhaust)
  obtain r2 s2 where st: "os_stat (fs_path rp) s1 = (r2, s2)" by (rule prod.exhaust)
  obtain r3 s3 where g: "init_bare rp s2 = (r3, s3)" by (rule prod.exhaust)
  obtain r4 s4 where c: "create ?row s3 = (r4, s4)" by (rule prod.exhaust)
  have "case r of Inr x \<Rightarrow> r3 = Inr () \<and> r4 = Inr x \<and> t = s4
      | Inl e \<Rightarrow> t \<in> {s1, s2, s3} \<or> (\<exists>e4. r4 = Inl e4) \<and> t \<in> {s4, snd (os_remove_all (fs_path rp) s4)}"
    using run [unfolded Service_Create_def validateName_def Let_def svc on_result_apply
        discard_result_apply repository_path_def [symmetric], folded rp_def] names m st g c
    by (auto simp: on_result_apply discard_result_apply split: sum.splits if_splits)
  with m st g c show thesis by (rule that)
qed

lemma Service_Create_outcome:
  assumes git: "\<And>p w res w'. init_bare p w = (res, w') \<Longrightarrow> lookup w' = lookup w"
    and made: "\<And>p w w'. init_bare p w = (Inr (), w') \<Longrightarrow> is_dir w' (fs_path p)"
    and svc: "svc_store svc = Some \<lparr>store_create = create, store_get = get, store_list = lst\<rparr>"
      "svc_git svc = Some init_bare"
    and run: "Service_Create svc input s = (r, t)"
  shows "case r of
      Inl e \<Rightarrow> lookup t = lookup s
    | Inr x \<Rightarrow> lookup s (inp_owner input, inp_name input) = None
        \<and> lookup t = (lookup s)((inp_owner input, inp_name input) \<mapsto> x)
        \<and> validName (inp_owner input) \<and> validName (inp_name input)
        \<and> repo_path x = repository_path (svc_root svc) (inp_owner input) (inp_name input)
        \<and> is_dir t (fs_path (repo_path x))"
proof -
  let ?rp = "repository_path (svc_root svc) (inp_owner input) (inp_name input)"
  show ?thesis
  proof (cases "validName (inp_owner input) \<and> validName (inp_name input)")
    case False
    then show ?thesis using run by (auto simp: Service_Create_def validateName_def split: if_splits)
  next
    case True
    obtain r1 s1 r2 s2 r3 s3 r4 s4
      where m: "os_mkdir_all (fs_path (path_join [svc_root svc, inp_owner input])) s = (r1, s1)"
        and st: "os_stat (fs_path ?rp) s1 = (r2, s2)" and g: "init_bare ?rp s2 = (r3, s3)"
        and c: "create \<lparr>repo_id = 0, repo_owner = inp_owner input, repo_name = inp_name input, repo_path = ?rp,
            repo_created = 0\<rparr> s3 = (r4, s4)"
        and out: "case r of Inr x \<Rightarrow> r3 = Inr () \<and> r4 = Inr x \<and> t = s4
          | Inl e \<Rightarrow> t \<in> {s1, s2, s3} \<or> (\<exists>e4. r4 = Inl e4) \<and> t \<in> {s4, snd (os_remove_all (fs_path ?rp) s4)}"
      using Service_Create_runs [OF svc _ _ run] True by blast
    have l: "lookup s1 = lookup s" "lookup s2 = lookup s" "lookup s3 = lookup s"
      using lookup_os(1,2) m st git [OF g] by (metis snd_conv)+
    show ?thesis
    proof (cases r)
      case (Inl e)
      then show ?thesis
        using out l c lookup_os(3) by (auto dest: create_Inl)
    next
      case (Inr x)
      with out have all: "r3 = Inr ()" "r4 = Inr x" "t = s4" by simp_all
      have "lookup s3 (inp_owner input, inp_name input) = None"
        "lookup t = (lookup s3)((inp_owner input, inp_name input) \<mapsto> x)" "repo_path x = ?rp"
        using create_Inr [OF c [unfolded all(2)]] all(3) by simp_all
      moreover have "is_dir t (fs_path ?rp)"
        using made [of ?rp s2 s3] g all create_files [OF c] by (simp add: is_dir_def)
      ultimately show ?thesis using l True Inr by simp
    qed
  qed
qed

end

section \<open>PostgreSQL keeps the contract\<close>

definition repo_lookup :: "'z db_scheme \<Rightarrow> string \<times> string \<Rightarrow> repository option" where
  "repo_lookup s k = List.find (repo_key (fst k) (snd k)) (t_repositories s)"

lemma PostgresStore_Create_cases:
  assumes "PostgresStore_Create r s = (res, t)"
  shows "case res of
      Inl e \<Rightarrow> t_repositories t = t_repositories s
    | Inr x \<Rightarrow> x = r\<lparr>repo_id := next_ids s T_repositories, repo_created := clock s\<rparr>
        \<and> t_repositories t = t_repositories s @ [x]
        \<and> next_ids t = (next_ids s)(T_repositories := next_ids s T_repositories + 1)
        \<and> list_all (\<lambda>q. repo_path q \<noteq> repo_path r \<and>
             \<not> repo_key (repo_owner r) (repo_name r) q) (t_repositories s)"
  using assms unfolding PostgresStore_Create_def
  by (auto elim!: on_resultE pool_resultE
      simp: stmt_insert_repository_def and_then_apply next_id_def Let_def list_all_iff list_ex_iff
      split: if_splits)

lemma PostgresStore_Get_Inr:
  assumes "PostgresStore_Get owner name s = (Inr x, t)"
  shows "repo_lookup s (owner, name) = Some x"
  using assms unfolding PostgresStore_Get_def
  by (auto elim!: on_resultE pool_resultE simp: stmt_select_repository_def repo_lookup_def
      split: if_splits option.splits)

lemma PostgresStore_Create_same:
  assumes "\<And>s fs. f (s\<lparr>faults := fs\<rparr>) = f s"
    and "\<And>s rs. f (s\<lparr>t_repositories := rs\<rparr>) = f s"
    and "\<And>s ns. f (s\<lparr>next_ids := ns\<rparr>) = f s"
  shows "steps (same f) (PostgresStore_Create r)"
proof -
  have "steps (same f) (stmt_insert_repository owner name path)" for owner name path
    by (rule stepsI) (simp add: stmt_insert_repository_def and_then_apply next_id_def same_def
        Let_def assms)
  then show ?thesis
    unfolding PostgresStore_Create_def
    by (intro step_rules steps_pool_same assms)
qed

lemma PostgresStore_Get_same:
  assumes "\<And>s fs. f (s\<lparr>faults := fs\<rparr>) = f s"
  shows "steps (same f) (PostgresStore_Get owner name)"
proof -
  have "steps (same f) (stmt_select_repository owner name)"
    by (rule stepsI) (simp add: stmt_select_repository_def same_def)
  then show ?thesis
    unfolding PostgresStore_Get_def by (intro step_rules steps_pool_same assms)
qed

lemma repo_lookup_snoc:
  assumes "list_all (\<lambda>q. \<not> repo_key (repo_owner x) (repo_name x) q) (t_repositories s)"
    and "t_repositories t = t_repositories s @ [x]"
  shows "repo_lookup s (repo_owner x, repo_name x) = None"
    and "repo_lookup t = (repo_lookup s)((repo_owner x, repo_name x) \<mapsto> x)"
proof -
  show none: "repo_lookup s (repo_owner x, repo_name x) = None"
    using assms(1) by (simp add: repo_lookup_def find_None_iff_all list_all_iff)
  show "repo_lookup t = (repo_lookup s)((repo_owner x, repo_name x) \<mapsto> x)"
  proof
    fix k :: "string \<times> string"
    obtain a b where k: "k = (a, b)" by fastforce
    show "repo_lookup t k = ((repo_lookup s)((repo_owner x, repo_name x) \<mapsto> x)) k"
    proof (cases "a = repo_owner x \<and> b = repo_name x")
      case True
      then show ?thesis
        using none by (simp add: k repo_lookup_def assms(2) find_append repo_key_def)
    next
      case False
      then show ?thesis
        by (auto simp: k repo_lookup_def assms(2) find_append repo_key_def split: option.split)
    qed
  qed
qed

interpretation pg_repos: repository_store PostgresStore_Create PostgresStore_Get
    "repo_lookup :: 'z host_scheme \<Rightarrow> _"
proof unfold_locales
  fix r x res e owner name and s t :: "'z host_scheme"
  { assume c: "PostgresStore_Create r s = (Inr x, t)"
    from PostgresStore_Create_cases [OF c] have
      "x = r\<lparr>repo_id := next_ids s T_repositories, repo_created := clock s\<rparr>"
      "t_repositories t = t_repositories s @ [x]"
      "list_all (\<lambda>q. \<not> repo_key (repo_owner r) (repo_name r) q) (t_repositories s)"
      by (auto simp: list_all_iff)
    with repo_lookup_snoc [of x s t]
    show "repo_lookup s (repo_owner r, repo_name r) = None \<and>
      repo_lookup t = (repo_lookup s)((repo_owner r, repo_name r) \<mapsto> x) \<and>
      repo_owner x = repo_owner r \<and> repo_name x = repo_name r \<and> repo_path x = repo_path r"
      by auto }
  { assume "PostgresStore_Create r s = (Inl e, t)"
    from PostgresStore_Create_cases [OF this] show "repo_lookup t = repo_lookup s"
      by (simp add: repo_lookup_def fun_eq_iff) }
  { assume c: "PostgresStore_Create r s = (res, t)"
    have "steps (same fs_files) (PostgresStore_Create r :: ('z host_scheme, _) st)"
      "steps (same fs_dirs) (PostgresStore_Create r :: ('z host_scheme, _) st)"
      by (rule PostgresStore_Create_same; simp)+
    from this [THEN stepsE, OF c] show "fs_files t = fs_files s \<and> fs_dirs t = fs_dirs s"
      by (simp add: same_def) }
  { assume g: "PostgresStore_Get owner name s = (res, t)"
    have "steps (same repo_lookup) (PostgresStore_Get owner name :: ('z host_scheme, _) st)"
      by (rule PostgresStore_Get_same) (simp add: repo_lookup_def fun_eq_iff)
    from stepsE [OF this g] show "repo_lookup t = repo_lookup s" by (simp add: same_def) }
  { assume "PostgresStore_Get owner name s = (Inr x, t)"
    from PostgresStore_Get_Inr [OF this] show "repo_lookup s (owner, name) = Some x" . }
  show "repo_lookup (s\<lparr>fs_files := fs, fs_dirs := ds, io_faults := io\<rparr>) = repo_lookup s" for fs ds io
    by (simp add: repo_lookup_def fun_eq_iff)
qed

definition repo_service :: "string \<Rightarrow> (string \<Rightarrow> ('z host_scheme, goerr + unit) st)
    \<Rightarrow> 'z host_scheme repo_service" where
  "repo_service root init_bare =
     \<lparr>svc_store = Some postgres_store, svc_root = root, svc_git = Some init_bare\<rparr>"

text \<open>
  C12: Creating a repository, whatever database and file system calls fail on the way. On
  success the names were valid, the pair was free before, exactly this row was added to the
  map from owner and name, its path is the one the names determine and the directory is there;
  on any error the map is unchanged. The hypotheses on the initialiser are what \<open>git init\<close>
  documents: it makes the directory when it reports success; it does not reach the database.
\<close>

theorem create_repository_atomic:
  assumes "\<And>p w r' w'. init_bare p w = (r', w') \<Longrightarrow> repo_lookup w' = repo_lookup w"
    and "\<And>p w w'. init_bare p w = (Inr (), w') \<Longrightarrow> is_dir w' (fs_path p)"
    and "Service_Create (repo_service root init_bare) input s = (r, t)"
  shows "case r of
      Inl e \<Rightarrow> repo_lookup t = repo_lookup s
    | Inr x \<Rightarrow> repo_lookup s (inp_owner input, inp_name input) = None
        \<and> repo_lookup t = (repo_lookup s)((inp_owner input, inp_name input) \<mapsto> x)
        \<and> validName (inp_owner input) \<and> validName (inp_name input)
        \<and> repo_path x = repository_path root (inp_owner input) (inp_name input)
        \<and> is_dir t (fs_path (repo_path x))"
proof -
  have svc: "svc_store (repo_service root init_bare) = Some \<lparr>store_create = PostgresStore_Create,
      store_get = PostgresStore_Get, store_list = PostgresStore_List\<rparr>"
    "svc_git (repo_service root init_bare) = Some init_bare" "svc_root (repo_service root init_bare) = root"
    by (simp_all add: repo_service_def postgres_store_def)
  show ?thesis
    by (rule pg_repos.Service_Create_outcome [OF assms(1,2) svc(1,2) assms(3), unfolded svc(3)])
qed

text \<open>An initialiser that only makes the directory, for the witnesses.\<close>

definition demo_init :: "string \<Rightarrow> (host, goerr + unit) st" where
  "demo_init p s = (Inr (), s\<lparr>fs_dirs := fs_path p # fs_dirs s\<rparr>)"

lemma demo_create:
  "\<exists>x t. Service_Create (repo_service ''/srv'' demo_init) \<lparr>inp_owner = ''al'', inp_name = ''c''\<rparr>
     empty_host = (Inr x, t)"
  by (simp add: Service_Create_def validateName_def validName_def alnum_char_def name_char_def
      less_eq_char_def repo_service_def Let_def on_result_apply os_mkdir_all_def syscall_def empty_host_def
      db.defs host.defs file_at_def os_stat_def is_dir_def through_file_def path_join_def
      path_clean_def slash_def is_rooted_def has_prefix_def clean_components_def clean_step.simps
      fs_path_def demo_init_def postgres_store_def PostgresStore_Create_def pool_def empty_db_def
      stmt_insert_repository_def and_then_apply next_id_def)

theorem create_repository_atomic_witness:
  "\<exists>x t. Service_Create (repo_service ''/srv'' demo_init) \<lparr>inp_owner = ''al'', inp_name = ''c''\<rparr>
     empty_host = (Inr x, t) \<and> repo_lookup t (''al'', ''c'') = Some x"
proof -
  obtain x t where c: "Service_Create (repo_service ''/srv'' demo_init)
      \<lparr>inp_owner = ''al'', inp_name = ''c''\<rparr> empty_host = (Inr x, t)"
    using demo_create by blast
  have init: "repo_lookup w' = repo_lookup w" if "demo_init p w = (r', w')" for p w w' r'
    using that by (auto simp: demo_init_def repo_lookup_def fun_eq_iff)
  have dir: "is_dir w' (fs_path p)" if "demo_init p w = (Inr (), w')" for p w w'
    using that by (auto simp: demo_init_def is_dir_def)
  from create_repository_atomic [of demo_init, OF init dir c] c show ?thesis by auto
qed

lemma os_mkdir_all_free:
  assumes "io_calm s" and "\<forall>q. prefix q p \<longrightarrow> file_at s q = None"
  shows "os_mkdir_all p s =
    (Inr (), s\<lparr>fs_dirs := fs_dirs s @ filter (\<lambda>q. \<not> is_dir s q) (prefixes p)\<rparr>)"
  using assms by (auto simp: os_mkdir_all_def list_ex_iff)

lemma os_stat_free:
  assumes "io_calm s" and "\<forall>q. prefix q p \<longrightarrow> file_at s q = None"
  shows "os_stat p s = (if is_dir s p then Inr () else Inl (PathError ENOENT (path_text p)), s)"
  using assms by (auto simp: os_stat_def through_file_iff)

text \<open>On a free path \<open>Create\<close> makes the owner's directory and looks for the repository's.\<close>

lemma Service_Create_free:
  fixes s :: "'z host_scheme" and root owner name :: string
  assumes "io_calm s" and "validName owner" and "validName name"
    and free: "\<forall>q. prefix q (fs_path (repository_path root owner name)) \<longrightarrow> file_at s q = None"
  defines "s1 \<equiv> s\<lparr>fs_dirs := fs_dirs s @
      filter (\<lambda>q. \<not> is_dir s q) (prefixes (fs_path (path_join [root, owner])))\<rparr>"
  shows "is_dir s (fs_path (repository_path root owner name)) \<Longrightarrow>
      Service_Create (repo_service root init) \<lparr>inp_owner = owner, inp_name = name\<rparr> s =
      (Inl (Sentinel Repos_ErrAlreadyExists), s1)"
    and "\<not> is_dir s (fs_path (repository_path root owner name)) \<Longrightarrow>
      init (repository_path root owner name) s1 = (Inl e, t) \<Longrightarrow>
      Service_Create (repo_service root init) \<lparr>inp_owner = owner, inp_name = name\<rparr> s = (Inl e, t)"
proof -
  let ?rp = "repository_path root owner name" and ?od = "path_join [root, owner]"
  have "prefix (fs_path ?od) (fs_path ?rp)"
    using assms(2,3) by (simp add: repository_fs_path prefix_append)
  then have free': "\<forall>q. prefix q (fs_path ?od) \<longrightarrow> file_at s q = None"
    using free prefix_order.trans by blast
  have "fs_path ?rp \<notin> set (prefixes (fs_path ?od))"
    using assms(2,3) by (auto simp: repository_fs_path dest: prefix_length_le)
  then have dir: "is_dir s1 (fs_path ?rp) = is_dir s (fs_path ?rp)"
    by (simp add: s1_def is_dir_mkdir)
  have s1: "io_calm s1" "\<forall>q. prefix q (fs_path ?rp) \<longrightarrow> file_at s1 q = None"
    using assms(1) free by (simp_all add: s1_def)
  have step: "Service_Create (repo_service root init) \<lparr>inp_owner = owner, inp_name = name\<rparr> s =
    (if is_dir s (fs_path ?rp) then (Inl (Sentinel Repos_ErrAlreadyExists), s1)
     else on_result (init ?rp) fail
            (\<lambda>_. on_result
              (PostgresStore_Create
                \<lparr>repo_id = 0, repo_owner = owner, repo_name = name, repo_path = ?rp, repo_created = 0\<rparr>)
              (\<lambda>err. discard_result (os_remove_all (fs_path ?rp)) (fail err))
              (\<lambda>repository. ok repository)) s1)"
    using os_mkdir_all_free [OF assms(1) free'] os_stat_free [OF s1] dir assms(2,3)
    by (simp add: Service_Create_def repo_service_def postgres_store_def validateName_def Let_def
        on_result_apply repository_path_def [symmetric] s1_def [symmetric])
  show "is_dir s (fs_path ?rp) \<Longrightarrow>
      Service_Create (repo_service root init) \<lparr>inp_owner = owner, inp_name = name\<rparr> s =
      (Inl (Sentinel Repos_ErrAlreadyExists), s1)" by (simp add: step)
  show "\<not> is_dir s (fs_path ?rp) \<Longrightarrow> init ?rp s1 = (Inl e, t) \<Longrightarrow>
      Service_Create (repo_service root init) \<lparr>inp_owner = owner, inp_name = name\<rparr> s = (Inl e, t)"
    by (simp add: step on_result_apply)
qed

text \<open>
  An initialisation that fails after the directory was made is not cleaned up, as the failed
  insertion is: every later attempt to create the repository is refused as already existing,
  while \<open>Get\<close> keeps reporting that it does not exist.
\<close>

theorem failed_init_blocks_name:
  assumes "calm s" and "io_calm s" and "validName owner" and "validName name"
    and "repo_lookup s (owner, name) = None"
    and free: "\<forall>q. prefix q (fs_path (repository_path root owner name)) \<longrightarrow> file_at s q = None"
    and nd: "\<not> is_dir s (fs_path (repository_path root owner name))"
    and init: "\<And>p w. init_bare p w = (Inl e, w\<lparr>fs_dirs := fs_path p # fs_dirs w\<rparr>)"
  shows "\<exists>t. Service_Create (repo_service root init_bare) \<lparr>inp_owner = owner, inp_name = name\<rparr> s
        = (Inl e, t)
    \<and> fst (Service_Create (repo_service root init2) \<lparr>inp_owner = owner, inp_name = name\<rparr> t)
        = Inl (Sentinel Repos_ErrAlreadyExists)
    \<and> fst (Service_Get postgres_store owner name t) = Inl (Sentinel Repos_ErrNotFound)"
proof -
  let ?rp = "repository_path root owner name"
  obtain t ds where first: "Service_Create (repo_service root init_bare)
      \<lparr>inp_owner = owner, inp_name = name\<rparr> s = (Inl e, t)" and t: "t = s\<lparr>fs_dirs := fs_path ?rp # ds\<rparr>"
    using Service_Create_free(2) [OF assms(2-4) free nd init] by simp
  have t': "calm t" "io_calm t" "\<forall>q. prefix q (fs_path ?rp) \<longrightarrow> file_at t q = None"
    "is_dir t (fs_path ?rp)" "t_repositories t = t_repositories s"
    using assms(1,2) free by (simp_all add: t calm_def is_dir_def)
  have "fst (Service_Get postgres_store owner name t) = Inl (Sentinel Repos_ErrNotFound)"
    using t'(1,5) assms(3-5)
    by (simp add: Service_Get_def validateName_def postgres_store_def PostgresStore_Get_def
        on_result_apply stmt_select_repository_def repo_lookup_def)
  then show ?thesis
    using first Service_Create_free(1) [OF t'(2) assms(3,4) t'(3,4), of init2] by auto
qed

lemma empty_host_simps:
  "calm empty_host" "io_calm empty_host" "repo_lookup empty_host k = None"
  "file_at empty_host q = None" "fs_dirs empty_host = []" "clock empty_host = 0"
  by (simp_all add: empty_host_def calm_def io_calm_def repo_lookup_def file_at_def empty_db_def
      db.defs host.defs)

theorem failed_init_blocks_name_witness:
  "\<exists>(t :: host). fst (Service_Create (repo_service ''/srv'' demo_init)
       \<lparr>inp_owner = ''al'', inp_name = ''c''\<rparr> t) = Inl (Sentinel Repos_ErrAlreadyExists)
     \<and> fst (Service_Get postgres_store ''al'' ''c'' t) = Inl (Sentinel Repos_ErrNotFound)"
proof -
  have v: "validName ''al''" "validName ''c''"
    by (simp_all add: validName_def alnum_char_def name_char_def less_eq_char_def)
  have "\<not> is_dir empty_host (fs_path (repository_path ''/srv'' ''al'' ''c''))"
    unfolding repository_fs_path(1) [OF v] is_dir_def
    by (simp add: empty_host_simps append_eq_Cons_conv)
  then show ?thesis
    using failed_init_blocks_name [of empty_host "''al''" "''c''" "''/srv''"
        "\<lambda>p w. (Inl NoRows, w\<lparr>fs_dirs := fs_path p # fs_dirs w\<rparr>)" NoRows demo_init] v
    by (auto simp: empty_host_simps)
qed

section \<open>The invariant of the repositories table\<close>

text \<open>
  Unique ids below the next one of the sequence; accepted names, each pair once; the path is
  the one the names determine.
\<close>

definition repos_wf :: "string \<Rightarrow> 'z db_scheme \<Rightarrow> bool" where
  "repos_wf root s \<longleftrightarrow>
     distinct (map repo_id (t_repositories s)) \<and>
     distinct (map (\<lambda>r. (repo_owner r, repo_name r)) (t_repositories s)) \<and>
     (\<forall>r\<in>set (t_repositories s). repo_id r < next_ids s T_repositories
        \<and> validName (repo_owner r) \<and> validName (repo_name r)
        \<and> repo_path r = repository_path root (repo_owner r) (repo_name r))"

lemma repos_wf_faults: "repos_wf root s \<Longrightarrow> repos_wf root (s\<lparr>faults := fs\<rparr>)"
  by (simp add: repos_wf_def)

lemma stmt_insert_repos_wf:
  assumes "validName owner" and "validName name"
  shows "steps (keeps (repos_wf root))
    (stmt_insert_repository owner name (repository_path root owner name))"
  using assms
  by (intro stepsI)
    (force simp: keeps_def stmt_insert_repository_def and_then_apply next_id_def Let_def
      repos_wf_def list_ex_iff repo_key_def)

lemma PostgresStore_Create_repos_wf:
  assumes "validName owner" and "validName name"
  shows "steps (keeps (repos_wf root)) (PostgresStore_Create
    \<lparr>repo_id = i, repo_owner = owner, repo_name = name, repo_path = repository_path root owner name,
     repo_created = c\<rparr>)"
  unfolding PostgresStore_Create_def repository.simps
  by (intro step_rules steps_pool_keeps stmt_insert_repos_wf assms repos_wf_faults)

lemma syscall_repos_wf:
  assumes "\<And>s. t_repositories (snd (act s)) = t_repositories s"
    and "\<And>s. next_ids (snd (act s)) = next_ids s"
  shows "steps (keeps (repos_wf root)) (syscall act)"
proof -
  have "repos_wf root t = repos_wf root s"
    if "t_repositories t = t_repositories s" "next_ids t = next_ids s" for s t :: "'a host_scheme"
    by (simp only: repos_wf_def that)
  note eq = this
  have "repos_wf root (snd (act s)) = repos_wf root s" "repos_wf root (s\<lparr>io_faults := fs\<rparr>) = repos_wf root s"
    for s fs by (rule eq; simp add: assms)+
  then show ?thesis
    by (intro steps_syscall) (simp_all add: steps_def keeps_def)
qed

lemma os_repos_wf [step_rules]:
  "steps (keeps (repos_wf root)) (os_mkdir_all p)"
  "steps (keeps (repos_wf root)) (os_stat p)"
  "steps (keeps (repos_wf root)) (os_remove_all p)"
  unfolding os_mkdir_all_def os_stat_def os_remove_all_def
  by (rule syscall_repos_wf; simp)+

lemma Service_Create_repos_wf:
  assumes "\<And>p. steps (keeps (repos_wf root)) (init_bare p)"
  shows "steps (keeps (repos_wf root)) (Service_Create (repo_service root init_bare) input)"
  unfolding Service_Create_def repo_service_def postgres_store_def validateName_def
    repository_path_def [symmetric] Let_def
  by (simp only: repo_service.simps repo_store.simps option.case prod.case split: if_split)
    (intro conjI impI step_rules assms PostgresStore_Create_repos_wf; simp)

text \<open>
  The invariant of the repositories table holds initially and is kept by \<open>Service.Create\<close>
  for every input, whatever database and file system calls fail: ids and (owner, name) pairs
  stay unique, only accepted names are stored, each with its own isolated path.
\<close>

theorem repositories_invariant:
  assumes "\<And>p. steps (keeps (repos_wf root)) (init_bare p)"
  shows "repos_wf root empty_host
    \<and> steps (keeps (repos_wf root)) (Service_Create (repo_service root init_bare) input)"
  using Service_Create_repos_wf [OF assms] by (simp add: repos_wf_def empty_host_def empty_db_def db.defs)

theorem repositories_invariant_witness:
  "repos_wf ''/srv'' (snd (Service_Create (repo_service ''/srv'' demo_init)
     \<lparr>inp_owner = ''al'', inp_name = ''c''\<rparr> empty_host))"
proof -
  have "steps (keeps (repos_wf ''/srv'')) (demo_init p)" for p
    by (rule stepsI) (simp add: keeps_def demo_init_def repos_wf_def)
  note inv = repositories_invariant [of "''/srv''" demo_init, OF this]
  show ?thesis using inv stepsD [OF inv [THEN conjunct2], of empty_host] by (simp add: keeps_def)
qed

end
