(* ===== verification/Collab.thy ===== *)
theory Collab
  imports Schema Keyed_Store "HOL-Library.AList"
begin

text \<open>
  Package \<open>internal/collab\<close>: issues, comments, pull requests, reviews and branch protection
  over the tables issues, pull_requests, comments, reviews and branch_protection. Shown: the
  invariant of these tables under any failing calls, the state machine of a pull request, the
  numbering, the meaning of \<open>EvaluateMerge\<close>, and that protection rules are a keyed store.
\<close>

section \<open>Numbers (collab.go)\<close>

text \<open>\<open>isNoRows\<close> compares the text of the error.\<close>

definition isNoRows :: "goerr \<Rightarrow> bool" where
  "isNoRows err \<longleftrightarrow> err_text err = ''no rows in result set''"

definition issue_numbers :: "int \<Rightarrow> 'z db_scheme \<Rightarrow> int list" where
  "issue_numbers rid s =
     map (\<lambda>r. issue_number (row_data r)) (filter (\<lambda>r. row_repo r = rid) (t_issues s))"

definition pr_numbers :: "int \<Rightarrow> 'z db_scheme \<Rightarrow> int list" where
  "pr_numbers rid s =
     map (\<lambda>r. pr_number (row_data r)) (filter (\<lambda>r. row_repo r = rid) (t_pulls s))"

definition NextNumber :: "int \<Rightarrow> string \<Rightarrow> ('z db_scheme, goerr + int) st" where
  "NextNumber repositoryID table =
     (if table \<noteq> ''issues'' \<and> table \<noteq> ''pull_requests''
      then fail (ErrText (''unknown number sequence table '' @ go_quote table))
      else on_result
        (pool (\<lambda>s. (Inr (max_plus_one (if table = ''issues'' then issue_numbers repositoryID s
                                        else pr_numbers repositoryID s)), s)))
        (\<lambda>err. fail (wrap_err ''allocate number'' err))
        (\<lambda>number. ok number))"

section \<open>Issues (issues.go)\<close>

definition stmt_insert_issue ::
  "int \<Rightarrow> string \<Rightarrow> string \<Rightarrow> string \<Rightarrow> ('z db_scheme, goerr + int \<times> time \<times> time) st" where
  "stmt_insert_issue rid title body author =
     and_then (next_id T_issues) (\<lambda>i s.
       if \<not> repo_exists s rid then (Inl fk_violation, s)
       else
        (let n = max_plus_one (issue_numbers rid s);
             d = \<lparr>issue_number = n, issue_title = title, issue_body = body, issue_author = author,
                  issue_state = ''open'', issue_created = clock s, issue_updated = clock s\<rparr> in
         (Inr (n, clock s, clock s),
          s\<lparr>t_issues := t_issues s @ [\<lparr>row_id = i, row_repo = rid, row_data = d\<rparr>]\<rparr>)))"

definition CreateIssue ::
  "int \<Rightarrow> string \<Rightarrow> string \<Rightarrow> string \<Rightarrow> ('z db_scheme, goerr + issue) st" where
  "CreateIssue repositoryID author title body =
     on_result (pool (stmt_insert_issue repositoryID title body author))
       (\<lambda>err. fail (wrap_err ''insert issue'' err))
       (\<lambda>(n, created, updated). ok
          \<lparr>issue_number = n, issue_title = title, issue_body = body, issue_author = author,
           issue_state = ''open'', issue_created = created, issue_updated = updated\<rparr>)"

definition issue_key :: "int \<Rightarrow> int \<Rightarrow> issue row \<Rightarrow> bool" where
  "issue_key rid n r \<longleftrightarrow> row_repo r = rid \<and> issue_number (row_data r) = n"

text \<open>\<open>ORDER BY number DESC\<close>; the filter is only applied for a known state.\<close>

definition stmt_list_issues :: "int \<Rightarrow> string option \<Rightarrow> ('z db_scheme, goerr + issue list) st" where
  "stmt_list_issues rid state s =
     (Inr (sort_key (\<lambda>d. - issue_number d)
        (filter (\<lambda>d. case state of None \<Rightarrow> True | Some x \<Rightarrow> issue_state d = x)
          (map row_data (filter (\<lambda>r. row_repo r = rid) (t_issues s))))), s)"

definition ListIssues :: "int \<Rightarrow> string \<Rightarrow> ('z db_scheme, goerr + issue list) st" where
  "ListIssues repositoryID state =
     on_result (pool (stmt_list_issues repositoryID
         (if state = ''open'' \<or> state = ''closed'' then Some state else None)))
       (\<lambda>err. fail (wrap_err ''list issues'' err))
       (\<lambda>issues. ok issues)"

definition stmt_select_issue :: "int \<Rightarrow> int \<Rightarrow> ('z db_scheme, goerr + issue) st" where
  "stmt_select_issue rid n s =
     (case List.find (issue_key rid n) (t_issues s) of
        None \<Rightarrow> Inl NoRows | Some r \<Rightarrow> Inr (row_data r), s)"

definition GetIssue :: "int \<Rightarrow> int \<Rightarrow> ('z db_scheme, goerr + issue) st" where
  "GetIssue repositoryID number =
     on_result (pool (stmt_select_issue repositoryID number))
       (\<lambda>err. if isNoRows err then fail (Sentinel Collab_ErrNotFound)
              else fail (wrap_err ''get issue'' err))
       (\<lambda>issue. ok issue)"

definition stmt_update_issue :: "int \<Rightarrow> int \<Rightarrow> string \<Rightarrow> ('z db_scheme, goerr + issue) st" where
  "stmt_update_issue rid n state s =
     (let rows = update_rows (issue_key rid n)
            (\<lambda>r. r\<lparr>row_data := (row_data r)\<lparr>issue_state := state, issue_updated := clock s\<rparr>\<rparr>)
            (t_issues s) in
      case List.find (issue_key rid n) rows of
        None \<Rightarrow> (Inl NoRows, s)
      | Some r \<Rightarrow> (Inr (row_data r), s\<lparr>t_issues := rows\<rparr>))"

definition SetIssueState :: "int \<Rightarrow> int \<Rightarrow> string \<Rightarrow> ('z db_scheme, goerr + issue) st" where
  "SetIssueState repositoryID number state =
     (if state \<noteq> ''open'' \<and> state \<noteq> ''closed'' then fail (Sentinel Collab_ErrInvalidState)
      else on_result (pool (stmt_update_issue repositoryID number state))
        (\<lambda>err. if isNoRows err then fail (Sentinel Collab_ErrNotFound)
               else fail (wrap_err ''update issue state'' err))
        (\<lambda>issue. ok issue))"

definition stmt_insert_comment ::
  "int \<Rightarrow> string \<Rightarrow> int \<Rightarrow> string \<Rightarrow> string \<Rightarrow> ('z db_scheme, goerr + comment) st" where
  "stmt_insert_comment rid kind n author body =
     and_then (next_id T_comments) (\<lambda>i s.
       if \<not> repo_exists s rid then (Inl fk_violation, s)
       else
        (let c = \<lparr>cmt_id = i, cmt_author = author, cmt_body = body, cmt_created = clock s\<rparr> in
         (Inr c, s\<lparr>t_comments := t_comments s @
            [\<lparr>crow_repo = rid, crow_subject_type = kind, crow_subject_number = n,
              crow_comment = c\<rparr>]\<rparr>)))"

definition AddComment ::
  "int \<Rightarrow> string \<Rightarrow> int \<Rightarrow> string \<Rightarrow> string \<Rightarrow> ('z db_scheme, goerr + comment) st" where
  "AddComment repositoryID subjectType subjectNumber author body =
     (if subjectType \<noteq> ''issue'' \<and> subjectType \<noteq> ''pull_request''
      then fail (Sentinel Collab_ErrInvalidState)
      else on_result (pool (stmt_insert_comment repositoryID subjectType subjectNumber author body))
        (\<lambda>err. fail (wrap_err ''insert comment'' err))
        (\<lambda>comment. ok comment))"

text \<open>\<open>ORDER BY created_at ASC, id ASC\<close>.\<close>

definition stmt_list_comments ::
  "int \<Rightarrow> string \<Rightarrow> int \<Rightarrow> ('z db_scheme, goerr + comment list) st" where
  "stmt_list_comments rid kind n s =
     (Inr (sort_key cmt_created (sort_key cmt_id
        (map crow_comment (filter (\<lambda>r. crow_repo r = rid \<and> crow_subject_type r = kind
            \<and> crow_subject_number r = n) (t_comments s))))), s)"

definition ListComments ::
  "int \<Rightarrow> string \<Rightarrow> int \<Rightarrow> ('z db_scheme, goerr + comment list) st" where
  "ListComments repositoryID subjectType subjectNumber =
     on_result (pool (stmt_list_comments repositoryID subjectType subjectNumber))
       (\<lambda>err. fail (wrap_err ''list comments'' err))
       (\<lambda>comments. ok comments)"

section \<open>Pull requests and reviews (pull_requests.go)\<close>

definition stmt_insert_pull ::
  "int \<Rightarrow> string \<Rightarrow> string \<Rightarrow> string \<Rightarrow> string \<Rightarrow> string
    \<Rightarrow> ('z db_scheme, goerr + int \<times> time \<times> time) st" where
  "stmt_insert_pull rid title body author source target =
     and_then (next_id T_pull_requests) (\<lambda>i s.
       if \<not> repo_exists s rid then (Inl fk_violation, s)
       else
        (let n = max_plus_one (pr_numbers rid s);
             d = \<lparr>pr_number = n, pr_title = title, pr_body = body, pr_author = author,
                  pr_state = ''open'', pr_source = source, pr_target = target,
                  pr_merge_commit = None, pr_created = clock s, pr_updated = clock s\<rparr> in
         (Inr (n, clock s, clock s),
          s\<lparr>t_pulls := t_pulls s @ [\<lparr>row_id = i, row_repo = rid, row_data = d\<rparr>]\<rparr>)))"

definition CreatePullRequest ::
  "int \<Rightarrow> string \<Rightarrow> string \<Rightarrow> string \<Rightarrow> string \<Rightarrow> string \<Rightarrow> ('z db_scheme, goerr + pull_request) st"
  where
  "CreatePullRequest repositoryID author title body sourceBranch targetBranch =
     on_result (pool (stmt_insert_pull repositoryID title body author sourceBranch targetBranch))
       (\<lambda>err. fail (wrap_err ''insert pull request'' err))
       (\<lambda>(n, created, updated). ok
          \<lparr>pr_number = n, pr_title = title, pr_body = body, pr_author = author,
           pr_state = ''open'', pr_source = sourceBranch, pr_target = targetBranch,
           pr_merge_commit = None, pr_created = created, pr_updated = updated\<rparr>)"

definition pull_key :: "int \<Rightarrow> int \<Rightarrow> pull_request row \<Rightarrow> bool" where
  "pull_key rid n r \<longleftrightarrow> row_repo r = rid \<and> pr_number (row_data r) = n"

definition stmt_list_pulls ::
  "int \<Rightarrow> string option \<Rightarrow> ('z db_scheme, goerr + pull_request list) st" where
  "stmt_list_pulls rid state s =
     (Inr (sort_key (\<lambda>d. - pr_number d)
        (filter (\<lambda>d. case state of None \<Rightarrow> True | Some x \<Rightarrow> pr_state d = x)
          (map row_data (filter (\<lambda>r. row_repo r = rid) (t_pulls s))))), s)"

definition ListPullRequests :: "int \<Rightarrow> string \<Rightarrow> ('z db_scheme, goerr + pull_request list) st" where
  "ListPullRequests repositoryID state =
     on_result (pool (stmt_list_pulls repositoryID
         (if state = ''open'' \<or> state = ''merged'' \<or> state = ''closed'' then Some state else None)))
       (\<lambda>err. fail (wrap_err ''list pull requests'' err))
       (\<lambda>prs. ok prs)"

definition stmt_select_pull :: "int \<Rightarrow> int \<Rightarrow> ('z db_scheme, goerr + pull_request row) st" where
  "stmt_select_pull rid n s =
     (case List.find (pull_key rid n) (t_pulls s) of None \<Rightarrow> Inl NoRows | Some r \<Rightarrow> Inr r, s)"

text \<open>The error branch of \<open>scanPullRequest\<close>.\<close>

definition scan_pull_err :: "goerr \<Rightarrow> goerr" where
  "scan_pull_err err =
     (if isNoRows err then Sentinel Collab_ErrNotFound else wrap_err ''scan pull request'' err)"

definition GetPullRequest :: "int \<Rightarrow> int \<Rightarrow> ('z db_scheme, goerr + pull_request) st" where
  "GetPullRequest repositoryID number =
     on_result (pool (stmt_select_pull repositoryID number))
       (\<lambda>err. fail (scan_pull_err err))
       (\<lambda>r. ok (row_data r))"

definition stmt_update_pull ::
  "int \<Rightarrow> int \<Rightarrow> string \<Rightarrow> string option \<Rightarrow> ('z db_scheme, goerr + pull_request) st" where
  "stmt_update_pull rid n state merge s =
     (let hit = (\<lambda>r. pull_key rid n r \<and> pr_state (row_data r) = ''open'') in
      case List.find hit (t_pulls s) of
        None \<Rightarrow> (Inl NoRows, s)
      | Some r \<Rightarrow>
          (let upd = (\<lambda>r. r\<lparr>row_data := (row_data r)\<lparr>pr_state := state, pr_merge_commit := merge,
                              pr_updated := clock s\<rparr>\<rparr>) in
           (Inr (row_data (upd r)), s\<lparr>t_pulls := update_rows hit upd (t_pulls s)\<rparr>)))"

definition SetPullRequestState ::
  "int \<Rightarrow> int \<Rightarrow> string \<Rightarrow> string \<Rightarrow> ('z db_scheme, goerr + pull_request) st" where
  "SetPullRequestState repositoryID number state mergeCommit =
     (if state \<noteq> ''merged'' \<and> state \<noteq> ''closed'' then fail (Sentinel Collab_ErrInvalidState)
      else
        let merge = (if mergeCommit \<noteq> [] then Some mergeCommit else None) in
        on_result (pool (stmt_update_pull repositoryID number state merge))
          (\<lambda>err. if isNoRows err then
               on_result (GetPullRequest repositoryID number)
                 (\<lambda>_. fail (Sentinel Collab_ErrNotFound))
                 (\<lambda>_. fail (Sentinel Collab_ErrNotMergeable))
             else fail (wrap_err ''update pull request state'' err))
          (\<lambda>pr. ok pr))"

definition valid_verdict :: "string \<Rightarrow> bool" where
  "valid_verdict v \<longleftrightarrow> v = ''approved'' \<or> v = ''changes_requested'' \<or> v = ''commented''"

definition review_key :: "int \<Rightarrow> string \<Rightarrow> review_row \<Rightarrow> bool" where
  "review_key pull reviewer r \<longleftrightarrow> rrow_pull r = pull \<and> rev_reviewer (rrow_review r) = reviewer"

definition stmt_upsert_review ::
  "int \<Rightarrow> string \<Rightarrow> string \<Rightarrow> string \<Rightarrow> ('z db_scheme, goerr + review) st" where
  "stmt_upsert_review pull reviewer verdict body =
     and_then (next_id T_reviews) (\<lambda>i s.
       if pull \<notin> row_id ` set (t_pulls s) then (Inl fk_violation, s)
       else
        (let d = \<lparr>rev_reviewer = reviewer, rev_verdict = verdict, rev_body = body,
                  rev_created = clock s\<rparr> in
         (Inr d, s\<lparr>t_reviews := upsert_row (review_key pull reviewer)
              (\<lambda>r. r\<lparr>rrow_review := d\<rparr>)
              \<lparr>rrow_id = i, rrow_pull = pull, rrow_review = d\<rparr> (t_reviews s)\<rparr>)))"

definition UpsertReview ::
  "int \<Rightarrow> int \<Rightarrow> string \<Rightarrow> string \<Rightarrow> string \<Rightarrow> ('z db_scheme, goerr + review) st" where
  "UpsertReview repositoryID prNumber reviewer verdict body =
     (if \<not> (verdict = ''approved'' \<or> verdict = ''changes_requested'' \<or> verdict = ''commented'')
      then fail (Sentinel Collab_ErrInvalidState)
      else on_result (GetPullRequest repositoryID prNumber) fail
        (\<lambda>pr. if pr_state pr = ''merged'' \<or> pr_state pr = ''closed''
          then fail (Sentinel Collab_ErrNotMergeable)
          else on_result (pool (stmt_select_pull repositoryID prNumber))
            (\<lambda>err. if isNoRows err then fail (Sentinel Collab_ErrNotFound)
                   else fail (wrap_err ''resolve pull request id'' err))
            (\<lambda>row. on_result (pool (stmt_upsert_review (row_id row) reviewer verdict body))
              (\<lambda>err. fail (wrap_err ''upsert review'' err))
              (\<lambda>review. ok review))))"

text \<open>The join of reviews and pull_requests, \<open>ORDER BY created_at ASC\<close>.\<close>

definition pull_reviews :: "int \<Rightarrow> int \<Rightarrow> 'z db_scheme \<Rightarrow> review list" where
  "pull_reviews rid n s =
     map rrow_review (filter (\<lambda>r. \<exists>p\<in>set (t_pulls s). row_id p = rrow_pull r \<and> pull_key rid n p)
       (t_reviews s))"

definition stmt_list_reviews :: "int \<Rightarrow> int \<Rightarrow> ('z db_scheme, goerr + review list) st" where
  "stmt_list_reviews rid n s = (Inr (sort_key rev_created (pull_reviews rid n s)), s)"

definition ListReviews :: "int \<Rightarrow> int \<Rightarrow> ('z db_scheme, goerr + review list) st" where
  "ListReviews repositoryID prNumber =
     on_result (pool (stmt_list_reviews repositoryID prNumber))
       (\<lambda>err. fail (wrap_err ''list reviews'' err))
       (\<lambda>reviews. ok reviews)"

section \<open>Branch protection (protection.go)\<close>

definition protection_key :: "int \<Rightarrow> string \<Rightarrow> protection_row \<Rightarrow> bool" where
  "protection_key rid branch r \<longleftrightarrow> prow_repo r = rid \<and> bp_branch (prow_rule r) = branch"

text \<open>The column required_approvals is a 32-bit \<open>INT\<close>.\<close>

definition max_int32 :: int where "max_int32 = 2147483647"

definition stmt_upsert_protection ::
  "int \<Rightarrow> branch_protection \<Rightarrow> ('z db_scheme, goerr + unit) st" where
  "stmt_upsert_protection rid p s =
     (if bp_required_approvals p > max_int32
      then (Inl (ErrText (int_str (bp_required_approvals p) @
              '' is greater than maximum value for int4'')), s)
      else if \<not> repo_exists s rid then (Inl fk_violation, s)
      else (Inr (), s\<lparr>t_protections := upsert_row (protection_key rid (bp_branch p))
              (\<lambda>r. r\<lparr>prow_rule := p\<rparr>) \<lparr>prow_repo = rid, prow_rule = p\<rparr> (t_protections s)\<rparr>))"

definition SetBranchProtection ::
  "int \<Rightarrow> branch_protection \<Rightarrow> ('z db_scheme, goerr + unit) st" where
  "SetBranchProtection repositoryID protection =
     (if bp_branch protection = [] then fail (ErrText ''branch name is required'')
      else if bp_required_approvals protection < 0
      then fail (ErrText ''required_approvals must be >= 0'')
      else on_result (pool (stmt_upsert_protection repositoryID protection))
        (\<lambda>err. fail (wrap_err ''set branch protection'' err))
        (\<lambda>_. ok ()))"

definition stmt_select_protection ::
  "int \<Rightarrow> string \<Rightarrow> ('z db_scheme, goerr + branch_protection) st" where
  "stmt_select_protection rid branch s =
     (case List.find (protection_key rid branch) (t_protections s) of
        None \<Rightarrow> Inl NoRows | Some r \<Rightarrow> Inr (prow_rule r), s)"

definition GetBranchProtection ::
  "int \<Rightarrow> string \<Rightarrow> ('z db_scheme, goerr + branch_protection) st" where
  "GetBranchProtection repositoryID branch =
     on_result (pool (stmt_select_protection repositoryID branch))
       (\<lambda>err. if isNoRows err then fail (Sentinel Collab_ErrNotFound)
              else fail (wrap_err ''get branch protection'' err))
       (\<lambda>protection. ok protection)"

text \<open>The result of the statement is the number of deleted rows.\<close>

definition stmt_delete_protection :: "int \<Rightarrow> string \<Rightarrow> ('z db_scheme, goerr + nat) st" where
  "stmt_delete_protection rid branch s =
     (Inr (length (filter (protection_key rid branch) (t_protections s))),
      s\<lparr>t_protections := delete_rows (protection_key rid branch) (t_protections s)\<rparr>)"

definition DeleteBranchProtection :: "int \<Rightarrow> string \<Rightarrow> ('z db_scheme, goerr + unit) st" where
  "DeleteBranchProtection repositoryID branch =
     on_result (pool (stmt_delete_protection repositoryID branch))
       (\<lambda>err. fail (wrap_err ''delete branch protection'' err))
       (\<lambda>affected. if affected = 0 then fail (Sentinel Collab_ErrNotFound) else ok ())"

record merge_check =
  mc_mergable :: bool
  mc_blockers :: "string list"
  mc_required :: int
  mc_current :: int

text \<open>The maps \<open>latest\<close> (last verdict of each reviewer) and the count of approvals in it.\<close>

definition latest_verdicts :: "review list \<Rightarrow> (string \<times> string) list" where
  "latest_verdicts reviews =
     fold (\<lambda>r m. AList.update (rev_reviewer r) (rev_verdict r) m) reviews []"

definition count_approvals :: "review list \<Rightarrow> int" where
  "count_approvals reviews =
     int (length (filter (\<lambda>(_, v). v = ''approved'') (latest_verdicts reviews)))"

definition approvals_blocker :: "int \<Rightarrow> int \<Rightarrow> string" where
  "approvals_blocker required current =
     ''requires '' @ int_str required @ '' approvals, has '' @ int_str current"

definition EvaluateMerge :: "int \<Rightarrow> int \<Rightarrow> ('z db_scheme, goerr + merge_check) st" where
  "EvaluateMerge repositoryID prNumber =
     on_result (GetPullRequest repositoryID prNumber) fail
       (\<lambda>pr. let blockers = (if pr_state pr \<noteq> ''open'' then [''pull request is not open''] else []) in
         and_then (GetBranchProtection repositoryID (pr_target pr)) (\<lambda>protection.
           let required = (case protection of Inl _ \<Rightarrow> 0 | Inr p \<Rightarrow> bp_required_approvals p) in
           on_result (ListReviews repositoryID prNumber) fail
             (\<lambda>reviews.
               let current = count_approvals reviews;
                   blockers' = (if current < required
                     then blockers @ [approvals_blocker required current] else blockers) in
               ok \<lparr>mc_mergable = (blockers' = []), mc_blockers = blockers',
                   mc_required = required, mc_current = current\<rparr>)))"

section \<open>The invariant of the collaboration tables\<close>

text \<open>
  Within a repository issues, and independently pull requests, are numbered 1, 2, 3, ... in
  the order they were opened; states and verdicts are the known ones; an open pull request has
  no merge commit; row ids of pull requests are unique and reviews refer to existing ones, one
  review per reviewer; rules have a branch and an approval count that fits its column; and all
  rows belong to an existing repository.
\<close>

definition dense :: "int list \<Rightarrow> bool" where
  "dense ns \<longleftrightarrow> ns = [1..int (length ns)]"

definition issues_wf :: "'z db_scheme \<Rightarrow> bool" where
  "issues_wf s \<longleftrightarrow> (\<forall>rid. dense (issue_numbers rid s)) \<and>
     (\<forall>r\<in>set (t_issues s). repo_exists s (row_repo r) \<and> issue_state (row_data r) \<in> {''open'', ''closed''})"

definition pulls_wf :: "'z db_scheme \<Rightarrow> bool" where
  "pulls_wf s \<longleftrightarrow> (\<forall>rid. dense (pr_numbers rid s)) \<and> distinct (map row_id (t_pulls s)) \<and>
     (\<forall>r\<in>set (t_pulls s). repo_exists s (row_repo r) \<and> row_id r < next_ids s T_pull_requests
        \<and> pr_state (row_data r) \<in> {''open'', ''merged'', ''closed''}
        \<and> (pr_state (row_data r) = ''open'' \<longrightarrow> pr_merge_commit (row_data r) = None))"

definition reviews_wf :: "'z db_scheme \<Rightarrow> bool" where
  "reviews_wf s \<longleftrightarrow>
     distinct (map (\<lambda>r. (rrow_pull r, rev_reviewer (rrow_review r))) (t_reviews s)) \<and>
     (\<forall>r\<in>set (t_reviews s). rrow_pull r \<in> row_id ` set (t_pulls s)
        \<and> valid_verdict (rev_verdict (rrow_review r)))"

definition comments_wf :: "'z db_scheme \<Rightarrow> bool" where
  "comments_wf s \<longleftrightarrow>
     (\<forall>r\<in>set (t_comments s). repo_exists s (crow_repo r)
        \<and> crow_subject_type r \<in> {''issue'', ''pull_request''})"

definition rule_ok :: "branch_protection \<Rightarrow> bool" where
  "rule_ok p \<longleftrightarrow> bp_branch p \<noteq> [] \<and> 0 \<le> bp_required_approvals p
     \<and> bp_required_approvals p \<le> max_int32"

definition protections_wf :: "'z db_scheme \<Rightarrow> bool" where
  "protections_wf s \<longleftrightarrow>
     distinct (map (\<lambda>r. (prow_repo r, bp_branch (prow_rule r))) (t_protections s)) \<and>
     (\<forall>r\<in>set (t_protections s). repo_exists s (prow_repo r) \<and> rule_ok (prow_rule r))"

definition collab_wf :: "'z db_scheme \<Rightarrow> bool" where
  "collab_wf s \<longleftrightarrow> issues_wf s \<and> pulls_wf s \<and> reviews_wf s \<and> comments_wf s \<and> protections_wf s"

lemmas collab_wf_defs = collab_wf_def issues_wf_def pulls_wf_def reviews_wf_def comments_wf_def
  protections_wf_def repo_exists_def issue_numbers_def pr_numbers_def

text \<open>The invariant only reads its own tables, the repositories and the id sequence.\<close>

lemma collab_wf_cong:
  assumes "t_issues t = t_issues s" "t_pulls t = t_pulls s" "t_reviews t = t_reviews s"
    "t_comments t = t_comments s" "t_protections t = t_protections s"
    "t_repositories t = t_repositories s" "next_ids s T_pull_requests \<le> next_ids t T_pull_requests"
    and "collab_wf s"
  shows "collab_wf t"
proof -
  have "row_id r < next_ids t T_pull_requests" if "r \<in> set (t_pulls s)" for r
    using assms(7,8) that by (force simp: collab_wf_def pulls_wf_def)
  then show ?thesis
    using assms(8) by (simp add: collab_wf_defs assms(1-6))
qed

lemma collab_wf_faults: "collab_wf s \<Longrightarrow> collab_wf (s\<lparr>faults := fs\<rparr>)"
  by (rule collab_wf_cong) simp_all

lemmas steps_pool_collab_wf [step_rules] = steps_pool_keeps [where P = collab_wf, OF _ collab_wf_faults]

lemma keeps_readonly: "(\<And>s. snd (m s) = s) \<Longrightarrow> steps (keeps P) m"
  by (simp add: steps_def keeps_def)

lemma collab_reads_keep [step_rules]:
  "steps (keeps P) (stmt_list_issues rid st)" "steps (keeps P) (stmt_select_issue rid n)"
  "steps (keeps P) (stmt_list_comments rid k n)" "steps (keeps P) (stmt_list_pulls rid st)"
  "steps (keeps P) (stmt_select_pull rid n)" "steps (keeps P) (stmt_list_reviews rid n)"
  "steps (keeps P) (stmt_select_protection rid b)"
  by (rule keeps_readonly; simp add: stmt_list_issues_def stmt_select_issue_def
      stmt_list_comments_def stmt_list_pulls_def stmt_select_pull_def stmt_list_reviews_def
      stmt_select_protection_def)+

subsection \<open>Numbers\<close>

lemma dense_max: "dense ns \<Longrightarrow> max_plus_one ns = int (length ns) + 1"
proof -
  have "foldr max [1..int n] 0 = int n" for n
  proof (induction n)
    case (Suc n)
    have "foldr max xs (max x 0) = max x (foldr max xs 0)" for xs and x :: int
      by (induction xs) auto
    moreover have "[1..int (Suc n)] = [1..int n] @ [int n + 1]"
      using upto_rec2 [of 1 "int n + 1"] by (simp add: add.commute)
    ultimately have "foldr max [1..int (Suc n)] 0 = max (int n + 1) (foldr max [1..int n] 0)"
      by (simp only: foldr_append foldr.simps comp_apply id_apply)
    then show ?case using Suc by simp
  qed simp
  then show "dense ns \<Longrightarrow> ?thesis"
    unfolding max_plus_one_def dense_def by (metis add.commute)
qed

lemma dense_snoc:
  assumes "dense ns"
  shows "dense (ns @ [max_plus_one ns])"
proof -
  have "[1..int (length ns) + 1] = [1..int (length ns)] @ [int (length ns) + 1]"
    using upto_rec2 [of 1 "int (length ns) + 1"] by simp
  then show ?thesis
    using assms dense_max [OF assms] by (simp add: dense_def add.commute)
qed

lemma dense_distinct: "dense ns \<Longrightarrow> distinct ns"
  unfolding dense_def by (metis distinct_upto)

lemma distinct_by_repo:
  assumes "\<And>rid. distinct (map g (filter (\<lambda>r. row_repo r = rid) rows))"
  shows "distinct (map (\<lambda>r. (row_repo r, g r)) rows)"
  using assms
proof (induction rows)
  case (Cons r rows)
  have "distinct (map g (filter (\<lambda>x. row_repo x = rid) rows))" for rid
    using Cons.prems [of rid] by (simp split: if_splits)
  moreover have "(row_repo r, g r) \<notin> (\<lambda>r. (row_repo r, g r)) ` set rows"
    using Cons.prems [of "row_repo r"] by auto
  ultimately show ?case using Cons.IH by simp
qed simp

lemma pull_unique:
  assumes "pulls_wf s" and "r \<in> set (t_pulls s)" and "q \<in> set (t_pulls s)"
    and "pull_key rid n r" and "pull_key rid n q"
  shows "q = r"
proof -
  have "distinct (map (\<lambda>r. (row_repo r, pr_number (row_data r))) (t_pulls s))"
    using assms(1) by (intro distinct_by_repo)
      (simp add: pulls_wf_def dense_distinct flip: pr_numbers_def)
  then have "inj_on (\<lambda>r. (row_repo r, pr_number (row_data r))) (set (t_pulls s))"
    by (simp add: distinct_map)
  from inj_onD [OF this _ assms(3,2)] show ?thesis
    using assms(4,5) by (simp add: pull_key_def)
qed

lemma find_pull:
  assumes "pulls_wf s" and "r \<in> set (t_pulls s)" and "pull_key rid n r"
  shows "List.find (pull_key rid n) (t_pulls s) = Some r"
  by (rule find_eq_SomeI) (use assms pull_unique [OF assms(1,2)] in blast)+

lemma issue_unique:
  assumes "issues_wf s" and "r \<in> set (t_issues s)" and "q \<in> set (t_issues s)"
    and "issue_key rid n r" and "issue_key rid n q"
  shows "q = r"
proof -
  have "distinct (map (\<lambda>r. (row_repo r, issue_number (row_data r))) (t_issues s))"
    using assms(1) by (intro distinct_by_repo)
      (simp add: issues_wf_def dense_distinct flip: issue_numbers_def)
  then have "inj_on (\<lambda>r. (row_repo r, issue_number (row_data r))) (set (t_issues s))"
    by (simp add: distinct_map)
  from inj_onD [OF this _ assms(3,2)] show ?thesis
    using assms(4,5) by (simp add: issue_key_def)
qed

subsection \<open>Every statement keeps the invariant\<close>

lemma stmt_insert_issue_wf [step_rules]: "steps (keeps collab_wf) (stmt_insert_issue rid t b a)"
proof (rule stepsI)
  fix s :: "'a db_scheme"
  let ?t = "snd (stmt_insert_issue rid t b a s)"
  show "keeps collab_wf s ?t"
  proof (cases "collab_wf s \<and> repo_exists s rid")
    case True
    have nums: "issue_numbers q ?t = (if q = rid
        then issue_numbers q s @ [max_plus_one (issue_numbers q s)] else issue_numbers q s)" for q
      using True by (simp add: stmt_insert_issue_def and_then_apply next_id_def repo_exists_def
          issue_numbers_def Let_def)
    have "issues_wf ?t"
      unfolding issues_wf_def
    proof (intro conjI)
      show "\<forall>q. dense (issue_numbers q ?t)"
        using True by (simp add: nums collab_wf_def issues_wf_def dense_snoc)
      show "\<forall>r\<in>set (t_issues ?t). repo_exists ?t (row_repo r) \<and>
          issue_state (row_data r) \<in> {''open'', ''closed''}"
        using True by (auto simp: stmt_insert_issue_def and_then_apply next_id_def repo_exists_def
            Let_def collab_wf_def issues_wf_def)
    qed
    moreover have "pulls_wf ?t \<and> reviews_wf ?t \<and> comments_wf ?t \<and> protections_wf ?t"
      using True by (simp add: stmt_insert_issue_def and_then_apply next_id_def Let_def
          collab_wf_defs)
    ultimately show ?thesis by (simp add: keeps_def collab_wf_def)
  next
    case False
    then show ?thesis
      by (auto simp: keeps_def stmt_insert_issue_def and_then_apply next_id_def repo_exists_def
          intro: collab_wf_cong [of _ s])
  qed
qed

lemma stmt_update_issue_wf [step_rules]:
  assumes "state = ''open'' \<or> state = ''closed''"
  shows "steps (keeps collab_wf) (stmt_update_issue rid n state)"
proof (rule stepsI)
  fix s :: "'a db_scheme"
  let ?f = "\<lambda>r. r\<lparr>row_data := (row_data r)\<lparr>issue_state := state, issue_updated := clock s\<rparr>\<rparr>"
  let ?rows = "update_rows (issue_key rid n) ?f (t_issues s)"
  have nums: "map (\<lambda>r. issue_number (row_data r)) (filter (\<lambda>r. row_repo r = q) (update_rows p ?f rs)) =
      map (\<lambda>r. issue_number (row_data r)) (filter (\<lambda>r. row_repo r = q) rs)" for p q rs
    by (induction rs) (auto simp: update_rows_def)
  have "collab_wf (s\<lparr>t_issues := ?rows\<rparr>)" if "collab_wf s"
    using that assms
    by (auto simp: collab_wf_defs nums set_update_rows)
  then show "keeps collab_wf s (snd (stmt_update_issue rid n state s))"
    by (simp add: keeps_def stmt_update_issue_def Let_def split: option.split)
qed

lemma stmt_insert_comment_wf [step_rules]:
  assumes "kind = ''issue'' \<or> kind = ''pull_request''"
  shows "steps (keeps collab_wf) (stmt_insert_comment rid kind n a b)"
  using assms
  by (intro stepsI)
    (auto simp: keeps_def stmt_insert_comment_def and_then_apply next_id_def Let_def collab_wf_defs)

lemma stmt_insert_pull_wf [step_rules]: "steps (keeps collab_wf) (stmt_insert_pull rid t b a src tgt)"
proof (rule stepsI)
  fix s :: "'a db_scheme"
  let ?t = "snd (stmt_insert_pull rid t b a src tgt s)"
  show "keeps collab_wf s ?t"
  proof (cases "collab_wf s \<and> repo_exists s rid")
    case True
    have nums: "pr_numbers q ?t = (if q = rid
        then pr_numbers q s @ [max_plus_one (pr_numbers q s)] else pr_numbers q s)" for q
      using True by (simp add: stmt_insert_pull_def and_then_apply next_id_def repo_exists_def
          pr_numbers_def Let_def)
    have new: "next_ids s T_pull_requests \<notin> row_id ` set (t_pulls s)"
      using True by (auto simp: collab_wf_def pulls_wf_def)
    have "pulls_wf ?t"
      unfolding pulls_wf_def
    proof (intro conjI)
      show "\<forall>q. dense (pr_numbers q ?t)"
        using True by (simp add: nums collab_wf_def pulls_wf_def dense_snoc)
      show "distinct (map row_id (t_pulls ?t))"
        using True new by (simp add: stmt_insert_pull_def and_then_apply next_id_def
            repo_exists_def Let_def collab_wf_def pulls_wf_def)
      show "\<forall>r\<in>set (t_pulls ?t). repo_exists ?t (row_repo r)
          \<and> row_id r < next_ids ?t T_pull_requests
          \<and> pr_state (row_data r) \<in> {''open'', ''merged'', ''closed''}
          \<and> (pr_state (row_data r) = ''open'' \<longrightarrow> pr_merge_commit (row_data r) = None)"
        using True by (force simp: stmt_insert_pull_def and_then_apply next_id_def repo_exists_def
            Let_def collab_wf_def pulls_wf_def)
    qed
    moreover have "issues_wf ?t \<and> reviews_wf ?t \<and> comments_wf ?t \<and> protections_wf ?t"
      using True by (auto simp: stmt_insert_pull_def and_then_apply next_id_def Let_def
          collab_wf_defs)
    ultimately show ?thesis by (simp add: keeps_def collab_wf_def)
  next
    case False
    then show ?thesis
      by (auto simp: keeps_def stmt_insert_pull_def and_then_apply next_id_def repo_exists_def
          intro: collab_wf_cong [of _ s])
  qed
qed

lemma stmt_update_pull_wf [step_rules]:
  assumes "state = ''merged'' \<or> state = ''closed''"
  shows "steps (keeps collab_wf) (stmt_update_pull rid n state merge)"
proof (rule stepsI)
  fix s :: "'a db_scheme"
  let ?f = "\<lambda>r. r\<lparr>row_data := (row_data r)\<lparr>pr_state := state, pr_merge_commit := merge,
      pr_updated := clock s\<rparr>\<rparr>"
  let ?hit = "\<lambda>r. pull_key rid n r \<and> pr_state (row_data r) = ''open''"
  have nums: "map (\<lambda>r. pr_number (row_data r)) (filter (\<lambda>r. row_repo r = q) (update_rows p ?f rs)) =
      map (\<lambda>r. pr_number (row_data r)) (filter (\<lambda>r. row_repo r = q) rs)" for p q rs
    by (induction rs) (auto simp: update_rows_def)
  have ids: "map row_id (update_rows p ?f rs) = map row_id rs" for p rs
    by (rule map_update_rows) simp
  then have ids': "row_id ` set (update_rows p ?f rs) = row_id ` set rs" for p rs
    by (metis list.set_map)
  have "collab_wf (s\<lparr>t_pulls := update_rows ?hit ?f (t_pulls s)\<rparr>)" if wf: "collab_wf s"
  proof -
    have "pulls_wf (s\<lparr>t_pulls := update_rows ?hit ?f (t_pulls s)\<rparr>)"
      using wf assms
      by (auto simp: collab_wf_def pulls_wf_def pr_numbers_def nums ids set_update_rows repo_exists_def)
    then show ?thesis
      using wf by (simp add: collab_wf_def issues_wf_def reviews_wf_def comments_wf_def
          protections_wf_def repo_exists_def issue_numbers_def ids')
  qed
  then show "keeps collab_wf s (snd (stmt_update_pull rid n state merge s))"
    by (simp add: keeps_def stmt_update_pull_def Let_def split: option.split)
qed

lemma stmt_upsert_review_wf [step_rules]:
  assumes "valid_verdict verdict"
  shows "steps (keeps collab_wf) (stmt_upsert_review pull reviewer verdict body)"
proof (rule stepsI)
  fix s :: "'a db_scheme"
  let ?d = "\<lparr>rev_reviewer = reviewer, rev_verdict = verdict, rev_body = body, rev_created = clock s\<rparr>"
  let ?r = "\<lparr>rrow_id = next_ids s T_reviews, rrow_pull = pull, rrow_review = ?d\<rparr>"
  let ?rs = "upsert_row (review_key pull reviewer) (\<lambda>r. r\<lparr>rrow_review := ?d\<rparr>) ?r (t_reviews s)"
  let ?t = "snd (stmt_upsert_review pull reviewer verdict body s)"
  show "keeps collab_wf s ?t"
  proof (cases "collab_wf s \<and> pull \<in> row_id ` set (t_pulls s)")
    case True
    then have wf: "reviews_wf s" by (simp add: collab_wf_def)
    have "distinct (map (\<lambda>r. (rrow_pull r, rev_reviewer (rrow_review r))) ?rs)"
      by (rule distinct_map_upsert_row)
        (use wf in \<open>auto simp: review_key_def reviews_wf_def\<close>)
    moreover have "\<forall>r\<in>set ?rs. rrow_pull r \<in> row_id ` set (t_pulls s)
        \<and> valid_verdict (rev_verdict (rrow_review r))"
      using wf True assms by (auto simp: upsert_row_def set_update_rows reviews_wf_def)
    ultimately have "reviews_wf ?t"
      using True by (simp add: stmt_upsert_review_def and_then_apply next_id_def Let_def reviews_wf_def)
    moreover have "issues_wf ?t \<and> pulls_wf ?t \<and> comments_wf ?t \<and> protections_wf ?t"
      using True by (simp add: stmt_upsert_review_def and_then_apply next_id_def Let_def
          collab_wf_defs)
    ultimately show ?thesis by (simp add: keeps_def collab_wf_def)
  next
    case False
    then show ?thesis
      by (auto simp: keeps_def stmt_upsert_review_def and_then_apply next_id_def
          intro: collab_wf_cong [of _ s])
  qed
qed

lemma stmt_upsert_protection_wf [step_rules]:
  assumes "bp_branch p \<noteq> []" and "0 \<le> bp_required_approvals p"
  shows "steps (keeps collab_wf) (stmt_upsert_protection rid p)"
proof (rule stepsI)
  fix s :: "'a db_scheme"
  let ?ps = "upsert_row (protection_key rid (bp_branch p)) (\<lambda>r. r\<lparr>prow_rule := p\<rparr>)
      \<lparr>prow_repo = rid, prow_rule = p\<rparr> (t_protections s)"
  show "keeps collab_wf s (snd (stmt_upsert_protection rid p s))"
  proof (cases "collab_wf s \<and> repo_exists s rid \<and> rule_ok p")
    case True
    then have wf: "protections_wf s" by (simp add: collab_wf_def)
    have "distinct (map (\<lambda>r. (prow_repo r, bp_branch (prow_rule r))) ?ps)"
      by (rule distinct_map_upsert_row)
        (use wf in \<open>auto simp: protection_key_def protections_wf_def\<close>)
    moreover have "\<forall>r\<in>set ?ps. repo_exists s (prow_repo r) \<and> rule_ok (prow_rule r)"
      using wf True by (auto simp: upsert_row_def set_update_rows protections_wf_def)
    ultimately show ?thesis
      using True by (simp add: keeps_def stmt_upsert_protection_def collab_wf_defs rule_ok_def)
  next
    case False
    then show ?thesis
      using assms by (auto simp: keeps_def stmt_upsert_protection_def rule_ok_def)
  qed
qed

lemma stmt_delete_protection_wf [step_rules]: "steps (keeps collab_wf) (stmt_delete_protection rid b)"
  by (rule stepsI)
    (auto simp: keeps_def stmt_delete_protection_def collab_wf_defs distinct_map_delete_rows)

section \<open>Histories of the store\<close>

text \<open>
  The operations of the store that write. A history is any sequence of them, by any clients, in
  any order, each with any pattern of failing database calls and with time passing between them.
\<close>

datatype collab_op =
    Op_create_issue int string string string
  | Op_issue_state int int string
  | Op_comment int string int string string
  | Op_create_pull int string string string string string
  | Op_pull_state int int string string
  | Op_review int int string string string
  | Op_set_protection int branch_protection
  | Op_delete_protection int string

fun run_collab :: "collab_op \<Rightarrow> 'z db_scheme \<Rightarrow> 'z db_scheme" where
  "run_collab (Op_create_issue rid author title body) s = snd (CreateIssue rid author title body s)"
| "run_collab (Op_issue_state rid n state) s = snd (SetIssueState rid n state s)"
| "run_collab (Op_comment rid kind n author body) s = snd (AddComment rid kind n author body s)"
| "run_collab (Op_create_pull rid author title body src tgt) s =
     snd (CreatePullRequest rid author title body src tgt s)"
| "run_collab (Op_pull_state rid n state merge) s = snd (SetPullRequestState rid n state merge s)"
| "run_collab (Op_review rid n reviewer verdict body) s = snd (UpsertReview rid n reviewer verdict body s)"
| "run_collab (Op_set_protection rid p) s = snd (SetBranchProtection rid p s)"
| "run_collab (Op_delete_protection rid b) s = snd (DeleteBranchProtection rid b s)"

inductive collab_step :: "'z db_scheme \<Rightarrow> 'z db_scheme \<Rightarrow> bool" where
  run_op: "collab_step s (run_collab op (s\<lparr>faults := fs\<rparr>))"
| time_passes: "0 \<le> d \<Longrightarrow> collab_step s (tick d s)"

inductive collab_history :: "'z db_scheme \<Rightarrow> 'z db_scheme \<Rightarrow> bool" for s where
  start: "collab_history s s"
| extend: "collab_history s t \<Longrightarrow> collab_step t u \<Longrightarrow> collab_history s u"

inductive_cases collab_stepE: "collab_step s t"

text \<open>
  A relation that every operation, every change of \<open>faults\<close> and every tick respects holds
  between the ends of a history.
\<close>

lemma collab_history_related:
  assumes "collab_history s t"
    and refl: "\<And>s. R s s" and trans: "\<And>s t u. R s t \<Longrightarrow> R t u \<Longrightarrow> R s u"
    and op: "\<And>s op. R s (run_collab op s)"
    and faults: "\<And>s fs. R s (s\<lparr>faults := fs\<rparr>)" and time: "\<And>s d. 0 \<le> d \<Longrightarrow> R s (tick d s)"
  shows "R s t"
  using assms(1)
proof (induction rule: collab_history.induct)
  case (extend t u)
  from extend.hyps(2) have "R t u"
    by (cases rule: collab_stepE) (use op faults time trans in blast)+
  with extend.IH show ?case by (rule trans)
qed (rule refl)

lemma CreateIssue_wf: "steps (keeps collab_wf) (CreateIssue rid author title body)"
  unfolding CreateIssue_def by (intro step_rules)

lemma SetIssueState_wf: "steps (keeps collab_wf) (SetIssueState rid n state)"
  unfolding SetIssueState_def by (intro step_rules) auto

lemma AddComment_wf: "steps (keeps collab_wf) (AddComment rid kind n author body)"
  unfolding AddComment_def by (intro step_rules) auto

lemma CreatePullRequest_wf: "steps (keeps collab_wf) (CreatePullRequest rid author title body src tgt)"
  unfolding CreatePullRequest_def by (intro step_rules)

lemma GetPullRequest_wf [step_rules]: "steps (keeps collab_wf) (GetPullRequest rid n)"
  unfolding GetPullRequest_def by (intro step_rules)

lemma SetPullRequestState_wf: "steps (keeps collab_wf) (SetPullRequestState rid n state merge)"
  unfolding SetPullRequestState_def by (intro step_rules) auto

lemma UpsertReview_wf: "steps (keeps collab_wf) (UpsertReview rid n reviewer verdict body)"
  unfolding UpsertReview_def by (intro step_rules) (auto simp: valid_verdict_def)

lemma SetBranchProtection_wf: "steps (keeps collab_wf) (SetBranchProtection rid p)"
  unfolding SetBranchProtection_def by (intro step_rules) auto

lemma DeleteBranchProtection_wf: "steps (keeps collab_wf) (DeleteBranchProtection rid branch)"
  unfolding DeleteBranchProtection_def by (intro step_rules)

lemmas collab_op_wf = CreateIssue_wf SetIssueState_wf AddComment_wf CreatePullRequest_wf
  SetPullRequestState_wf UpsertReview_wf SetBranchProtection_wf DeleteBranchProtection_wf

lemma run_collab_wf: "keeps collab_wf s (run_collab op s)"
  by (cases op) (simp_all add: collab_op_wf [THEN stepsD])

text \<open>
  The invariant of the collaboration tables. Whatever sequence of operations the clients
  issue, whichever database calls fail and however much time passes: issues, and independently
  pull requests, of each repository keep the consecutive numbers 1, 2, 3, ..., only known states
  and verdicts are stored, an open pull request has no merge commit, each reviewer has at most
  one review per pull request, and every rule has a branch and a count its column can hold.
\<close>

theorem collab_invariant:
  assumes "collab_history s t" and "collab_wf s"
  shows "collab_wf t"
proof -
  have "keeps collab_wf s t"
    by (rule collab_history_related [OF assms(1)])
      (auto simp: keeps_def run_collab_wf [unfolded keeps_def] tick_def
        intro: collab_wf_faults collab_wf_cong)
  then show ?thesis using assms(2) by (simp add: keeps_def)
qed

section \<open>The state machine of a pull request\<close>

text \<open>The moves \<open>SetPullRequestState\<close> promises: from open to merged or closed, and no other.\<close>

inductive pr_move :: "pull_request \<Rightarrow> pull_request \<Rightarrow> bool" where
  stay: "pr_move d d"
| settle: "pr_state d = ''open'' \<Longrightarrow> state = ''merged'' \<or> state = ''closed'' \<Longrightarrow>
     pr_move d (d\<lparr>pr_state := state, pr_merge_commit := merge, pr_updated := now\<rparr>)"

inductive_simps pr_move_iff: "pr_move d e"

lemma pr_move_trans: "pr_move d e \<Longrightarrow> pr_move e f \<Longrightarrow> pr_move d f"
  by (auto simp: pr_move_iff)

text \<open>No row is lost, moved to another repository or renumbered, and each one moves as above.\<close>

definition row_move :: "pull_request row \<Rightarrow> pull_request row \<Rightarrow> bool" where
  "row_move r q \<longleftrightarrow> row_id q = row_id r \<and> row_repo q = row_repo r \<and> pr_move (row_data r) (row_data q)"

definition pulls_evolve :: "'z db_scheme \<Rightarrow> 'z db_scheme \<Rightarrow> bool" where
  "pulls_evolve s t \<longleftrightarrow> (\<exists>old new. t_pulls t = old @ new \<and> list_all2 row_move (t_pulls s) old)"

lemma row_move_refl [simp]: "row_move r r"
  by (simp add: row_move_def pr_move.stay)

lemma pulls_evolve_append: "t_pulls t = t_pulls s @ new \<Longrightarrow> pulls_evolve s t"
  unfolding pulls_evolve_def by (blast intro: list.rel_refl row_move_refl)

lemma pulls_evolve_same: "t_pulls t = t_pulls s \<Longrightarrow> pulls_evolve s t"
  by (rule pulls_evolve_append [where new = "[]"]) simp

interpretation evolve_rel: state_relation pulls_evolve
proof unfold_locales
  fix s t u :: "'a db_scheme"
  show "pulls_evolve s s" by (rule pulls_evolve_same) simp
  assume "pulls_evolve s t" and "pulls_evolve t u"
  then obtain old new old' new' where e: "t_pulls t = old @ new" "list_all2 row_move (t_pulls s) old"
    "t_pulls u = old' @ new'" "list_all2 row_move (t_pulls t) old'"
    by (auto simp: pulls_evolve_def)
  then obtain o1 o2 where o: "old' = o1 @ o2" "list_all2 row_move old o1"
    by (auto simp: list_all2_append1)
  have "list_all2 row_move (t_pulls s) o1"
    by (rule list_all2_trans [OF _ e(2) o(2)]) (auto simp: row_move_def intro: pr_move_trans)
  then show "pulls_evolve s u" using e(3) o(1) by (auto simp: pulls_evolve_def)
qed

lemmas evolve_steps [step_rules] =
  evolve_rel.steps_ret evolve_rel.steps_read_state evolve_rel.steps_and_then
  evolve_rel.steps_on_result evolve_rel.steps_discard_result

lemma steps_pool_evolve [step_rules]:
  "steps pulls_evolve stmt \<Longrightarrow> steps pulls_evolve (pool stmt)"
  by (rule steps_pool) (auto intro: pulls_evolve_same evolve_rel.R_trans)

lemma evolve_readonly: "(\<And>s. t_pulls (snd (m s)) = t_pulls s) \<Longrightarrow> steps pulls_evolve m"
  by (simp add: steps_def pulls_evolve_same)

lemma other_stmts_evolve [step_rules]:
  "steps pulls_evolve (stmt_insert_issue rid t b a)"
  "steps pulls_evolve (stmt_update_issue rid n state)"
  "steps pulls_evolve (stmt_insert_comment rid k n a b)"
  "steps pulls_evolve (stmt_select_pull rid n)"
  "steps pulls_evolve (stmt_upsert_review p r v b)"
  "steps pulls_evolve (stmt_upsert_protection rid bp)"
  "steps pulls_evolve (stmt_delete_protection rid b)"
  by (rule evolve_readonly; simp add: stmt_insert_issue_def stmt_update_issue_def
      stmt_insert_comment_def stmt_select_pull_def stmt_upsert_review_def
      stmt_upsert_protection_def stmt_delete_protection_def and_then_apply next_id_def Let_def
      split: option.split)+

lemma stmt_insert_pull_evolve [step_rules]: "steps pulls_evolve (stmt_insert_pull rid t b a src tgt)"
  by (rule stepsI)
    (auto simp: stmt_insert_pull_def and_then_apply next_id_def Let_def
      intro: pulls_evolve_same pulls_evolve_append)

lemma stmt_update_pull_evolve [step_rules]:
  assumes "state = ''merged'' \<or> state = ''closed''"
  shows "steps pulls_evolve (stmt_update_pull rid n state merge)"
proof (rule stepsI)
  fix s :: "'a db_scheme"
  let ?f = "\<lambda>r. r\<lparr>row_data := (row_data r)\<lparr>pr_state := state, pr_merge_commit := merge,
      pr_updated := clock s\<rparr>\<rparr>"
  let ?hit = "\<lambda>r. pull_key rid n r \<and> pr_state (row_data r) = ''open''"
  have "list_all2 row_move rs (update_rows ?hit ?f rs)" for rs
    using assms
    by (induction rs) (auto simp: update_rows_def row_move_def pr_move.settle pr_move.stay)
  then have "pulls_evolve s (s\<lparr>t_pulls := update_rows ?hit ?f (t_pulls s)\<rparr>)"
    unfolding pulls_evolve_def by (intro exI [of _ "update_rows ?hit ?f (t_pulls s)"] exI [of _ "[]"]) simp
  then show "pulls_evolve s (snd (stmt_update_pull rid n state merge s))"
    by (simp add: stmt_update_pull_def Let_def pulls_evolve_same split: option.split)
qed

lemma GetPullRequest_evolve [step_rules]: "steps pulls_evolve (GetPullRequest rid n)"
  unfolding GetPullRequest_def by (intro step_rules)

lemma collab_ops_evolve:
  "steps pulls_evolve (CreateIssue rid author title body)"
  "steps pulls_evolve (SetIssueState rid n state)"
  "steps pulls_evolve (AddComment rid kind n author body)"
  "steps pulls_evolve (CreatePullRequest rid author title body src tgt)"
  "steps pulls_evolve (SetPullRequestState rid n state merge)"
  "steps pulls_evolve (UpsertReview rid n reviewer verdict body)"
  "steps pulls_evolve (SetBranchProtection rid p)"
  "steps pulls_evolve (DeleteBranchProtection rid branch)"
  unfolding CreateIssue_def SetIssueState_def AddComment_def CreatePullRequest_def
    SetPullRequestState_def UpsertReview_def SetBranchProtection_def DeleteBranchProtection_def Let_def
  by (intro step_rules; auto)+

lemma run_collab_evolve: "pulls_evolve s (run_collab op s)"
  by (cases op) (simp_all add: collab_ops_evolve [THEN stepsD])

text \<open>
  C10: The life of a pull request. Along every history, by whatever clients and whichever calls
  fail, a pull request is never deleted, renumbered or moved, and its title, author and
  branches never change; once merged or closed nothing of it changes any more, its merge commit
  included, and while open it has none.
\<close>

theorem pull_request_life:
  assumes "collab_history s t" and "collab_wf s" and "r \<in> set (t_pulls s)"
  shows "\<exists>q\<in>set (t_pulls t). row_id q = row_id r \<and> row_repo q = row_repo r
    \<and> (pr_number (row_data q), pr_title (row_data q), pr_author (row_data q),
       pr_source (row_data q), pr_target (row_data q)) =
      (pr_number (row_data r), pr_title (row_data r), pr_author (row_data r),
       pr_source (row_data r), pr_target (row_data r))
    \<and> (pr_state (row_data r) \<noteq> ''open'' \<longrightarrow> row_data q = row_data r)
    \<and> (pr_state (row_data q) = ''open'' \<longrightarrow> pr_merge_commit (row_data q) = None)"
proof -
  have "pulls_evolve s t"
    by (rule collab_history_related [OF assms(1)])
      (auto simp: run_collab_evolve tick_def intro: pulls_evolve_same evolve_rel.R_trans)
  then obtain old new where e: "t_pulls t = old @ new" "list_all2 row_move (t_pulls s) old"
    by (auto simp: pulls_evolve_def)
  from assms(3) obtain i where i: "i < length (t_pulls s)" "t_pulls s ! i = r"
    by (auto simp: in_set_conv_nth)
  then have m: "row_move r (old ! i)" and q: "old ! i \<in> set (t_pulls t)"
    using e by (auto simp: list_all2_conv_all_nth)
  have "collab_wf t"
    by (rule collab_history_related [OF assms(1), of "keeps collab_wf", unfolded keeps_def, THEN mp])
      (auto simp: run_collab_wf [unfolded keeps_def] tick_def assms(2)
        intro: collab_wf_faults collab_wf_cong)
  then have "pr_state (row_data (old ! i)) = ''open'' \<longrightarrow> pr_merge_commit (row_data (old ! i)) = None"
    using q by (simp add: collab_wf_def pulls_wf_def)
  moreover have "row_id (old ! i) = row_id r \<and> row_repo (old ! i) = row_repo r
      \<and> (pr_number (row_data (old ! i)), pr_title (row_data (old ! i)), pr_author (row_data (old ! i)),
         pr_source (row_data (old ! i)), pr_target (row_data (old ! i))) =
        (pr_number (row_data r), pr_title (row_data r), pr_author (row_data r),
         pr_source (row_data r), pr_target (row_data r))
      \<and> (pr_state (row_data r) \<noteq> ''open'' \<longrightarrow> row_data (old ! i) = row_data r)"
    using m by (auto simp: row_move_def pr_move_iff)
  ultimately show ?thesis using q by (intro bexI [of _ "old ! i"]) auto
qed

section \<open>What the operations return\<close>

lemma isNoRows_NoRows [simp]: "isNoRows NoRows"
  by (simp add: isNoRows_def)

lemma isNoRows_pg [simp]: "\<not> isNoRows (PgError code m)"
  by (simp add: isNoRows_def)

lemma GetPullRequest_calm:
  "calm s \<Longrightarrow> GetPullRequest rid n s =
    (case List.find (pull_key rid n) (t_pulls s) of
       None \<Rightarrow> Inl (Sentinel Collab_ErrNotFound) | Some r \<Rightarrow> Inr (row_data r), s)"
  by (simp add: GetPullRequest_def on_result_apply stmt_select_pull_def scan_pull_err_def
      split: option.split)

lemma GetBranchProtection_calm:
  "calm s \<Longrightarrow> GetBranchProtection rid b s =
    (case List.find (protection_key rid b) (t_protections s) of
       None \<Rightarrow> Inl (Sentinel Collab_ErrNotFound) | Some r \<Rightarrow> Inr (prow_rule r), s)"
  by (simp add: GetBranchProtection_def on_result_apply stmt_select_protection_def split: option.split)

lemma ListReviews_calm:
  "calm s \<Longrightarrow> ListReviews rid n s = (Inr (sort_key rev_created (pull_reviews rid n s)), s)"
  by (simp add: ListReviews_def on_result_apply stmt_list_reviews_def)

text \<open>The rule that applies to a branch, and the number of approvals it asks for.\<close>

definition required_approvals :: "int \<Rightarrow> string \<Rightarrow> 'z db_scheme \<Rightarrow> int" where
  "required_approvals rid branch s =
     (case List.find (protection_key rid branch) (t_protections s) of
        None \<Rightarrow> 0 | Some r \<Rightarrow> bp_required_approvals (prow_rule r))"

definition approvers :: "int \<Rightarrow> int \<Rightarrow> 'z db_scheme \<Rightarrow> string set" where
  "approvers rid n s = {rev_reviewer r | r. r \<in> set (pull_reviews rid n s) \<and> rev_verdict r = ''approved''}"

lemma latest_verdicts_distinct:
  assumes "distinct (map rev_reviewer rs)"
  shows "latest_verdicts rs = map (\<lambda>r. (rev_reviewer r, rev_verdict r)) rs"
proof -
  have upd: "AList.update k v m = m @ [(k, v)]" if "k \<notin> fst ` set m" for k v and m :: "(string \<times> string) list"
    using that by (induction m) auto
  have "fold (\<lambda>r m. AList.update (rev_reviewer r) (rev_verdict r) m) rs m =
      m @ map (\<lambda>r. (rev_reviewer r, rev_verdict r)) rs"
    if "distinct (map rev_reviewer rs)" "rev_reviewer ` set rs \<inter> fst ` set m = {}" for m
    using that by (induction rs arbitrary: m) (auto simp: upd)
  from this [of "[]"] assms show ?thesis by (simp add: latest_verdicts_def)
qed

lemma distinct_reviewers:
  assumes "collab_wf s"
  shows "distinct (map rev_reviewer (pull_reviews rid n s))"
proof -
  let ?P = "\<lambda>r. \<exists>p\<in>set (t_pulls s). row_id p = rrow_pull r \<and> pull_key rid n p"
  have wf: "reviews_wf s" "pulls_wf s" using assms by (simp_all add: collab_wf_def)
  then have inj: "inj_on (\<lambda>r. (rrow_pull r, rev_reviewer (rrow_review r))) (set (t_reviews s))"
    and d: "distinct (t_reviews s)" by (auto simp: reviews_wf_def distinct_map)
  have "inj_on (rev_reviewer \<circ> rrow_review) (set (filter ?P (t_reviews s)))"
  proof (rule inj_onI)
    fix x y
    assume x: "x \<in> set (filter ?P (t_reviews s))" and y: "y \<in> set (filter ?P (t_reviews s))"
      and e: "(rev_reviewer \<circ> rrow_review) x = (rev_reviewer \<circ> rrow_review) y"
    from x obtain p where p: "p \<in> set (t_pulls s)" "row_id p = rrow_pull x" "pull_key rid n p" by auto
    from y obtain q where q: "q \<in> set (t_pulls s)" "row_id q = rrow_pull y" "pull_key rid n q" by auto
    have "p = q" using pull_unique [OF wf(2) q(1) p(1) q(3) p(3)] .
    with p q have "rrow_pull x = rrow_pull y" by simp
    with e x y inj show "x = y" by (auto dest: inj_onD)
  qed
  then show ?thesis
    using d unfolding pull_reviews_def map_map by (simp only: distinct_map distinct_filter simp_thms)
qed

lemma count_approvals_card:
  assumes "distinct (map rev_reviewer rs)"
  shows "count_approvals rs = int (card {rev_reviewer r | r. r \<in> set rs \<and> rev_verdict r = ''approved''})"
proof -
  let ?as = "filter (\<lambda>r. rev_verdict r = ''approved'') rs"
  have "count_approvals rs = int (length (map rev_reviewer ?as))"
    by (simp add: count_approvals_def latest_verdicts_distinct [OF assms] filter_map comp_def)
  also have "\<dots> = int (card (set (map rev_reviewer ?as)))"
    using assms by (simp only: distinct_card distinct_map_filter)
  also have "set (map rev_reviewer ?as) = {rev_reviewer r | r. r \<in> set rs \<and> rev_verdict r = ''approved''}"
    by auto
  finally show ?thesis .
qed

lemma EvaluateMerge_calm:
  assumes "calm s" and "collab_wf s" and r: "r \<in> set (t_pulls s)" "pull_key rid n r"
  defines "req \<equiv> required_approvals rid (pr_target (row_data r)) s"
    and "cur \<equiv> int (card (approvers rid n s))"
  shows "EvaluateMerge rid n s = (Inr \<lparr>
      mc_mergable = (pr_state (row_data r) = ''open'' \<and> req \<le> cur),
      mc_blockers = (if pr_state (row_data r) \<noteq> ''open'' then [''pull request is not open''] else [])
        @ (if cur < req then [approvals_blocker req cur] else []),
      mc_required = req, mc_current = cur\<rparr>, s)"
proof -
  have pr: "GetPullRequest rid n s = (Inr (row_data r), s)"
    using assms(1,2) find_pull [OF _ r] by (simp add: GetPullRequest_calm collab_wf_def)
  have "distinct (map rev_reviewer (sort_key rev_created (pull_reviews rid n s)))"
    using distinct_reviewers [OF assms(2), of rid n]
    by (simp add: distinct_map)
  then have cur: "count_approvals (sort_key rev_created (pull_reviews rid n s)) = cur"
    by (simp add: count_approvals_card cur_def approvers_def)
  have req: "(case fst (GetBranchProtection rid (pr_target (row_data r)) s) of
      Inl _ \<Rightarrow> 0 | Inr p \<Rightarrow> bp_required_approvals p) = req"
    using assms(1) by (simp add: GetBranchProtection_calm req_def required_approvals_def split: option.split)
  obtain p where p: "GetBranchProtection rid (pr_target (row_data r)) s = (p, s)"
    using assms(1) by (simp add: GetBranchProtection_calm)
  show ?thesis
    using req
    by (simp add: EvaluateMerge_def on_result_apply and_then_apply pr p ListReviews_calm assms(1) cur
        Let_def not_less)
qed

text \<open>
  C9: The merge decision. In every state that satisfies the invariant, and when no database call
  fails, \<open>EvaluateMerge\<close> calls a pull request mergable exactly when it is open and the number of
  distinct reviewers whose current verdict on it is an approval reaches what the rule of its
  target branch requires (zero without a rule); the counts it reports are these two numbers, and
  a missing pull request is reported as not found.
\<close>

theorem merge_decision:
  assumes "calm s" and "collab_wf s"
  shows "(case fst (EvaluateMerge rid n s) of
      Inl e \<Rightarrow> e = Sentinel Collab_ErrNotFound \<and> (\<forall>r\<in>set (t_pulls s). \<not> pull_key rid n r)
    | Inr check \<Rightarrow> \<exists>r\<in>set (t_pulls s). pull_key rid n r
        \<and> mc_required check = required_approvals rid (pr_target (row_data r)) s
        \<and> mc_current check = int (card (approvers rid n s))
        \<and> (mc_mergable check \<longleftrightarrow> pr_state (row_data r) = ''open''
             \<and> required_approvals rid (pr_target (row_data r)) s \<le> int (card (approvers rid n s)))
        \<and> (mc_mergable check \<longleftrightarrow> mc_blockers check = []))
    \<and> snd (EvaluateMerge rid n s) = s"
proof (cases "\<exists>r\<in>set (t_pulls s). pull_key rid n r")
  case True
  then obtain r where r: "r \<in> set (t_pulls s)" "pull_key rid n r" by blast
  show ?thesis
    by (simp only: EvaluateMerge_calm [OF assms r] fst_conv snd_conv sum.case)
      (intro conjI bexI [OF _ r(1)]; auto simp: r(2))
next
  case False
  then have "List.find (pull_key rid n) (t_pulls s) = None" by (simp add: find_None_iff_all)
  then have "EvaluateMerge rid n s = (Inl (Sentinel Collab_ErrNotFound), s)"
    using assms(1) by (simp add: EvaluateMerge_def on_result_apply GetPullRequest_calm)
  then show ?thesis using False by simp
qed

text \<open>
  The decision fails open. When the lookup of the protection rule is the only database call
  that fails, its error is taken for the absence of a rule: an open pull request is reported
  mergable with zero required approvals, whatever the rule of its branch asks for.
\<close>

theorem merge_decision_fails_open:
  assumes "calm s" and "collab_wf s" and "r \<in> set (t_pulls s)" and "pull_key rid n r"
    and "pr_state (row_data r) = ''open''"
  shows "\<exists>check. fst (EvaluateMerge rid n (s\<lparr>faults := [None, Some m]\<rparr>)) = Inr check
    \<and> mc_mergable check \<and> mc_required check = 0 \<and> mc_blockers check = []"
proof -
  have f: "List.find (pull_key rid n) (t_pulls s) = Some r"
    using assms(2) find_pull [OF _ assms(3,4)] by (simp add: collab_wf_def)
  let ?s0 = "s\<lparr>faults := [None, Some m]\<rparr>" and ?s1 = "s\<lparr>faults := [Some m]\<rparr>"
    and ?s2 = "s\<lparr>faults := []\<rparr>"
  have 1: "GetPullRequest rid n ?s0 = (Inr (row_data r), ?s1)"
    by (simp add: GetPullRequest_def on_result_apply pool_def stmt_select_pull_def f)
  have 2: "GetBranchProtection rid b ?s1 =
      (Inl (wrap_err ''get branch protection'' (connection_failure m)), ?s2)" for b
    by (simp add: GetBranchProtection_def on_result_apply pool_def connection_failure_def)
  have 3: "ListReviews rid n ?s2 = (Inr (sort_key rev_created (pull_reviews rid n s)), ?s2)"
    by (simp add: ListReviews_def on_result_apply pool_def stmt_list_reviews_def pull_reviews_def)
  have "\<not> count_approvals rs < 0" for rs by (simp add: count_approvals_def)
  then show ?thesis
    using assms(5) by (simp add: EvaluateMerge_def on_result_apply and_then_apply 1 2 3 Let_def)
qed

section \<open>Reviews and transitions take effect\<close>

lemma UpsertReview_calm:
  fixes who b :: string
  assumes "calm s" and "pulls_wf s" and "r \<in> set (t_pulls s)" "pull_key rid n r"
    and "pr_state (row_data r) = ''open''" and "valid_verdict v"
  defines "d \<equiv> \<lparr>rev_reviewer = who, rev_verdict = v, rev_body = b, rev_created = clock s\<rparr>"
  shows "UpsertReview rid n who v b s = (Inr d, s\<lparr>
      next_ids := (next_ids s)(T_reviews := next_ids s T_reviews + 1),
      t_reviews := upsert_row (review_key (row_id r) who) (\<lambda>x. x\<lparr>rrow_review := d\<rparr>)
        \<lparr>rrow_id = next_ids s T_reviews, rrow_pull = row_id r, rrow_review = d\<rparr> (t_reviews s)\<rparr>)"
  using assms(1,3,5,6) find_pull [OF assms(2-4)]
  by (simp add: UpsertReview_def on_result_apply GetPullRequest_calm stmt_select_pull_def
      stmt_upsert_review_def and_then_apply next_id_def Let_def d_def valid_verdict_def)

lemma approvers_upsert:
  fixes s t :: "'z db_scheme"
  assumes "pulls_wf s" and "r \<in> set (t_pulls s)" "pull_key rid n r"
    and t: "t_pulls t = t_pulls s" "t_reviews t = upsert_row (review_key (row_id r) who)
      (\<lambda>x. x\<lparr>rrow_review := d\<rparr>) \<lparr>rrow_id = i, rrow_pull = row_id r, rrow_review = d\<rparr> (t_reviews s)"
    and d: "rev_reviewer d = who"
  shows "approvers rid n t =
    (if rev_verdict d = ''approved'' then insert who (approvers rid n s) else approvers rid n s - {who})"
proof -
  let ?pull = "\<lambda>s x. \<exists>p\<in>set (t_pulls s). row_id p = rrow_pull x \<and> pull_key rid n p"
  have dist: "distinct (map row_id (t_pulls s))" using assms(1) by (simp add: pulls_wf_def)
  have pull: "?pull s x \<longleftrightarrow> rrow_pull x = row_id r" for x
    using pull_unique [OF assms(1,2) _ assms(3)] assms(2,3) by metis
  have app: "approvers rid n s' = {rev_reviewer (rrow_review x) | x. x \<in> set (t_reviews s')
      \<and> rrow_pull x = row_id r \<and> rev_verdict (rrow_review x) = ''approved''}"
    if "t_pulls s' = t_pulls s" for s' :: "'z db_scheme"
    using that pull by (auto simp: approvers_def pull_reviews_def)
  have rows: "x \<in> set (t_reviews t) \<and> rrow_pull x = row_id r \<longleftrightarrow>
      rrow_pull x = row_id r \<and> (x \<in> set (t_reviews s) \<and> rev_reviewer (rrow_review x) \<noteq> who
        \<or> rrow_review x = d \<and> x \<in> set (t_reviews t))" for x
    using d by (auto simp: t upsert_row_def set_update_rows review_key_def)
  have ex: "\<exists>x\<in>set (t_reviews t). rrow_pull x = row_id r \<and> rrow_review x = d"
  proof (cases "\<exists>x\<in>set (t_reviews s). review_key (row_id r) who x")
    case True
    then obtain x where x: "x \<in> set (t_reviews s)" "review_key (row_id r) who x" by blast
    then have "x\<lparr>rrow_review := d\<rparr> \<in> set (t_reviews t)"
      by (force simp: t upsert_row_def set_update_rows)
    then show ?thesis
      using x by (intro bexI [of _ "x\<lparr>rrow_review := d\<rparr>"]) (simp_all add: review_key_def)
  next
    case False
    then show ?thesis by (simp add: t upsert_row_def)
  qed
  have "approvers rid n t = {rev_reviewer (rrow_review x) | x. x \<in> set (t_reviews s)
      \<and> rrow_pull x = row_id r \<and> rev_reviewer (rrow_review x) \<noteq> who
      \<and> rev_verdict (rrow_review x) = ''approved''}
      \<union> (if rev_verdict d = ''approved'' then {who} else {})"
    unfolding app [OF t(1)] using rows ex d by auto metis+
  also have "\<dots> = (approvers rid n s - {who}) \<union> (if rev_verdict d = ''approved'' then {who} else {})"
    unfolding app [OF refl] by auto
  finally show ?thesis by auto
qed

text \<open>
  A review counts, and only the reviewer's last one. Recording a verdict on an open pull
  request adds the reviewer to those whose approval \<open>EvaluateMerge\<close> counts when it is an
  approval, removes them when it is not, and changes nobody else's; on a settled pull request
  the review is refused and nothing changes.
\<close>

theorem review_replaces_verdict:
  assumes "calm s" and "collab_wf s" and "r \<in> set (t_pulls s)" and "pull_key rid n r"
    and "valid_verdict v"
  shows "(pr_state (row_data r) = ''open'' \<longrightarrow>
      (\<exists>review. fst (UpsertReview rid n who v b s) = Inr review) \<and>
      approvers rid n (snd (UpsertReview rid n who v b s)) =
        (if v = ''approved'' then insert who (approvers rid n s) else approvers rid n s - {who}))
    \<and> (pr_state (row_data r) \<noteq> ''open'' \<longrightarrow>
      UpsertReview rid n who v b s = (Inl (Sentinel Collab_ErrNotMergeable), s))"
proof (cases "pr_state (row_data r) = ''open''")
  case True
  have wf: "pulls_wf s" using assms(2) by (simp add: collab_wf_def)
  show ?thesis
    using True UpsertReview_calm [OF assms(1) wf assms(3,4) True assms(5), of who b]
      approvers_upsert [OF wf assms(3,4), of "snd (UpsertReview rid n who v b s)" who]
    by simp
next
  case False
  have wf: "pulls_wf s" using assms(2) by (simp add: collab_wf_def)
  then have "pr_state (row_data r) = ''merged'' \<or> pr_state (row_data r) = ''closed''"
    using False assms(3) by (auto simp: pulls_wf_def)
  then show ?thesis
    using False assms(1,5) find_pull [OF wf assms(3,4)]
    by (simp add: UpsertReview_def valid_verdict_def on_result_apply GetPullRequest_calm)
qed

text \<open>The three outcomes of a transition: of an open, of a settled and of a missing pull request.\<close>

lemma SetPullRequestState_open:
  fixes s :: "'z db_scheme" and commit state :: string and r :: "pull_request row"
  assumes "calm s" and only: "\<And>q. q \<in> set (t_pulls s) \<Longrightarrow> pull_key rid n q \<Longrightarrow> q = r"
    and r: "r \<in> set (t_pulls s)" "pull_key rid n r" and "pr_state (row_data r) = ''open''" and st: "state = ''merged'' \<or> state = ''closed''"
  defines "d \<equiv> (row_data r)\<lparr>pr_state := state, pr_updated := clock s,
      pr_merge_commit := if commit = [] then None else Some commit\<rparr>"
  shows "\<exists>rows q. SetPullRequestState rid n state commit s = (Inr d, s\<lparr>t_pulls := rows\<rparr>)
    \<and> List.find (pull_key rid n) rows = Some q \<and> row_data q = d"
proof -
  let ?m = "if commit = [] then None else Some commit"
  let ?f = "\<lambda>r. r\<lparr>row_data := (row_data r)\<lparr>pr_state := state, pr_merge_commit := ?m, pr_updated := clock s\<rparr>\<rparr>"
  let ?hit = "\<lambda>r. pull_key rid n r \<and> pr_state (row_data r) = ''open''"
  let ?t = "s\<lparr>t_pulls := update_rows ?hit ?f (t_pulls s)\<rparr>"
  have hit: "List.find ?hit (t_pulls s) = Some r"
    by (rule find_eq_SomeI [OF r(1)]) (use r(2) assms(5) in simp, use only in blast)
  have run: "SetPullRequestState rid n state commit s = (Inr d, ?t)"
    using st assms(1) hit
    by (auto simp: SetPullRequestState_def on_result_apply stmt_update_pull_def Let_def d_def)
  have "List.find (pull_key rid n) (t_pulls s) = Some r"
    by (rule find_eq_SomeI [OF r(1)], rule r(2), rule only)
  then have "List.find (pull_key rid n) (t_pulls ?t) = Some (?f r)"
    using r(2) assms(5) by (simp add: find_update_rows pull_key_def)
  then show ?thesis
    using run by (intro exI [of _ "t_pulls ?t"] exI [of _ "?f r"]) (simp add: d_def)
qed

lemma SetPullRequestState_settled:
  assumes "calm s" and "pulls_wf s" and r: "r \<in> set (t_pulls s)" "pull_key rid n r"
    and "pr_state (row_data r) \<noteq> ''open''" and st: "state = ''merged'' \<or> state = ''closed''"
  shows "SetPullRequestState rid n state commit s = (Inl (Sentinel Collab_ErrNotMergeable), s)"
proof -
  have "List.find (\<lambda>r. pull_key rid n r \<and> pr_state (row_data r) = ''open'') (t_pulls s) = None"
    using pull_unique [OF assms(2) r(1) _ r(2)] assms(5) by (auto simp: find_None_iff_all)
  then show ?thesis
    using st assms(1) find_pull [OF assms(2) r]
    by (auto simp: SetPullRequestState_def on_result_apply stmt_update_pull_def GetPullRequest_calm)
qed

lemma SetPullRequestState_missing:
  assumes "calm s" and none: "List.find (pull_key rid n) (t_pulls s) = None" and st: "state = ''merged'' \<or> state = ''closed''"
  shows "SetPullRequestState rid n state commit s = (Inl (Sentinel Collab_ErrNotFound), s)"
proof -
  have "List.find (\<lambda>r. pull_key rid n r \<and> pr_state (row_data r) = ''open'') (t_pulls s) = None"
    using none by (simp add: find_None_iff_all)
  then show ?thesis
    using none st assms(1)
    by (auto simp: SetPullRequestState_def on_result_apply stmt_update_pull_def GetPullRequest_calm)
qed

text \<open>
  Transitions. \<open>SetPullRequestState\<close> to merged or closed succeeds exactly on an open pull
  request, records the state and the commit, and a second transition of it is refused as not
  mergeable; a missing one is reported as not found, any other target state as invalid, and the
  refused calls change nothing.
\<close>

theorem transition_once:
  assumes "calm s" and "collab_wf s"
  shows "(state \<noteq> ''merged'' \<and> state \<noteq> ''closed'' \<longrightarrow>
      SetPullRequestState rid n state commit s = (Inl (Sentinel Collab_ErrInvalidState), s))
    \<and> (state = ''merged'' \<or> state = ''closed'' \<longrightarrow>
      (case List.find (pull_key rid n) (t_pulls s) of
        None \<Rightarrow> SetPullRequestState rid n state commit s = (Inl (Sentinel Collab_ErrNotFound), s)
      | Some r \<Rightarrow>
          if pr_state (row_data r) \<noteq> ''open''
          then SetPullRequestState rid n state commit s = (Inl (Sentinel Collab_ErrNotMergeable), s)
          else \<exists>d t. SetPullRequestState rid n state commit s = (Inr d, t)
            \<and> d = (row_data r)\<lparr>pr_state := state, pr_updated := clock s,
                  pr_merge_commit := if commit = [] then None else Some commit\<rparr>
            \<and> fst (GetPullRequest rid n t) = Inr d
            \<and> SetPullRequestState rid n state' commit' t =
                (Inl (if state' = ''merged'' \<or> state' = ''closed''
                      then Sentinel Collab_ErrNotMergeable else Sentinel Collab_ErrInvalidState), t)))"
proof (cases "state = ''merged'' \<or> state = ''closed''")
  case False
  then show ?thesis by (simp add: SetPullRequestState_def)
next
  case st: True
  have wf: "pulls_wf s" using assms(2) by (simp add: collab_wf_def)
  show ?thesis
  proof (cases "List.find (pull_key rid n) (t_pulls s)")
    case None
    then show ?thesis using st SetPullRequestState_missing [OF assms(1) None st] by simp
  next
    case (Some r)
    then have r: "r \<in> set (t_pulls s)" "pull_key rid n r" by (auto dest: find_SomeD)
    show ?thesis
    proof (cases "pr_state (row_data r) = ''open''")
      case False
      then show ?thesis using SetPullRequestState_settled [OF assms(1) wf r False st] st Some by simp
    next
      case True
      obtain rows q where run: "SetPullRequestState rid n state commit s = (Inr (row_data q), s\<lparr>t_pulls := rows\<rparr>)"
        and q: "List.find (pull_key rid n) rows = Some q"
        and d: "row_data q = (row_data r)\<lparr>pr_state := state, pr_updated := clock s,
            pr_merge_commit := if commit = [] then None else Some commit\<rparr>"
        using SetPullRequestState_open [OF assms(1) pull_unique [OF wf r(1) _ r(2)] r True st, of commit] by auto
      let ?t = "s\<lparr>t_pulls := rows\<rparr>"
      have t: "calm ?t" "pulls_wf ?t" "q \<in> set (t_pulls ?t)" "pull_key rid n q"
        using assms stepsE [OF SetPullRequestState_wf run] find_SomeD [OF q]
        by (simp_all add: calm_def keeps_def collab_wf_def)
      have "pr_state (row_data q) \<noteq> ''open''" using st d by auto
      then have "SetPullRequestState rid n state' commit' ?t =
          (Inl (if state' = ''merged'' \<or> state' = ''closed''
                then Sentinel Collab_ErrNotMergeable else Sentinel Collab_ErrInvalidState), ?t)"
        using SetPullRequestState_settled [OF t, of state' commit']
        by (cases "state' = ''merged'' \<or> state' = ''closed''")
          (simp_all only: SetPullRequestState_def if_True if_False de_Morgan_disj simp_thms ret_apply)
      then show ?thesis
        using st Some True run q d t(1) by (simp add: GetPullRequest_calm)
    qed
  qed
qed

section \<open>Numbering\<close>

lemma dense_next: "dense ns \<Longrightarrow> max_plus_one ns = int (length ns) + 1"
  by (rule dense_max)

text \<open>
  Opening a pull request. It gets the number after those of its repository's earlier pull
  requests, \<open>GetPullRequest\<close> returns what was submitted under that number, and every other
  pull request, of this repository or another, reads as before.
\<close>

theorem open_pull_request:
  assumes "calm s" and "collab_wf s" and "repo_exists s rid"
  shows "\<exists>d t. CreatePullRequest rid author title body src tgt s = (Inr d, t)
    \<and> d = \<lparr>pr_number = int (length (pr_numbers rid s)) + 1, pr_title = title, pr_body = body,
           pr_author = author, pr_state = ''open'', pr_source = src, pr_target = tgt,
           pr_merge_commit = None, pr_created = clock s, pr_updated = clock s\<rparr>
    \<and> fst (GetPullRequest rid (pr_number d) t) = Inr d
    \<and> (\<forall>rid' n. (rid', n) \<noteq> (rid, pr_number d) \<longrightarrow>
         fst (GetPullRequest rid' n t) = fst (GetPullRequest rid' n s))
    \<and> fst (GetPullRequest rid (pr_number d) s) = Inl (Sentinel Collab_ErrNotFound)"
proof -
  have dn: "dense (pr_numbers rid s)" using assms(2) by (simp add: collab_wf_def pulls_wf_def)
  define d where "d = \<lparr>pr_number = int (length (pr_numbers rid s)) + 1, pr_title = title,
      pr_body = body, pr_author = author, pr_state = ''open'', pr_source = src, pr_target = tgt,
      pr_merge_commit = None, pr_created = clock s, pr_updated = clock s\<rparr>"
  define row where "row = \<lparr>row_id = next_ids s T_pull_requests, row_repo = rid, row_data = d\<rparr>"
  define t where "t = s\<lparr>next_ids := (next_ids s)(T_pull_requests := next_ids s T_pull_requests + 1),
      t_pulls := t_pulls s @ [row]\<rparr>"
  have run: "CreatePullRequest rid author title body src tgt s = (Inr d, t)"
    using assms(1,3) dense_next [OF dn]
    by (simp add: CreatePullRequest_def on_result_apply stmt_insert_pull_def and_then_apply
        next_id_def repo_exists_def Let_def pr_numbers_def d_def row_def t_def)
  have c: "calm t" using assms(1) by (simp add: t_def calm_def)
  have new: "\<not> pull_key rid (pr_number d) r" if "r \<in> set (t_pulls s)" for r
  proof
    assume k: "pull_key rid (pr_number d) r"
    then have "pr_number d \<in> set (pr_numbers rid s)"
      using that by (force simp: pr_numbers_def pull_key_def)
    then have "pr_number d \<le> int (length (pr_numbers rid s))"
      using dn unfolding dense_def by (metis atLeastAtMost_iff set_upto)
    then show False by (simp add: d_def)
  qed
  then have none: "List.find (pull_key rid (pr_number d)) (t_pulls s) = None"
    by (simp add: find_None_iff_all)
  have "fst (GetPullRequest rid (pr_number d) t) = Inr d"
    using c none by (simp add: GetPullRequest_calm t_def find_append row_def pull_key_def)
  moreover have "fst (GetPullRequest rid' n t) = fst (GetPullRequest rid' n s)"
    if "(rid', n) \<noteq> (rid, pr_number d)" for rid' n
    using that c assms(1)
    by (auto simp: GetPullRequest_calm t_def find_append row_def pull_key_def split: option.split)
  ultimately show ?thesis
    using run none assms(1) unfolding d_def [symmetric]
    by (intro exI [of _ d] exI [of _ t]) (auto simp: GetPullRequest_calm)
qed

text \<open>
  \<open>NextNumber\<close> allocates nothing: it only reads, so any two calls between which no issue or
  pull request is inserted return the same number, whatever else happens in between.
\<close>

theorem next_number_not_allocated:
  assumes "calm s" and "calm t" and "t_issues t = t_issues s" and "t_pulls t = t_pulls s"
  shows "fst (NextNumber rid table t) = fst (NextNumber rid table s)
    \<and> snd (NextNumber rid table s) = s"
  using assms
  by (simp add: NextNumber_def on_result_apply issue_numbers_def pr_numbers_def)

section \<open>Protection rules are a keyed store\<close>

definition rule_put :: "int \<times> string \<Rightarrow> int \<times> bool \<Rightarrow> 'z db_scheme \<Rightarrow> 'z db_scheme" where
  "rule_put k v s = snd (SetBranchProtection (fst k)
     \<lparr>bp_branch = snd k, bp_required_approvals = fst v, bp_allow_force_push = snd v\<rparr> s)"

definition rule_del :: "int \<times> string \<Rightarrow> 'z db_scheme \<Rightarrow> 'z db_scheme" where
  "rule_del k s = snd (DeleteBranchProtection (fst k) (snd k) s)"

definition rule_get :: "int \<times> string \<Rightarrow> 'z db_scheme \<Rightarrow> (int \<times> bool) option" where
  "rule_get k s = (case fst (GetBranchProtection (fst k) (snd k) s) of
     Inl _ \<Rightarrow> None | Inr p \<Rightarrow> Some (bp_required_approvals p, bp_allow_force_push p))"

definition rule_key_ok :: "'z db_scheme \<Rightarrow> int \<times> string \<Rightarrow> bool" where
  "rule_key_ok s k \<longleftrightarrow> repo_exists s (fst k) \<and> snd k \<noteq> []"

definition rule_val_ok :: "int \<times> bool \<Rightarrow> bool" where
  "rule_val_ok v \<longleftrightarrow> 0 \<le> fst v \<and> fst v \<le> max_int32"

lemma rule_put_calm:
  assumes "calm s" "rule_key_ok s k" "rule_val_ok v"
  shows "rule_put k v s = s\<lparr>t_protections := upsert_row (protection_key (fst k) (snd k))
      (\<lambda>r. r\<lparr>prow_rule := \<lparr>bp_branch = snd k, bp_required_approvals = fst v, bp_allow_force_push = snd v\<rparr>\<rparr>)
      \<lparr>prow_repo = fst k, prow_rule =
        \<lparr>bp_branch = snd k, bp_required_approvals = fst v, bp_allow_force_push = snd v\<rparr>\<rparr>
      (t_protections s)\<rparr>"
  using assms
  by (simp add: rule_put_def SetBranchProtection_def on_result_apply stmt_upsert_protection_def
      rule_key_ok_def rule_val_ok_def)

lemma rule_del_calm:
  "calm s \<Longrightarrow> rule_del k s =
     s\<lparr>t_protections := delete_rows (protection_key (fst k) (snd k)) (t_protections s)\<rparr>"
  by (simp add: rule_del_def DeleteBranchProtection_def on_result_apply stmt_delete_protection_def)

lemma rule_get_calm:
  "calm s \<Longrightarrow> rule_get k s = map_option
     (\<lambda>r. (bp_required_approvals (prow_rule r), bp_allow_force_push (prow_rule r)))
     (List.find (protection_key (fst k) (snd k)) (t_protections s))"
  by (simp add: rule_get_def GetBranchProtection_calm split: option.split)

lemma SetBranchProtection_same_repositories: "steps (same t_repositories) (SetBranchProtection rid p)"
proof -
  have "steps (same t_repositories) (pool (stmt_upsert_protection rid p))"
    by (rule steps_pool_same) (auto simp: steps_def same_def stmt_upsert_protection_def)
  then show ?thesis unfolding SetBranchProtection_def by (intro step_rules)
qed

interpretation rules: keyed_store rule_put rule_del rule_get calm rule_key_ok rule_val_ok
proof unfold_locales
  fix s :: "'z db_scheme" and k l :: "int \<times> string" and v
  assume c: "calm s"
  show "rule_key_ok (rule_put k v s) = rule_key_ok s"
    using stepsD [OF SetBranchProtection_same_repositories, of s]
    by (simp add: fun_eq_iff rule_key_ok_def rule_put_def repo_exists_def same_def)
  show "rule_key_ok (rule_del k s) = rule_key_ok s"
    using c by (simp add: fun_eq_iff rule_key_ok_def rule_del_calm repo_exists_def)
  show del: "calm (rule_del k s)" using c by (simp add: rule_del_calm calm_def)
  show "rule_get k (rule_del k s) = None"
    using c del by (simp add: rule_get_calm) (simp add: rule_del_calm find_delete_rows_same)
  { assume "l \<noteq> k"
    then show "rule_get l (rule_del k s) = rule_get l s"
      using c del by (simp add: rule_get_calm)
        (subst rule_del_calm, assumption, auto intro!: arg_cong [where f = "map_option _"]
          find_delete_rows_other simp: protection_key_def prod_eq_iff) }
  assume k: "rule_key_ok s k" and v: "rule_val_ok v"
  show put: "calm (rule_put k v s)" using c k v by (simp add: rule_put_calm calm_def)
  have rows: "t_protections (rule_put k v s) = upsert_row (protection_key (fst k) (snd k))
      (\<lambda>r. r\<lparr>prow_rule := \<lparr>bp_branch = snd k, bp_required_approvals = fst v, bp_allow_force_push = snd v\<rparr>\<rparr>)
      \<lparr>prow_repo = fst k, prow_rule =
        \<lparr>bp_branch = snd k, bp_required_approvals = fst v, bp_allow_force_push = snd v\<rparr>\<rparr>
      (t_protections s)" by (simp add: rule_put_calm [OF c k v])
  show "rule_get k (rule_put k v s) = Some v"
    unfolding rule_get_calm [OF put] rows
    by (subst find_upsert_row_same) (auto simp: protection_key_def split: option.split)
  assume "l \<noteq> k"
  then show "rule_get l (rule_put k v s) = rule_get l s"
    using c k v put
    by (simp add: rule_get_calm)
      (subst rule_put_calm, assumption+, auto intro!: arg_cong [where f = "map_option _"]
        find_upsert_row_other simp: protection_key_def prod_eq_iff)
qed

text \<open>
  Branch protection refines a finite map from repository and branch to the required
  approvals and the force-push flag: after any sequence of \<open>SetBranchProtection\<close> and
  \<open>DeleteBranchProtection\<close> calls, \<open>GetBranchProtection\<close> reads the last call that named the
  branch.
\<close>

theorem protection_last_write_wins:
  assumes "calm s" and "ops_ok (rule_key_ok s) rule_val_ok ops" and "repo_exists s rid" and "branch \<noteq> []"
  shows "rule_get (rid, branch) (run_ops rule_put rule_del ops s) =
    (case last_write (rid, branch) ops of None \<Rightarrow> rule_get (rid, branch) s | Some r \<Rightarrow> r)"
  by (rule rules.run_ops_last_write) (use assms in \<open>auto simp: rule_key_ok_def\<close>)

section \<open>A concrete repository, for the witnesses\<close>

text \<open>
  Repository 1 with two pull requests into a protected branch that needs one approval: number 1
  is open, number 2 merged; bob approved number 1.
\<close>

definition demo_pr :: "int \<Rightarrow> string \<Rightarrow> string option \<Rightarrow> pull_request" where
  "demo_pr n state merge = \<lparr>pr_number = n, pr_title = ''t'', pr_body = [], pr_author = ''al'',
     pr_state = state, pr_source = ''dev'', pr_target = ''main'', pr_merge_commit = merge,
     pr_created = 0, pr_updated = 0\<rparr>"

definition demo_pr_row :: "int \<Rightarrow> string \<Rightarrow> string option \<Rightarrow> pull_request row" where
  "demo_pr_row n state merge = \<lparr>row_id = n, row_repo = 1, row_data = demo_pr n state merge\<rparr>"

definition demo_collab :: db where
  "demo_collab = empty_db\<lparr>
     t_repositories := [\<lparr>repo_id = 1, repo_owner = ''al'', repo_name = ''c'',
       repo_path = ''/r/al/c.git'', repo_created = 0\<rparr>],
     t_pulls := [demo_pr_row 1 ''open'' None, demo_pr_row 2 ''merged'' (Some ''c0ffee'')],
     t_reviews := [\<lparr>rrow_id = 1, rrow_pull = 1, rrow_review = \<lparr>rev_reviewer = ''bob'',
       rev_verdict = ''approved'', rev_body = [], rev_created = 0\<rparr>\<rparr>],
     t_protections := [\<lparr>prow_repo = 1, prow_rule = \<lparr>bp_branch = ''main'',
       bp_required_approvals = 1, bp_allow_force_push = False\<rparr>\<rparr>],
     next_ids := (\<lambda>_. 3)\<rparr>"

lemmas demo_collab_simps = demo_collab_def empty_db_def demo_pr_row_def demo_pr_def

lemma demo_collab_calm: "calm demo_collab"
  by (simp add: calm_def demo_collab_simps)

lemma demo_collab_wf: "collab_wf demo_collab"
proof -
  have "[1..2] = [1, 2 :: int]" by (simp add: upto.simps)
  then show ?thesis
    by (simp add: demo_collab_simps collab_wf_defs dense_def valid_verdict_def rule_ok_def max_int32_def)
qed

lemma demo_open_pr:
  "demo_pr_row 1 ''open'' None \<in> set (t_pulls demo_collab)"
  "pull_key 1 1 (demo_pr_row 1 ''open'' None)"
  "pr_state (row_data (demo_pr_row 1 ''open'' None)) = ''open''"
  by (simp_all add: demo_collab_simps pull_key_def)

lemma demo_history: "collab_history demo_collab
    (run_collab (Op_pull_state 1 1 ''closed'' []) (demo_collab\<lparr>faults := []\<rparr>))"
  by (blast intro: collab_history.intros collab_step.intros)

theorem collab_invariant_witness:
  "collab_wf (run_collab (Op_pull_state 1 1 ''closed'' []) (demo_collab\<lparr>faults := []\<rparr>))"
  by (rule collab_invariant [OF demo_history demo_collab_wf])

theorem pull_request_life_witness:
  "\<exists>q\<in>set (t_pulls (run_collab (Op_pull_state 1 1 ''closed'' []) (demo_collab\<lparr>faults := []\<rparr>))).
     row_id q = 2 \<and> row_data q = demo_pr 2 ''merged'' (Some ''c0ffee'')"
proof -
  have "demo_pr_row 2 ''merged'' (Some ''c0ffee'') \<in> set (t_pulls demo_collab)"
    by (simp add: demo_collab_def)
  from pull_request_life [OF demo_history demo_collab_wf this] show ?thesis
    by (auto simp: demo_pr_row_def demo_pr_def)
qed

theorem merge_decision_witness:
  "\<exists>check. fst (EvaluateMerge 1 1 demo_collab) = Inr check \<and> mc_mergable check"
proof -
  have ap: "approvers 1 1 demo_collab = {''bob''}"
    by (auto simp: approvers_def pull_reviews_def demo_collab_simps pull_key_def)
  have key: "pull_key 1 1 r \<longleftrightarrow> r = demo_pr_row 1 ''open'' None" if "r \<in> set (t_pulls demo_collab)" for r
    using that by (auto simp: demo_collab_simps pull_key_def)
  have req: "required_approvals 1 (pr_target (row_data (demo_pr_row 1 ''open'' None))) demo_collab = 1"
    by (simp add: required_approvals_def demo_collab_simps protection_key_def)
  show ?thesis
    using merge_decision [OF demo_collab_calm demo_collab_wf, of 1 1] demo_open_pr(1) key ap req
      demo_open_pr(3)
    by (cases "fst (EvaluateMerge 1 1 demo_collab)") auto
qed

theorem merge_decision_fails_open_witness:
  "\<exists>check. fst (EvaluateMerge 1 1 (demo_collab\<lparr>faults := [None, Some ''timeout'']\<rparr>)) = Inr check
     \<and> mc_mergable check"
  using merge_decision_fails_open [OF demo_collab_calm demo_collab_wf demo_open_pr] by blast

theorem review_replaces_verdict_witness:
  "approvers 1 1 (snd (UpsertReview 1 1 ''bob'' ''changes_requested'' [] demo_collab)) = {}"
proof -
  have ap: "approvers 1 1 demo_collab = {''bob''}"
    by (auto simp: approvers_def pull_reviews_def demo_collab_simps pull_key_def)
  show ?thesis
    using review_replaces_verdict [OF demo_collab_calm demo_collab_wf demo_open_pr(1,2),
        of "''changes_requested''" "''bob''" "[]"] demo_open_pr(3) ap
    by (simp add: valid_verdict_def)
qed

theorem transition_once_witness:
  "\<exists>t d. SetPullRequestState 1 1 ''merged'' ''c0ffee'' demo_collab = (Inr d, t)
     \<and> fst (SetPullRequestState 1 1 ''closed'' [] t) = Inl (Sentinel Collab_ErrNotMergeable)"
proof -
  have find: "List.find (pull_key 1 1) (t_pulls demo_collab) = Some (demo_pr_row 1 ''open'' None)"
    by (simp add: demo_collab_simps pull_key_def)
  show ?thesis
    using transition_once [OF demo_collab_calm demo_collab_wf, of "''merged''" 1 1 "''c0ffee''"
        "''closed''" "[]"] find demo_open_pr(3)
    by auto
qed

theorem open_pull_request_witness:
  "\<exists>d t. CreatePullRequest 1 ''eve'' ''t'' [] ''x'' ''main'' demo_collab = (Inr d, t)
     \<and> pr_number d = 3"
proof -
  have "repo_exists demo_collab 1" "length (pr_numbers 1 demo_collab) = 2"
    by (simp_all add: repo_exists_def demo_collab_simps pr_numbers_def)
  then show ?thesis
    using open_pull_request [OF demo_collab_calm demo_collab_wf, of 1 "''eve''" "''t''" "[]"
        "''x''" "''main''"] by auto
qed

theorem next_number_not_allocated_witness:
  "fst (NextNumber 1 ''issues'' (snd (NextNumber 1 ''issues'' demo_collab))) =
   fst (NextNumber 1 ''issues'' demo_collab)"
  using next_number_not_allocated [OF demo_collab_calm, of demo_collab 1 "''issues''"]
    demo_collab_calm by simp

theorem protection_last_write_wins_witness:
  "rule_get (1, ''main'') (run_ops rule_put rule_del
     [Put_op (1, ''main'') (2, False), Del_op (1, ''dev''), Put_op (1, ''main'') (3, True)] demo_collab)
   = Some (3, True)"
proof -
  have "repo_exists demo_collab 1" by (simp add: repo_exists_def demo_collab_simps)
  then show ?thesis
    using protection_last_write_wins [OF demo_collab_calm,
        of "[Put_op (1, ''main'') (2, False), Del_op (1, ''dev''), Put_op (1, ''main'') (3, True)]"
          1 "''main''"]
    by (simp add: rule_key_ok_def rule_val_ok_def max_int32_def)
qed

end
