(* ===== verification/Json.thy ===== *)
theory Json
  imports Files
begin

text \<open>
  What the program uses of encoding/json and of the HTTP client: JSON values and the text that
  \<open>json.Marshal\<close> makes of them, and the outgoing requests of the server. The state \<open>net\<close>
  adds to the host the requests sent so far, those that followed redirects, and the answers the remote
  servers will give.
\<close>

section \<open>JSON\<close>

text \<open>\<open>JNum\<close>: the literal of a number that is no integer; \<open>JRaw\<close>: a \<open>json.RawMessage\<close>.\<close>

datatype json =
    JNull | JBool bool | JInt int | JNum string | JStr string | JRaw string
  | JArr "json list" | JObj "(string \<times> json) list"

definition hex2 :: "nat \<Rightarrow> string" where
  "hex2 n = [hex_low (n div 16), hex_low (n mod 16)]"

text \<open>
  One rune of a string: quotes, backslashes, control characters, the HTML characters and the two
  Unicode line separators are escaped, a byte that is not UTF-8 becomes \<open>U+FFFD\<close>.
\<close>

fun json_rune :: "string \<Rightarrow> string" where
  "json_rune [c] =
     (if c = CHR 0x22 \<or> c = CHR 0x5C then [CHR 0x5C, c]
      else if c = CHR 0x08 then [CHR 0x5C, CHR ''b'']
      else if c = CHR 0x0C then [CHR 0x5C, CHR ''f'']
      else if c = CHR 0x0A then [CHR 0x5C, CHR ''n'']
      else if c = CHR 0x0D then [CHR 0x5C, CHR ''r'']
      else if c = CHR 0x09 then [CHR 0x5C, CHR ''t'']
      else if c < CHR '' '' \<or> c = CHR ''<'' \<or> c = CHR ''>'' \<or> c = CHR ''&''
      then CHR 0x5C # ''u00'' @ hex2 (of_char c)
      else if \<not> ascii c then CHR 0x5C # ''ufffd''
      else [c])"
| "json_rune r =
     (if r = [CHR 0xE2, CHR 0x80, CHR 0xA8] then CHR 0x5C # ''u2028''
      else if r = [CHR 0xE2, CHR 0x80, CHR 0xA9] then CHR 0x5C # ''u2029''
      else r)"

definition json_string :: "string \<Rightarrow> string" where
  "json_string s = [CHR 0x22] @ concat (map json_rune (runes s)) @ [CHR 0x22]"

fun json_text :: "json \<Rightarrow> string" where
  "json_text JNull = ''null''"
| "json_text (JBool b) = (if b then ''true'' else ''false'')"
| "json_text (JInt i) = int_str i"
| "json_text (JNum lit) = lit"
| "json_text (JStr s) = json_string s"
| "json_text (JRaw raw) = raw"
| "json_text (JArr vs) = ''['' @ join_str '','' (map json_text vs) @ '']''"
| "json_text (JObj kvs) =
     ''{'' @ join_str '','' (map (\<lambda>kv. json_string (fst kv) @ '':'' @ json_text (snd kv)) kvs) @ ''}''"

text \<open>A Go map: \<open>json.Marshal\<close> writes its entries in the order of the keys.\<close>

definition json_map :: "(string \<times> json) list \<Rightarrow> json" where
  "json_map kvs = JObj (sort_key fst kvs)"

section \<open>Outgoing requests\<close>

record http_request =
  rq_method :: string
  rq_url :: string
  rq_headers :: "(string \<times> string) list"
  rq_body :: string

text \<open>
  An answer: its status and its \<open>Location\<close> header, which is absent, no URL, or a URL (resolved
  against that of the request). \<open>outbox\<close> lists the requests handed to the client, \<open>followed\<close>
  those it made itself to follow redirects, \<open>answers\<close> what the next requests will get.
\<close>

record reply =
  rp_status :: int
  rp_location :: "(goerr + string) option"

record net = host +
  outbox :: "http_request list"
  followed :: "http_request list"
  answers :: "(goerr + reply) list"

abbreviation plain_reply :: "int \<Rightarrow> goerr + reply" where
  "plain_reply status \<equiv> Inr \<lparr>rp_status = status, rp_location = None\<rparr>"

text \<open>
  The redirects of \<open>http.Client\<close>: \<open>hops left as\<close> are what the call ends with, the redirects
  taken on the way (status and target) and the answers left over. An answer that asks for a
  redirect without naming a target is the result; a target that is no URL and an eleventh
  request are errors. When the answers are used up the connection fails.
\<close>

definition redirect_status :: "int \<Rightarrow> bool" where
  "redirect_status status \<longleftrightarrow> status \<in> {301, 302, 303, 307, 308}"

fun hops ::
  "nat \<Rightarrow> (goerr + reply) list \<Rightarrow> (goerr + int) \<times> (int \<times> string) list \<times> (goerr + reply) list" where
  "hops left [] = (Inl (ErrText ''connection refused''), [], [])"
| "hops left (Inl err # as) = (Inl err, [], as)"
| "hops left (Inr rp # as) =
     (if \<not> redirect_status (rp_status rp) then (Inr (rp_status rp), [], as)
      else case rp_location rp of
        None \<Rightarrow> (Inr (rp_status rp), [], as)
      | Some (Inl err) \<Rightarrow> (Inl err, [], as)
      | Some (Inr url) \<Rightarrow>
         (case left of
            0 \<Rightarrow> (Inl (ErrText ''stopped after 10 redirects''), [], as)
          | Suc n \<Rightarrow> (case hops n as of (res, taken, rest) \<Rightarrow> (res, (rp_status rp, url) # taken, rest))))"

abbreviation exchange ::
  "(goerr + reply) list \<Rightarrow> (goerr + int) \<times> (int \<times> string) list \<times> (goerr + reply) list" where
  "exchange \<equiv> hops 9"

text \<open>
  The requests made on the way: the statuses 301, 302 and 303 turn another verb than GET and
  HEAD into a GET and drop the body, 307 and 308 keep the verb and send the body of the first
  request again; the headers are those of the first request (and \<open>Referer\<close>, left out).
\<close>

definition redirected :: "http_request \<Rightarrow> string \<Rightarrow> int \<Rightarrow> string \<Rightarrow> http_request" where
  "redirected first verb status url =
     (if status = 307 \<or> status = 308
      then \<lparr>rq_method = verb, rq_url = url, rq_headers = rq_headers first, rq_body = rq_body first\<rparr>
      else \<lparr>rq_method = (if verb \<in> {''GET'', ''HEAD''} then verb else ''GET''), rq_url = url,
            rq_headers = rq_headers first, rq_body = []\<rparr>)"

fun redirect_chain :: "http_request \<Rightarrow> string \<Rightarrow> (int \<times> string) list \<Rightarrow> http_request list" where
  "redirect_chain first verb [] = []"
| "redirect_chain first verb ((status, url) # taken) =
     (let rq = redirected first verb status url in
      rq # redirect_chain first (rq_method rq) taken)"

text \<open>\<open>client.Do\<close>: the result is an error or the status of the last answer.\<close>

definition client_do :: "http_request \<Rightarrow> ('z net_scheme, goerr + int) st" where
  "client_do rq s =
     (case exchange (answers s) of
        (res, taken, rest) \<Rightarrow>
          (res, s\<lparr>outbox := outbox s @ [rq],
                  followed := followed s @ redirect_chain rq (rq_method rq) taken,
                  answers := rest\<rparr>))"

text \<open>What answers may lead a client to: the targets they name.\<close>

definition targets :: "(goerr + reply) list \<Rightarrow> string set" where
  "targets as = {url. \<exists>rp. Inr rp \<in> set as \<and> redirect_status (rp_status rp) \<and> rp_location rp = Some (Inr url)}"

lemma targets_Cons:
  "targets (a # as) = targets [a] \<union> targets as"
  by (auto simp: targets_def)

lemma hops_inside:
  "hops n as = (res, taken, rest) \<Longrightarrow> length taken \<le> n \<and> snd ` set taken \<subseteq> targets as \<and> set rest \<subseteq> set as"
proof (induction n as arbitrary: res taken rest rule: hops.induct)
  case (3 left rp as)
  show ?case
  proof (cases "redirect_status (rp_status rp) \<and> (\<exists>url. rp_location rp = Some (Inr url)) \<and> left \<noteq> 0")
    case True
    then obtain url n where redirect: "redirect_status (rp_status rp)" "rp_location rp = Some (Inr url)"
      "left = Suc n" by (cases left) auto
    obtain res' taken' rest' where run: "hops n as = (res', taken', rest')" by (rule prod_cases3)
    have "length taken' \<le> n \<and> snd ` set taken' \<subseteq> targets as \<and> set rest' \<subseteq> set as"
      using 3(1) redirect run by auto
    moreover have "targets (Inr rp # as) = insert url (targets as)"
      using redirect by (auto simp: targets_def)
    moreover have "taken = (rp_status rp, url) # taken'" "rest = rest'"
      using 3(2) redirect run by auto
    ultimately show ?thesis using redirect(3) by auto
  next
    case False
    with 3 show ?thesis by (auto split: if_splits option.splits sum.splits nat.splits)
  qed
qed auto

lemma redirect_chain_copies:
  "rq \<in> set (redirect_chain first verb taken) \<Longrightarrow>
     rq_url rq \<in> snd ` set taken \<and> rq_headers rq = rq_headers first \<and> rq_body rq \<in> {[], rq_body first}"
  by (induction first verb taken rule: redirect_chain.induct)
    (auto simp: Let_def redirected_def split: if_splits)

definition sleep :: "time \<Rightarrow> ('z db_scheme, unit) st" where
  "sleep d = modify_state (tick d)"

definition empty_net :: net where
  "empty_net = host.extend empty_host \<lparr>outbox = [], followed = [], answers = []\<rparr>"

end
