(* ===== verification/Webhooks.thy ===== *)
theory Webhooks
  imports Json
begin

text \<open>
  Package \<open>internal/webhooks\<close>: hooks and delivery records, signing, and the dispatcher with its
  retries. The dispatcher works on any hook store; the locale \<open>hook_store\<close> states what it
  relies on and the PostgreSQL store is its interpretation. Shown: which requests an event
  causes and what is recorded about them, signatures, and where the event header goes wrong.
\<close>

section \<open>Hooks and deliveries\<close>

definition EventPush :: string where "EventPush = ''push''"
definition EventPullMerge :: string where "EventPullMerge = ''pull_request''"
definition EventIssue :: string where "EventIssue = ''issue''"

definition stmt_insert_hook ::
  "int \<Rightarrow> string \<Rightarrow> string \<Rightarrow> string list \<Rightarrow> ('z db_scheme, goerr + hook) st" where
  "stmt_insert_hook rid url secret events =
     and_then (next_id T_webhooks) (\<lambda>i s.
       if \<not> repo_exists s rid then (Inl fk_violation, s)
       else
        (let h = \<lparr>hook_id = i, hook_url = url, hook_secret = secret, hook_events = events\<rparr> in
         (Inr h, s\<lparr>t_hooks := t_hooks s @
            [\<lparr>hrow_repo = rid, hrow_active = True, hrow_hook = h\<rparr>]\<rparr>)))"

definition CreateHook ::
  "int \<Rightarrow> string \<Rightarrow> string \<Rightarrow> string list \<Rightarrow> ('z db_scheme, goerr + hook) st" where
  "CreateHook repositoryID url secret events =
     on_result (pool (stmt_insert_hook repositoryID url secret events))
       (\<lambda>err. fail (wrap_err ''insert webhook'' err))
       (\<lambda>hook. ok hook)"

text \<open>\<open>events @> $2\<close>: the array contains the event; the empty event type selects every hook.\<close>

definition hook_matches :: "int \<Rightarrow> string \<Rightarrow> hook_row \<Rightarrow> bool" where
  "hook_matches rid event r \<longleftrightarrow> hrow_repo r = rid \<and> hrow_active r \<and>
     (event \<noteq> [] \<longrightarrow> event \<in> set (hook_events (hrow_hook r)))"

definition stmt_list_hooks :: "int \<Rightarrow> string \<Rightarrow> ('z db_scheme, goerr + hook list) st" where
  "stmt_list_hooks rid event s = (Inr (map hrow_hook (filter (hook_matches rid event) (t_hooks s))), s)"

definition listHooksQuery :: "int \<Rightarrow> string \<Rightarrow> ('z db_scheme, goerr + hook list) st" where
  "listHooksQuery repositoryID eventType =
     on_result (pool (stmt_list_hooks repositoryID eventType))
       (\<lambda>err. fail (wrap_err ''list webhooks'' err))
       (\<lambda>hooks. ok hooks)"

definition ListAllHooks :: "int \<Rightarrow> ('z db_scheme, goerr + hook list) st" where
  "ListAllHooks repositoryID = listHooksQuery repositoryID []"

definition ListHooks :: "int \<Rightarrow> string \<Rightarrow> ('z db_scheme, goerr + hook list) st" where
  "ListHooks repositoryID eventType = listHooksQuery repositoryID eventType"

text \<open>Deleting a hook deletes its deliveries (\<open>ON DELETE CASCADE\<close>).\<close>

definition stmt_delete_hook :: "int \<Rightarrow> int \<Rightarrow> ('z db_scheme, goerr + nat) st" where
  "stmt_delete_hook rid hid s =
     (let hit = (\<lambda>r. hrow_repo r = rid \<and> hook_id (hrow_hook r) = hid);
          n = length (filter hit (t_hooks s)) in
      (Inr n, s\<lparr>t_hooks := delete_rows hit (t_hooks s),
                t_deliveries := delete_rows
                  (\<lambda>d. n \<noteq> 0 \<and> dlv_webhook (drow_delivery d) = hid) (t_deliveries s)\<rparr>))"

definition DeleteHook :: "int \<Rightarrow> int \<Rightarrow> ('z db_scheme, goerr + unit) st" where
  "DeleteHook repositoryID hookID =
     on_result (pool (stmt_delete_hook repositoryID hookID))
       (\<lambda>err. fail (wrap_err ''delete webhook'' err))
       (\<lambda>affected. if affected = 0 then fail (ErrText ''webhook not found'') else ok ())"

definition stmt_insert_delivery ::
  "int \<Rightarrow> string \<Rightarrow> string \<Rightarrow> int \<Rightarrow> bool \<Rightarrow> ('z db_scheme, goerr + unit) st" where
  "stmt_insert_delivery hid event payload status delivered =
     and_then (next_id T_deliveries) (\<lambda>i s.
       if hid \<notin> (\<lambda>r. hook_id (hrow_hook r)) ` set (t_hooks s) then (Inl fk_violation, s)
       else (Inr (), s\<lparr>t_deliveries := t_deliveries s @
          [\<lparr>drow_created = clock s, drow_delivery =
             \<lparr>dlv_id = i, dlv_webhook = hid, dlv_event = event, dlv_payload = payload,
              dlv_status = status, dlv_attempts = 1, dlv_delivered = delivered\<rparr>\<rparr>]\<rparr>))"

definition RecordDelivery ::
  "int \<Rightarrow> string \<Rightarrow> string \<Rightarrow> int \<Rightarrow> ('z db_scheme, goerr + unit) st" where
  "RecordDelivery hookID eventType payload status =
     (let delivered = (200 \<le> status \<and> status < 300) in
      on_result (pool (stmt_insert_delivery hookID eventType payload status delivered))
        (\<lambda>err. fail (wrap_err ''record delivery'' err))
        (\<lambda>_. ok ()))"

definition stmt_list_deliveries :: "int \<Rightarrow> ('z db_scheme, goerr + delivery list) st" where
  "stmt_list_deliveries rid s =
     (Inr (take 50 (map drow_delivery (sort_key (\<lambda>d. - drow_created d)
        (filter (\<lambda>d. \<exists>h\<in>set (t_hooks s). hook_id (hrow_hook h) = dlv_webhook (drow_delivery d)
             \<and> hrow_repo h = rid) (t_deliveries s))))), s)"

definition ListDeliveries :: "int \<Rightarrow> ('z db_scheme, goerr + delivery list) st" where
  "ListDeliveries repositoryID =
     on_result (pool (stmt_list_deliveries repositoryID))
       (\<lambda>err. fail (wrap_err ''list deliveries'' err))
       (\<lambda>deliveries. ok deliveries)"

section \<open>Signatures\<close>

text \<open>\<open>hmac_sha256 key message\<close> stands for crypto/hmac over crypto/sha256.\<close>

definition hex_encode :: "string \<Rightarrow> string" where
  "hex_encode bytes = concat (map (\<lambda>c. hex2 (of_char c)) bytes)"

definition Sign :: "(string \<Rightarrow> string \<Rightarrow> string) \<Rightarrow> string \<Rightarrow> string \<Rightarrow> string" where
  "Sign hmac_sha256 secret payload =
     (if secret = [] then [] else ''sha256='' @ hex_encode (hmac_sha256 secret payload))"

definition Verify :: "(string \<Rightarrow> string \<Rightarrow> string) \<Rightarrow> string \<Rightarrow> string \<Rightarrow> string \<Rightarrow> bool" where
  "Verify hmac_sha256 secret payload signature =
     (if secret = [] then True else Sign hmac_sha256 secret payload = signature)"

section \<open>The dispatcher\<close>

text \<open>
  The dispatcher's store interface and what else it is given: the MAC, \<open>parse_url\<close> (the check
  \<open>http.NewRequest\<close> makes), the text of a timestamp, and the context of the call:
  \<open>dsp_cancelled d s\<close> says that it is done before the wait that begins in \<open>s\<close> is over. What the
  calls made under a context that is done come to is in the answers and in the faults.
\<close>

record 'w dispatcher =
  dsp_list :: "int \<Rightarrow> string \<Rightarrow> ('w, goerr + hook list) st"
  dsp_record :: "int \<Rightarrow> string \<Rightarrow> string \<Rightarrow> int \<Rightarrow> ('w, goerr + unit) st"
  dsp_max_retries :: int
  dsp_mac :: "string \<Rightarrow> string \<Rightarrow> string"
  dsp_parse_url :: "string \<Rightarrow> goerr option"
  dsp_time_text :: "time \<Rightarrow> string"
  dsp_cancelled :: "'w \<Rightarrow> bool"

definition eventTypeHeader :: "hook \<Rightarrow> string" where
  "eventTypeHeader hook = (case hook_events hook of e # _ \<Rightarrow> e | [] \<Rightarrow> [])"

definition delivery_request :: "(string \<Rightarrow> string \<Rightarrow> string) \<Rightarrow> hook \<Rightarrow> string \<Rightarrow> http_request" where
  "delivery_request mac hook payload =
     \<lparr>rq_method = ''POST'', rq_url = hook_url hook,
      rq_headers = [(''Content-Type'', ''application/json''),
                    (''X-GitCastle-Event'', eventTypeHeader hook),
                    (''X-GitCastle-Signature'', Sign mac (hook_secret hook) payload)],
      rq_body = payload\<rparr>"

definition deliverOnce ::
  "'z net_scheme dispatcher \<Rightarrow> hook \<Rightarrow> string \<Rightarrow> ('z net_scheme, int) st" where
  "deliverOnce d hook payload =
     (case dsp_parse_url d (hook_url hook) of
        Some err \<Rightarrow> ret 0
      | None \<Rightarrow> on_result (client_do (delivery_request (dsp_mac d) hook payload))
          (\<lambda>err. ret 0)
          (\<lambda>status. ret status))"

text \<open>\<open>retry_loop left attempt status\<close>: the loop with \<open>left\<close> iterations to go.\<close>

fun retry_loop ::
  "'z net_scheme dispatcher \<Rightarrow> hook \<Rightarrow> string \<Rightarrow> nat \<Rightarrow> nat \<Rightarrow> int \<Rightarrow> ('z net_scheme, int) st" where
  "retry_loop d hook payload 0 attempt status = ret status"
| "retry_loop d hook payload (Suc left) attempt _ =
     and_then (deliverOnce d hook payload) (\<lambda>status.
       if 200 \<le> status \<and> status < 300 then ret status
       else and_then (read_state (dsp_cancelled d)) (\<lambda>cancelled.
         if cancelled then ret status
         else and_then (sleep (int (attempt + 1) * 500000)) (\<lambda>_.
           retry_loop d hook payload left (attempt + 1) status)))"

definition deliverWithRetries ::
  "'z net_scheme dispatcher \<Rightarrow> hook \<Rightarrow> string \<Rightarrow> int \<Rightarrow> ('z net_scheme, int) st" where
  "deliverWithRetries d hook payload maxRetries = retry_loop d hook payload (nat maxRetries) 0 0"

definition payload_json ::
  "string \<Rightarrow> string \<Rightarrow> string \<Rightarrow> string \<Rightarrow> (string \<times> json) list \<Rightarrow> json" where
  "payload_json event repo actor timestamp data =
     JObj ([(''event'', JStr event), (''repository'', JStr repo), (''actor'', JStr actor),
            (''timestamp'', JStr timestamp)] @
           (if data = [] then [] else [(''data'', json_map data)]))"

fun deliver_all ::
  "'z net_scheme dispatcher \<Rightarrow> string \<Rightarrow> string \<Rightarrow> int \<Rightarrow> hook list \<Rightarrow> ('z net_scheme, unit) st" where
  "deliver_all d event payload maxRetries [] = ret ()"
| "deliver_all d event payload maxRetries (hook # hooks) =
     and_then (deliverWithRetries d hook payload maxRetries) (\<lambda>status.
       discard_result (dsp_record d (hook_id hook) event payload status)
         (deliver_all d event payload maxRetries hooks))"

definition dispatch_payload ::
  "'z net_scheme dispatcher \<Rightarrow> string \<Rightarrow> string \<Rightarrow> string \<Rightarrow> (string \<times> json) list \<Rightarrow> time \<Rightarrow> string" where
  "dispatch_payload d event repo actor data now =
     json_text (payload_json event repo actor (dsp_time_text d now) data)"

definition Dispatch ::
  "'z net_scheme dispatcher \<Rightarrow> int \<Rightarrow> string \<Rightarrow> string \<Rightarrow> string \<Rightarrow> (string \<times> json) list
    \<Rightarrow> ('z net_scheme, unit) st" where
  "Dispatch d repositoryID eventType repoSlug actor data =
     on_result (dsp_list d repositoryID eventType)
       (\<lambda>err. ret ())
       (\<lambda>hooks. and_then (read_state clock) (\<lambda>now.
         let payload = dispatch_payload d eventType repoSlug actor data now;
             maxRetries = (if dsp_max_retries d \<le> 0 then 3 else dsp_max_retries d) in
         deliver_all d eventType payload maxRetries hooks))"

definition pg_dispatcher ::
  "int \<Rightarrow> (string \<Rightarrow> string \<Rightarrow> string) \<Rightarrow> (string \<Rightarrow> goerr option) \<Rightarrow> (time \<Rightarrow> string)
    \<Rightarrow> ('z net_scheme \<Rightarrow> bool) \<Rightarrow> 'z net_scheme dispatcher" where
  "pg_dispatcher retries mac parse_url time_text cancelled =
     \<lparr>dsp_list = ListHooks, dsp_record = RecordDelivery, dsp_max_retries = retries,
      dsp_mac = mac, dsp_parse_url = parse_url, dsp_time_text = time_text,
      dsp_cancelled = cancelled\<rparr>"

section \<open>Retries\<close>

definition success :: "int \<Rightarrow> bool" where
  "success status \<longleftrightarrow> 200 \<le> status \<and> status < 300"

text \<open>
  The answers left over after i attempts, each of which may use up several on redirects, and
  the status \<open>deliverOnce\<close> makes of the i-th attempt.
\<close>

primrec answers_after :: "nat \<Rightarrow> (goerr + reply) list \<Rightarrow> (goerr + reply) list" where
  "answers_after 0 as = as"
| "answers_after (Suc i) as = answers_after i (snd (snd (exchange as)))"

definition status_of :: "(goerr + reply) list \<Rightarrow> nat \<Rightarrow> int" where
  "status_of as i = (case fst (exchange (answers_after i as)) of Inl _ \<Rightarrow> 0 | Inr c \<Rightarrow> c)"

lemma status_of_Suc: "status_of (answers_after (Suc 0) as) i = status_of as (Suc i)"
  by (simp add: status_of_def)

lemma client_do_effect [simp]:
  "outbox (snd (client_do rq s)) = outbox s @ [rq]"
  "answers (snd (client_do rq s)) = answers_after (Suc 0) (answers s)"
  "followed (snd (client_do rq s)) =
     followed s @ redirect_chain rq (rq_method rq) (fst (snd (exchange (answers s))))"
  by (simp_all add: client_do_def split: prod.split)

lemma client_do_frame:
  assumes "\<And>s g. f (outbox_update g s) = f s" "\<And>s g. f (followed_update g s) = f s"
    "\<And>s g. f (answers_update g s) = f s"
  shows "f (snd (client_do rq s)) = f s"
  by (simp add: client_do_def assms split: prod.split)

lemma deliverOnce_run:
  assumes "dsp_parse_url d (hook_url hook) = None"
  shows "deliverOnce d hook payload s =
    (status_of (answers s) 0, snd (client_do (delivery_request (dsp_mac d) hook payload) s))"
  using assms
  by (simp add: deliverOnce_def on_result_apply client_do_def status_of_def split: prod.split sum.split)

lemma retry_loop_Suc:
  fixes s :: "'z net_scheme" and payload :: string
  assumes "dsp_parse_url d (hook_url hook) = None"
  defines "s1 \<equiv> snd (client_do (delivery_request (dsp_mac d) hook payload) s)"
    and "st \<equiv> status_of (answers s) 0"
  shows "retry_loop d hook payload (Suc left) a st0 s =
    (if success st \<or> dsp_cancelled d s1 then (st, s1)
     else retry_loop d hook payload left (a + 1) st (tick (int (a + 1) * 500000) s1))"
  unfolding retry_loop.simps(2) and_then_apply deliverOnce_run [OF assms(1)]
  by (simp add: and_then_apply success_def sleep_def s1_def [symmetric] st_def [symmetric])

lemma deliverOnce_bad_url:
  "dsp_parse_url d (hook_url hook) = Some e \<Longrightarrow> deliverOnce d hook payload s = (0, s)"
  by (simp add: deliverOnce_def)

lemma network_tick [simp]:
  "outbox (tick c s) = outbox s" "followed (tick c s) = followed s" "answers (tick c s) = answers s"
  by (simp_all add: tick_def)

lemma retry_loop_counts:
  assumes "dsp_parse_url d (hook_url hook) = None"
    and "retry_loop d hook payload (Suc left) a st0 s = (status, t)"
  shows "\<exists>k\<ge>1. k \<le> Suc left \<and> outbox t = outbox s @ replicate k (delivery_request (dsp_mac d) hook payload)
    \<and> (\<forall>i<k - 1. \<not> success (status_of (answers s) i))
    \<and> status = status_of (answers s) (k - 1)
    \<and> (success status \<or> k = Suc left \<or> dsp_cancelled d t)"
  using assms(2)
proof (induction left arbitrary: a st0 s)
  case 0
  then show ?case
    by (intro exI [of _ 1])
      (auto simp: retry_loop_Suc [OF assms(1)] simp del: retry_loop.simps(2)
        split: if_splits)
next
  case (Suc left)
  let ?rq = "delivery_request (dsp_mac d) hook payload" and ?st = "status_of (answers s) 0"
  let ?s1 = "snd (client_do ?rq s)"
  show ?case
  proof (cases "success ?st \<or> dsp_cancelled d ?s1")
    case True
    then have "status = ?st \<and> t = ?s1"
      using Suc.prems unfolding retry_loop_Suc [OF assms(1)] by auto
    then show ?thesis using True by (intro exI [of _ 1]) auto
  next
    case False
    let ?s2 = "tick (int (a + 1) * 500000) ?s1"
    have "retry_loop d hook payload (Suc left) (a + 1) ?st ?s2 = (status, t)"
      using Suc.prems False unfolding retry_loop_Suc [OF assms(1), of _ "Suc left"] by simp
    from Suc.IH [OF this] obtain k where k: "1 \<le> k" "k \<le> Suc left"
      "outbox t = outbox ?s2 @ replicate k ?rq"
      "\<forall>i<k - 1. \<not> success (status_of (answers ?s2) i)"
      "status = status_of (answers ?s2) (k - 1)"
      "success status \<or> k = Suc left \<or> dsp_cancelled d t" by blast
    have shift: "status_of (answers ?s2) i = status_of (answers s) (Suc i)" for i
      by (simp add: status_of_def)
    have "\<not> success (status_of (answers s) i)" if "i < k" for i
      using that False k(4) shift by (cases i) auto
    then show ?thesis
      using k shift by (intro exI [of _ "Suc k"]) auto
  qed
qed

text \<open>
  C17: Bounded retries. For a hook with a well-formed URL \<open>deliverWithRetries\<close> sends the same
  signed request at least once and at most \<open>maxRetries\<close> times; every attempt but the last
  failed; the status it returns is the last attempt's; and it gives up early only after a
  success or when its context is done.
\<close>

theorem delivery_retries:
  assumes "dsp_parse_url d (hook_url hook) = None" and "0 < maxRetries"
    and "deliverWithRetries d hook payload maxRetries s = (status, t)"
  shows "\<exists>k\<ge>1. int k \<le> maxRetries
    \<and> outbox t = outbox s @ replicate k (delivery_request (dsp_mac d) hook payload)
    \<and> (\<forall>i<k - 1. \<not> success (status_of (answers s) i))
    \<and> status = status_of (answers s) (k - 1)
    \<and> (success status \<or> int k = maxRetries \<or> dsp_cancelled d t)"
proof -
  obtain left where left: "nat maxRetries = Suc left"
    using assms(2) by (cases "nat maxRetries") auto
  then obtain k where "k \<ge> 1" "k \<le> Suc left" "outbox t = outbox s @ replicate k (delivery_request (dsp_mac d) hook payload)"
    "\<forall>i<k - 1. \<not> success (status_of (answers s) i)" "status = status_of (answers s) (k - 1)"
    "success status \<or> k = Suc left \<or> dsp_cancelled d t"
    using retry_loop_counts [OF assms(1), of payload left 0 0 s status t] assms(3)
    by (auto simp: deliverWithRetries_def simp del: retry_loop.simps)
  then show ?thesis using left assms(2) by (intro exI [of _ k]) auto
qed

section \<open>What an event causes\<close>

text \<open>
  The requests that following redirects can make of a request: to one of the targets, with its
  headers and its body or none.
\<close>

definition forwarded :: "http_request \<Rightarrow> string set \<Rightarrow> http_request set" where
  "forwarded origin urls =
     {rq. rq_url rq \<in> urls \<and> rq_headers rq = rq_headers origin \<and> rq_body rq \<in> {[], rq_body origin}}"

lemma forwarded_mono: "urls \<subseteq> urls' \<Longrightarrow> forwarded origin urls \<subseteq> forwarded origin urls'"
  by (auto simp: forwarded_def)

lemma targets_mono: "set as \<subseteq> set as' \<Longrightarrow> targets as \<subseteq> targets as'"
  by (auto simp: targets_def)

lemma client_do_safe:
  "\<exists>fl. followed (snd (client_do rq s)) = followed s @ fl
     \<and> set fl \<subseteq> forwarded rq (targets (answers s)) \<and> length fl \<le> 9
     \<and> set (answers (snd (client_do rq s))) \<subseteq> set (answers s)"
proof -
  obtain res taken rest where run: "exchange (answers s) = (res, taken, rest)" by (rule prod_cases3)
  have "set (redirect_chain rq (rq_method rq) taken) \<subseteq> forwarded rq (targets (answers s))"
    using hops_inside [OF run] by (auto simp: forwarded_def dest: redirect_chain_copies)
  moreover have "length (redirect_chain rq m taken) = length taken" for m
    by (induction rq m taken rule: redirect_chain.induct) (auto simp: Let_def)
  ultimately show ?thesis using hops_inside [OF run] run by auto
qed

text \<open>
  What the dispatcher relies on: \<open>matching s rid event\<close> are the hooks an event concerns, and
  \<open>records s\<close> is the list of deliveries recorded so far. Neither operation of the store sends
  anything, and sending changes neither hooks nor records.
\<close>

definition network :: "'z net_scheme \<Rightarrow> http_request list \<times> http_request list \<times> (goerr + reply) list" where
  "network s = (outbox s, followed s, answers s)"

locale hook_store =
  fixes list_hooks :: "int \<Rightarrow> string \<Rightarrow> ('z net_scheme, goerr + hook list) st"
    and record_delivery :: "int \<Rightarrow> string \<Rightarrow> string \<Rightarrow> int \<Rightarrow> ('z net_scheme, goerr + unit) st"
    and matching :: "'z net_scheme \<Rightarrow> int \<Rightarrow> string \<Rightarrow> hook list"
    and records :: "'z net_scheme \<Rightarrow> (int \<times> string \<times> string \<times> int) list"
  assumes list_Inr: "list_hooks rid ev s = (Inr hs, t) \<Longrightarrow> hs = matching s rid ev"
    and list_same: "list_hooks rid ev s = (r, t) \<Longrightarrow>
      records t = records s \<and> network t = network s \<and> clock t = clock s"
    and record_adds: "record_delivery h ev p st s = (res, t) \<Longrightarrow>
      network t = network s \<and> (records t = records s \<or> records t = records s @ [(h, ev, p, st)])"
    and records_tick [simp]: "records (tick c s) = records s"
    and records_send [simp]: "records (snd (client_do rq s)) = records s"
begin

lemma retry_loop_safe:
  assumes "retry_loop d hook payload left a st0 s = (status, t)"
  defines "rq \<equiv> delivery_request (dsp_mac d) hook payload"
  shows "records t = records s \<and> (\<exists>k fl. k \<le> left \<and> outbox t = outbox s @ replicate k rq
    \<and> followed t = followed s @ fl \<and> set fl \<subseteq> forwarded rq (targets (answers s)) \<and> length fl \<le> 9 * k)
    \<and> set (answers t) \<subseteq> set (answers s)"
  using assms(1)
proof (induction left arbitrary: a st0 s)
  case (Suc left)
  show ?case
  proof (cases "dsp_parse_url d (hook_url hook)")
    case None
    let ?s1 = "snd (client_do rq s)"
    obtain f1 where f1: "followed ?s1 = followed s @ f1" "set f1 \<subseteq> forwarded rq (targets (answers s))"
      "length f1 \<le> 9" "set (answers ?s1) \<subseteq> set (answers s)"
      using client_do_safe [of rq s] by blast
    show ?thesis
    proof (cases "t = ?s1")
      case True
      with f1 show ?thesis by (intro conjI exI [of _ 1] exI [of _ f1]) simp_all
    next
      case False
      then have "retry_loop d hook payload left (a + 1) (status_of (answers s) 0)
          (tick (int (a + 1) * 500000) ?s1) = (status, t)"
        using Suc.prems unfolding retry_loop_Suc [OF None] rq_def by (auto split: if_splits)
      from Suc.IH [OF this] obtain k fl where k: "k \<le> left" "records t = records s"
        "outbox t = outbox s @ rq # replicate k rq" "followed t = followed ?s1 @ fl"
        "set fl \<subseteq> forwarded rq (targets (answers ?s1))" "length fl \<le> 9 * k" "set (answers t) \<subseteq> set (answers ?s1)"
        unfolding network_tick records_tick records_send client_do_effect(1) append_assoc append.simps by blast
      have "set fl \<subseteq> forwarded rq (targets (answers s))"
        by (rule order_trans [OF k(5) forwarded_mono [OF targets_mono [OF f1(4)]]])
      with k f1 show ?thesis
        by (intro conjI exI [of _ "Suc k"] exI [of _ "f1 @ fl"]) auto
    qed
  next
    case (Some e)
    then have "(status, t) = (0, s) \<or>
        retry_loop d hook payload left (a + 1) 0 (tick (int (a + 1) * 500000) s) = (status, t)"
      using Suc.prems
      by (auto simp: and_then_apply deliverOnce_bad_url sleep_def split: if_splits)
    then show ?thesis
    proof
      assume "retry_loop d hook payload left (a + 1) 0 (tick (int (a + 1) * 500000) s) = (status, t)"
      from Suc.IH [OF this] show ?thesis by (auto intro: le_SucI)
    qed auto
  qed
qed auto

text \<open>
  Whatever fails: everything an event sends is a request to a matching hook, with the event's
  payload, signed with the secret of that hook; everything recorded is about such a hook; and
  the client itself repeats such requests only to the targets of redirects.
\<close>

lemma deliver_all_safe:
  assumes "deliver_all d ev payload n hooks s = (u, t)" and rec: "dsp_record d = record_delivery"
  defines "rq \<equiv> \<lambda>h. delivery_request (dsp_mac d) h payload"
  shows "\<exists>sent fl recs. outbox t = outbox s @ sent \<and> followed t = followed s @ fl
    \<and> records t = records s @ recs \<and> set sent \<subseteq> rq ` set hooks
    \<and> set fl \<subseteq> (\<Union>h\<in>set hooks. forwarded (rq h) (targets (answers s))) \<and> length fl \<le> 9 * length sent
    \<and> (\<forall>(h, e, p, st)\<in>set recs. h \<in> hook_id ` set hooks \<and> e = ev \<and> p = payload)
    \<and> length sent \<le> nat n * length hooks \<and> length recs \<le> length hooks"
  using assms(1)
proof (induction hooks arbitrary: s)
  case Nil
  then show ?case by auto
next
  case (Cons hook hooks)
  obtain st s1 where 1: "deliverWithRetries d hook payload n s = (st, s1)" by fastforce
  obtain r s2 where 2: "record_delivery (hook_id hook) ev payload st s1 = (r, s2)" by fastforce
  have 3: "deliver_all d ev payload n hooks s2 = (u, t)"
    using Cons.prems 1 2 by (simp add: and_then_apply discard_result_apply rec)
  from retry_loop_safe [OF 1 [unfolded deliverWithRetries_def]] obtain k f1 where k: "k \<le> nat n"
    "records s1 = records s" "outbox s1 = outbox s @ replicate k (rq hook)" "followed s1 = followed s @ f1"
    "set f1 \<subseteq> forwarded (rq hook) (targets (answers s))" "length f1 \<le> 9 * k"
    "set (answers s1) \<subseteq> set (answers s)" by (auto simp: rq_def)
  have r: "outbox s2 = outbox s1" "followed s2 = followed s1" "answers s2 = answers s1"
    using record_adds [OF 2] by (simp_all add: network_def)
  obtain recs1 where recs1: "records s2 = records s1 @ recs1"
    "recs1 = [] \<or> recs1 = [(hook_id hook, ev, payload, st)]"
    using record_adds [OF 2] that [of "[]"] that [of "[(hook_id hook, ev, payload, st)]"] by auto
  from Cons.IH [OF 3] obtain sent fl recs where s: "outbox t = outbox s2 @ sent" "followed t = followed s2 @ fl"
    "records t = records s2 @ recs" "set sent \<subseteq> rq ` set hooks"
    "set fl \<subseteq> (\<Union>h\<in>set hooks. forwarded (rq h) (targets (answers s2)))" "length fl \<le> 9 * length sent"
    "\<forall>(h, e, p, st)\<in>set recs. h \<in> hook_id ` set hooks \<and> e = ev \<and> p = payload"
    "length sent \<le> nat n * length hooks" "length recs \<le> length hooks" by blast
  have "forwarded (rq h) (targets (answers s2)) \<subseteq> forwarded (rq h) (targets (answers s))" for h
    unfolding r(3) by (rule forwarded_mono [OF targets_mono [OF k(7)]])
  then have fl: "set fl \<subseteq> (\<Union>h\<in>set hooks. forwarded (rq h) (targets (answers s)))"
    by (rule order_trans [OF s(5) UN_mono [OF order_refl]])
  show ?case
  proof (intro exI conjI)
    show "outbox t = outbox s @ (replicate k (rq hook) @ sent)" using k r s by simp
    show "followed t = followed s @ (f1 @ fl)" using k r s by simp
    show "records t = records s @ (recs1 @ recs)" using k recs1 s by simp
    show "set (replicate k (rq hook) @ sent) \<subseteq> rq ` set (hook # hooks)" using s(4) by auto
    show "set (f1 @ fl) \<subseteq> (\<Union>h\<in>set (hook # hooks). forwarded (rq h) (targets (answers s)))"
      using k(5) fl by auto
    show "length (f1 @ fl) \<le> 9 * length (replicate k (rq hook) @ sent)" using k(6) s(6) by simp
    show "\<forall>(h, e, p, st)\<in>set (recs1 @ recs). h \<in> hook_id ` set (hook # hooks) \<and> e = ev \<and> p = payload"
      using s(7) recs1(2) by auto
    show "length (replicate k (rq hook) @ sent) \<le> nat n * length (hook # hooks)"
      using k(1) s(8) by simp
    show "length (recs1 @ recs) \<le> length (hook # hooks)" using recs1(2) s(9) by auto
  qed
qed

lemma Dispatch_safe:
  assumes "Dispatch d rid ev slug actor data s = (u, t)"
    and "dsp_list d = list_hooks" and "dsp_record d = record_delivery"
  defines "payload \<equiv> dispatch_payload d ev slug actor data (clock s)"
  defines "rq \<equiv> \<lambda>h. delivery_request (dsp_mac d) h payload"
  shows "\<exists>sent fl recs. outbox t = outbox s @ sent \<and> followed t = followed s @ fl
    \<and> records t = records s @ recs \<and> set sent \<subseteq> rq ` set (matching s rid ev)
    \<and> set fl \<subseteq> (\<Union>h\<in>set (matching s rid ev). forwarded (rq h) (targets (answers s)))
    \<and> length fl \<le> 9 * length sent
    \<and> (\<forall>(h, e, p, st)\<in>set recs. h \<in> hook_id ` set (matching s rid ev) \<and> e = ev \<and> p = payload)
    \<and> length recs \<le> length (matching s rid ev)"
proof -
  obtain r s1 where 1: "list_hooks rid ev s = (r, s1)" by fastforce
  note same = list_same [OF 1, unfolded network_def]
  show ?thesis
  proof (cases r)
    case (Inl e)
    then have "t = s1" using assms(1) 1 by (simp add: Dispatch_def on_result_apply assms(2))
    with same show ?thesis by (intro exI [of _ "[]"]) simp
  next
    case (Inr hooks)
    then have hooks: "hooks = matching s rid ev" using 1 list_Inr by simp
    have "deliver_all d ev payload (if dsp_max_retries d \<le> 0 then 3 else dsp_max_retries d) hooks s1 = (u, t)"
      using assms(1) 1 Inr same
      by (simp add: Dispatch_def on_result_apply assms(2) and_then_apply Let_def payload_def)
    from deliver_all_safe [OF this assms(3)] same show ?thesis
      unfolding hooks rq_def by auto
  qed
qed

end

section \<open>The PostgreSQL store keeps the contract\<close>

text \<open>The active hooks of a repository that subscribed to an event (to any, for the empty event).\<close>

definition matching_hooks :: "'z db_scheme \<Rightarrow> int \<Rightarrow> string \<Rightarrow> hook list" where
  "matching_hooks s rid ev = [hrow_hook r. r \<leftarrow> t_hooks s, hrow_repo r = rid \<and> hrow_active r \<and>
     (ev = [] \<or> ev \<in> set (hook_events (hrow_hook r)))]"

lemma matching_hooks_filter: "matching_hooks s rid ev = map hrow_hook (filter (hook_matches rid ev) (t_hooks s))"
proof -
  have "concat (map (\<lambda>r. if hrow_repo r = rid \<and> hrow_active r \<and> (ev = [] \<or> ev \<in> set (hook_events (hrow_hook r)))
      then [hrow_hook r] else []) rs) = map hrow_hook (filter (hook_matches rid ev) rs)" for rs
    by (induction rs) (auto simp: hook_matches_def)
  then show ?thesis by (simp add: matching_hooks_def)
qed

definition delivery_records :: "'z db_scheme \<Rightarrow> (int \<times> string \<times> string \<times> int) list" where
  "delivery_records s = map (\<lambda>r. (dlv_webhook (drow_delivery r), dlv_event (drow_delivery r),
     dlv_payload (drow_delivery r), dlv_status (drow_delivery r))) (t_deliveries s)"

interpretation pg_hooks: hook_store ListHooks RecordDelivery matching_hooks
    "delivery_records :: 'z net_scheme \<Rightarrow> _"
proof unfold_locales
  fix rid h :: int and ev p and st c and hs r r' and s t :: "'z net_scheme" and rq
  show "hs = matching_hooks s rid ev" if "ListHooks rid ev s = (Inr hs, t)"
    using that unfolding ListHooks_def listHooksQuery_def
    by (auto elim!: on_resultE pool_resultE simp: stmt_list_hooks_def matching_hooks_filter)
  show "delivery_records t = delivery_records s \<and> network t = network s \<and> clock t = clock s"
    if "ListHooks rid ev s = (r, t)"
    using that unfolding ListHooks_def listHooksQuery_def
    by (auto elim!: on_resultE pool_resultE simp: stmt_list_hooks_def delivery_records_def network_def)
  show "network t = network s \<and> (delivery_records t = delivery_records s \<or>
      delivery_records t = delivery_records s @ [(h, ev, p, st)])"
    if "RecordDelivery h ev p st s = (r', t)"
    using that unfolding RecordDelivery_def Let_def
    by (auto elim!: on_resultE pool_resultE simp: stmt_insert_delivery_def and_then_apply next_id_def
        delivery_records_def network_def split: if_splits)
  show "delivery_records (tick c s) = delivery_records s"
    by (simp add: delivery_records_def tick_def)
  show "delivery_records (snd (client_do rq s)) = delivery_records s"
    by (rule client_do_frame) (simp_all add: delivery_records_def)
qed

text \<open>
  C16: Only subscribers hear of an event. Whatever fails on the way, everything \<open>Dispatch\<close> hands to
  the HTTP client is a POST to an active hook of that repository which subscribed to the event;
  its body is the JSON of the event, with the repository, the actor, the time of the call and
  the data, and its signature header is the HMAC of that body under the hook's own secret (empty
  for a hook without a secret). The client itself repeats such a request, at most nine times,
  only to follow redirects the answers ask for, with the same headers and the same body or none.
  Everything recorded is about such a hook, with this event and payload, at most once each.
\<close>

theorem dispatch_only_subscribers:
  assumes "Dispatch (pg_dispatcher n mac parse_url time_text cancelled) rid ev slug actor data s = (u, t)"
  defines "payload \<equiv> json_text (payload_json ev slug actor (time_text (clock s)) data)"
  shows "\<exists>sent fl recs. outbox t = outbox s @ sent \<and> followed t = followed s @ fl
    \<and> delivery_records t = delivery_records s @ recs
    \<and> set sent \<subseteq> (\<lambda>h. delivery_request mac h payload) ` set (matching_hooks s rid ev)
    \<and> set fl \<subseteq> (\<Union>h\<in>set (matching_hooks s rid ev).
          forwarded (delivery_request mac h payload) (targets (answers s)))
    \<and> length fl \<le> 9 * length sent
    \<and> (\<forall>(h, e, p, st)\<in>set recs. h \<in> hook_id ` set (matching_hooks s rid ev) \<and> e = ev \<and> p = payload)
    \<and> length recs \<le> length (matching_hooks s rid ev)"
  using pg_hooks.Dispatch_safe [OF assms(1)]
  unfolding pg_dispatcher_def dispatch_payload_def payload_def dispatcher.simps by blast

definition header :: "string \<Rightarrow> http_request \<Rightarrow> string option" where
  "header name rq = map_of (rq_headers rq) name"


section \<open>Without failures every subscriber is served\<close>

lemma deliverWithRetries_same:
  assumes "\<And>s c. f (tick c s) = f s" and "\<And>s g. f (outbox_update g s) = f s"
    and "\<And>s g. f (followed_update g s) = f s" and "\<And>s g. f (answers_update g s) = f s"
  shows "steps (same f) (deliverWithRetries d hook payload n)"
proof -
  have once: "steps (same f) (deliverOnce d hook payload)"
    by (rule stepsI) (auto simp: same_def deliverOnce_def on_result_apply client_do_def assms
        split: option.split prod.split sum.split)
  have "steps (same f) (sleep c)" for c
    by (rule stepsI) (simp add: same_def sleep_def assms(1))
  then have "steps (same f) (retry_loop d hook payload left a st)" for left a st
    by (induction left arbitrary: a st) (auto intro!: step_rules once)
  then show ?thesis by (simp add: deliverWithRetries_def)
qed

lemma RecordDelivery_calm:
  assumes "calm s" and "hid \<in> (\<lambda>r. hook_id (hrow_hook r)) ` set (t_hooks s)"
  shows "RecordDelivery hid ev p st s =
    (Inr (), s\<lparr>next_ids := (next_ids s)(T_deliveries := next_ids s T_deliveries + 1),
       t_deliveries := t_deliveries s @ [\<lparr>drow_created = clock s, drow_delivery =
         \<lparr>dlv_id = next_ids s T_deliveries, dlv_webhook = hid, dlv_event = ev, dlv_payload = p,
          dlv_status = st, dlv_attempts = 1, dlv_delivered = success st\<rparr>\<rparr>]\<rparr>)"
  using assms by (simp add: RecordDelivery_def on_result_apply stmt_insert_delivery_def
      and_then_apply next_id_def success_def)

definition delivery_facts :: "delivery_row \<Rightarrow> int \<times> string \<times> string \<times> int \<times> int \<times> bool" where
  "delivery_facts r = (dlv_webhook (drow_delivery r), dlv_event (drow_delivery r),
     dlv_payload (drow_delivery r), dlv_status (drow_delivery r), dlv_attempts (drow_delivery r),
     dlv_delivered (drow_delivery r))"

text \<open>
  What the answers make of the hooks when no one waits for the end of a context: an attempt is
  made until one succeeds, at most n times; each hook goes on where the answers to the hook
  before it ended; a hook whose URL is malformed gets no request and the status 0.
\<close>

definition attempts :: "nat \<Rightarrow> (goerr + reply) list \<Rightarrow> nat" where
  "attempts n as = min n (Suc (length (takeWhile (\<lambda>i. \<not> success (status_of as i)) [0..<n])))"

fun due :: "(string \<Rightarrow> goerr option) \<Rightarrow> nat \<Rightarrow> hook list \<Rightarrow> (goerr + reply) list \<Rightarrow> (nat \<times> int) list" where
  "due parse_url n [] as = []"
| "due parse_url n (hook # hooks) as =
     (if parse_url (hook_url hook) \<noteq> None then (0, 0) # due parse_url n hooks as
      else (let k = attempts n as in
        (k, status_of as (k - 1)) # due parse_url n hooks (answers_after k as)))"

lemma attempts_Suc:
  "attempts (Suc n) as =
     (if success (status_of as 0) then 1 else Suc (attempts n (answers_after (Suc 0) as)))"
proof -
  have "[0..<Suc n] = 0 # map Suc [0..<n]" by (simp add: upt_conv_Cons map_Suc_upt del: upt_Suc)
  then show ?thesis
    by (simp add: attempts_def takeWhile_map comp_def status_of_Suc del: upt_Suc answers_after.simps)
qed

lemma attempts_positive: "0 < n \<Longrightarrow> 0 < attempts n as"
  by (simp add: attempts_def)

lemma retry_loop_bad_url:
  assumes "dsp_parse_url d (hook_url hook) = Some e"
    and "retry_loop d hook payload left a 0 s = (status, t)"
  shows "status = 0 \<and> network t = network s"
  using assms(2)
proof (induction left arbitrary: a s)
  case (Suc left)
  then consider "(status, t) = (0, s)"
    | "retry_loop d hook payload left (a + 1) 0 (tick (int (a + 1) * 500000) s) = (status, t)"
    by (auto simp: and_then_apply deliverOnce_bad_url [OF assms(1)] sleep_def split: if_splits)
  then show ?case
  proof cases
    case 2
    with Suc.IH [OF 2] show ?thesis by (simp add: network_def)
  qed (simp add: network_def)
qed (simp add: network_def)

lemma retry_loop_due:
  assumes "dsp_parse_url d (hook_url hook) = None" and never: "\<And>w. \<not> dsp_cancelled d w"
    and "retry_loop d hook payload (Suc left) a st0 s = (status, t)"
  defines "k \<equiv> attempts (Suc left) (answers s)"
  shows "status = status_of (answers s) (k - 1) \<and> answers t = answers_after k (answers s)
    \<and> outbox t = outbox s @ replicate k (delivery_request (dsp_mac d) hook payload)"
  using assms(3) unfolding k_def
proof (induction left arbitrary: a st0 s)
  case 0
  then show ?case
    unfolding retry_loop_Suc [OF assms(1)] by (auto simp: attempts_def split: if_splits)
next
  case (Suc left)
  let ?rq = "delivery_request (dsp_mac d) hook payload" and ?as = "answers s"
  let ?s1 = "snd (client_do ?rq s)"
  show ?case
  proof (cases "success (status_of ?as 0)")
    case True
    then show ?thesis
      using Suc.prems unfolding retry_loop_Suc [OF assms(1)] by (auto simp: attempts_Suc)
  next
    case False
    let ?k = "attempts (Suc left) (answers_after (Suc 0) ?as)"
    have "retry_loop d hook payload (Suc left) (a + 1) (status_of ?as 0)
        (tick (int (a + 1) * 500000) ?s1) = (status, t)"
      using Suc.prems False never unfolding retry_loop_Suc [OF assms(1), of _ "Suc left"] by simp
    note IH = Suc.IH [OF this, unfolded network_tick client_do_effect(1,2)]
    have "status = status_of ?as (Suc ?k - 1)"
      using IH attempts_positive [of "Suc left" "answers_after (Suc 0) ?as"]
        status_of_Suc [of ?as "?k - 1"] by simp
    moreover have "attempts (Suc (Suc left)) ?as = Suc ?k" using False by (simp only: attempts_Suc if_False)
    ultimately show ?thesis using IH by simp
  qed
qed

lemma deliverWithRetries_due:
  assumes "deliverWithRetries d hook payload n s = (status, t)" and "0 < n"
    and "\<And>w. \<not> dsp_cancelled d w"
  defines "k \<equiv> fst (hd (due (dsp_parse_url d) (nat n) [hook] (answers s)))"
  shows "status = snd (hd (due (dsp_parse_url d) (nat n) [hook] (answers s)))
    \<and> answers t = answers_after k (answers s)
    \<and> outbox t = outbox s @ replicate k (delivery_request (dsp_mac d) hook payload)"
proof -
  obtain left where left: "nat n = Suc left" using assms(2) by (cases "nat n") auto
  show ?thesis
  proof (cases "dsp_parse_url d (hook_url hook)")
    case None
    from retry_loop_due [OF None assms(3), of payload left 0 0 s status t] None assms(1) show ?thesis
      unfolding deliverWithRetries_def left k_def by (simp add: Let_def)
  next
    case (Some e)
    from retry_loop_bad_url [OF Some, of payload "nat n" 0 s status t] Some assms(1) show ?thesis
      unfolding deliverWithRetries_def k_def by (simp add: network_def)
  qed
qed

text \<open>One round: the hook's deliveries, and the record with the status they ended with.\<close>

lemma deliver_all_calm:
  assumes "calm s" and "dsp_record d = RecordDelivery" and "0 < n"
    and "\<forall>h\<in>set hooks. hook_id h \<in> (\<lambda>r. hook_id (hrow_hook r)) ` set (t_hooks s)"
  defines "todo \<equiv> due (dsp_parse_url d) (nat n)"
  shows "\<exists>ws. length ws = length hooks \<and>
    (let sts = map2 (\<lambda>h w. fst (deliverWithRetries d h p n w)) hooks ws;
         t = snd (deliver_all d ev p n hooks s) in
     map delivery_facts (t_deliveries t) = map delivery_facts (t_deliveries s) @
       map2 (\<lambda>h st. (hook_id h, ev, p, st, 1, success st)) hooks sts
     \<and> ((\<forall>w. \<not> dsp_cancelled d w) \<longrightarrow> sts = map snd (todo hooks (answers s))
          \<and> outbox t = outbox s @ concat (map2 (\<lambda>h (k, _). replicate k (delivery_request (dsp_mac d) h p))
              hooks (todo hooks (answers s)))))"
  using assms(1,4)
proof (induction hooks arbitrary: s)
  case Nil
  then show ?case by (simp add: todo_def)
next
  case (Cons h hooks)
  obtain st s1 where 1: "deliverWithRetries d h p n s = (st, s1)" by fastforce
  have same: "t_hooks s1 = t_hooks s" "t_deliveries s1 = t_deliveries s" "faults s1 = faults s"
    using stepsE [OF deliverWithRetries_same 1, where f1 = t_hooks]
      stepsE [OF deliverWithRetries_same 1, where f1 = t_deliveries]
      stepsE [OF deliverWithRetries_same 1, where f1 = faults]
    by (simp_all add: same_def tick_def)
  let ?s2 = "snd (RecordDelivery (hook_id h) ev p st s1)"
  have c: "calm s1" using Cons.prems same by (simp add: calm_def)
  note rec = RecordDelivery_calm [OF c, of "hook_id h" ev p st]
  have s2: "calm ?s2" "t_hooks ?s2 = t_hooks s" "network ?s2 = network s1"
    "map delivery_facts (t_deliveries ?s2) =
      map delivery_facts (t_deliveries s) @ [(hook_id h, ev, p, st, 1, success st)]"
    using c Cons.prems same by (simp_all add: rec calm_def delivery_facts_def network_def)
  have run: "snd (deliver_all d ev p n (h # hooks) s) = snd (deliver_all d ev p n hooks ?s2)"
    using 1 assms(2) by (simp add: and_then_apply discard_result_apply)
  from Cons.IH [OF s2(1)] Cons.prems(2) s2(2) obtain ws where ws: "length ws = length hooks"
    "let sts = map2 (\<lambda>h w. fst (deliverWithRetries d h p n w)) hooks ws;
         t = snd (deliver_all d ev p n hooks ?s2) in
     map delivery_facts (t_deliveries t) = map delivery_facts (t_deliveries ?s2) @
       map2 (\<lambda>h st. (hook_id h, ev, p, st, 1, success st)) hooks sts
     \<and> ((\<forall>w. \<not> dsp_cancelled d w) \<longrightarrow> sts = map snd (todo hooks (answers ?s2))
          \<and> outbox t = outbox ?s2 @ concat (map2 (\<lambda>h (k, _). replicate k (delivery_request (dsp_mac d) h p))
              hooks (todo hooks (answers ?s2))))" by auto
  have first: "\<exists>k. todo (h # hooks) (answers s) = (k, st) # todo hooks (answers ?s2)
      \<and> outbox ?s2 = outbox s @ replicate k (delivery_request (dsp_mac d) h p)"
    if "\<And>w. \<not> dsp_cancelled d w"
    using deliverWithRetries_due [OF 1 assms(3) that] s2(3)
    by (auto simp: todo_def network_def Let_def split: if_splits)
  show ?case
    unfolding run
    using ws s2(4) 1 first by (intro exI [of _ "s # ws"]) (auto simp: Let_def)
qed

text \<open>
  C18: When no database call fails, \<open>Dispatch\<close> records exactly one delivery for every matching
  hook, in order: the event, the JSON of the event, the status \<open>deliverWithRetries\<close> ended with,
  delivered exactly when that is 2xx, and always one attempt, however many requests the retries
  took. When moreover the context does not end, status and requests are determined by the
  answers: each hook gets the same request until one attempt succeeds, three times at most (or
  as often as configured), and its status is that of the last of them; a hook with a malformed
  URL gets none and the status 0.
\<close>

theorem dispatch_serves_every_subscriber:
  fixes s :: "'z net_scheme" and n :: int and mac :: "string \<Rightarrow> string \<Rightarrow> string"
    and parse_url :: "string \<Rightarrow> goerr option" and time_text :: "time \<Rightarrow> string"
    and cancelled :: "'z net_scheme \<Rightarrow> bool" and rid :: int and ev slug actor :: string
    and data :: "(string \<times> json) list"
  assumes "calm s"
  defines "d \<equiv> pg_dispatcher n mac parse_url time_text cancelled"
    and "hooks \<equiv> matching_hooks s rid ev"
    and "payload \<equiv> json_text (payload_json ev slug actor (time_text (clock s)) data)"
    and "retries \<equiv> (if n \<le> 0 then 3 else n)"
  defines "t \<equiv> snd (Dispatch d rid ev slug actor data s)"
    and "todo \<equiv> due parse_url (nat retries) hooks (answers s)"
  shows "\<exists>ws. length ws = length hooks \<and>
    (let sts = map2 (\<lambda>h w. fst (deliverWithRetries d h payload retries w)) hooks ws in
     map delivery_facts (t_deliveries t) = map delivery_facts (t_deliveries s) @
       map2 (\<lambda>h st. (hook_id h, ev, payload, st, 1, success st)) hooks sts
     \<and> ((\<forall>w. \<not> cancelled w) \<longrightarrow> sts = map snd todo
          \<and> outbox t = outbox s @
              concat (map2 (\<lambda>h (k, _). replicate k (delivery_request mac h payload)) hooks todo)))"
proof -
  have h: "\<forall>h\<in>set hooks. hook_id h \<in> (\<lambda>r. hook_id (hrow_hook r)) ` set (t_hooks s)"
    by (auto simp: matching_hooks_filter hooks_def)
  have "t = snd (deliver_all d ev payload retries hooks s)"
    using assms(1)
    by (simp add: t_def d_def Dispatch_def pg_dispatcher_def on_result_apply ListHooks_def listHooksQuery_def
        stmt_list_hooks_def hooks_def matching_hooks_filter and_then_apply Let_def retries_def payload_def
        dispatch_payload_def)
  moreover have "dsp_record d = RecordDelivery" "dsp_mac d = mac" "dsp_parse_url d = parse_url"
    "dsp_cancelled d = cancelled" "0 < retries"
    by (simp_all add: d_def pg_dispatcher_def retries_def)
  ultimately show ?thesis
    using deliver_all_calm [OF assms(1) _ _ h, of d retries payload ev] by (simp add: todo_def Let_def)
qed

section \<open>Signatures identify secret and payload\<close>

lemma hex_low_value:
  assumes "k < 16"
  shows "of_char (hex_low k) = (if k < 10 then 48 + k else 87 + k)"
  using assms by (simp add: hex_low_def)

lemma hex_low_inject:
  assumes "m < 16" and "n < 16"
  shows "hex_low m = hex_low n \<longleftrightarrow> m = n"
proof
  assume "hex_low m = hex_low n"
  then have "(if m < 10 then 48 + m else 87 + m) = (if n < 10 then 48 + n else 87 + n)"
    using hex_low_value [OF assms(1)] hex_low_value [OF assms(2)] by metis
  then show "m = n" using assms by presburger
qed simp
lemma hex2_inject: "m < 256 \<Longrightarrow> n < 256 \<Longrightarrow> hex2 m = hex2 n \<longleftrightarrow> m = n"
  unfolding hex2_def using hex_low_inject [of "m div 16" "n div 16"] hex_low_inject [of "m mod 16" "n mod 16"]
  by (auto simp: less_mult_imp_div_less) (metis div_mult_mod_eq)

lemma hex_encode_inject: "hex_encode a = hex_encode b \<longleftrightarrow> a = b"
proof (induction a arbitrary: b)
  case Nil
  then show ?case by (cases b) (simp_all add: hex_encode_def hex2_def)
next
  case (Cons c a)
  show ?case
  proof (cases b)
    case Nil
    then show ?thesis by (simp add: hex_encode_def hex2_def)
  next
    case b: (Cons c' b')
    have "length (hex2 (of_char c)) = length (hex2 (of_char c'))" by (simp add: hex2_def)
    moreover have "hex2 (of_char c) = hex2 (of_char c') \<longleftrightarrow> c = c'"
      by (subst hex2_inject) (simp_all add: of_char_eq_iff)
    ultimately show ?thesis
      using Cons.IH [of b'] by (simp add: b hex_encode_def)
  qed
qed

text \<open>
  Signatures. With a secret, \<open>Verify\<close> accepts exactly the text \<open>Sign\<close> makes, and two
  signatures under possibly different secrets and payloads are equal exactly when the MACs
  are; with the empty secret every signature, also a missing one, is accepted.
\<close>

theorem signature_verification:
  "(secret \<noteq> [] \<longrightarrow> (Verify mac secret payload signature \<longleftrightarrow> signature = Sign mac secret payload)
      \<and> (secret' \<noteq> [] \<longrightarrow> (Verify mac secret payload (Sign mac secret' payload') \<longleftrightarrow>
            mac secret payload = mac secret' payload')))
   \<and> (secret = [] \<longrightarrow> Verify mac secret payload signature)"
  by (auto simp: Verify_def Sign_def hex_encode_inject)

section \<open>A concrete hook, for the witnesses\<close>

definition demo_hook :: hook where
  "demo_hook = \<lparr>hook_id = 1, hook_url = ''http://ci'', hook_secret = ''k'',
     hook_events = [''push'', ''issue'']\<rparr>"

definition demo_net :: net where
  "demo_net = empty_net\<lparr>
     t_hooks := [\<lparr>hrow_repo = 1, hrow_active = True, hrow_hook = demo_hook\<rparr>],
     answers := [plain_reply 503, plain_reply 200]\<rparr>"

definition demo_dispatcher :: "net dispatcher" where
  "demo_dispatcher = pg_dispatcher 0 (\<lambda>k m. k) (\<lambda>_. None) (\<lambda>_. ''2026'') (\<lambda>_. False)"

lemma demo_net_simps:
  "t_hooks demo_net = [\<lparr>hrow_repo = 1, hrow_active = True, hrow_hook = demo_hook\<rparr>]"
  "answers demo_net = [plain_reply 503, plain_reply 200]" "outbox demo_net = []" "followed demo_net = []" "calm demo_net"
  "t_deliveries demo_net = []"
  by (simp_all add: demo_net_def empty_net_def empty_host_def host.defs db.defs empty_db_def calm_def)

lemma demo_matching: "matching_hooks demo_net 1 ''issue'' = [demo_hook]"
  by (simp add: matching_hooks_def demo_net_simps demo_hook_def)

theorem delivery_retries_witness:
  "\<exists>status t. deliverWithRetries demo_dispatcher demo_hook ''{}'' 3 demo_net = (status, t)
     \<and> set (outbox t) = {delivery_request (\<lambda>k m. k) demo_hook ''{}''}"
proof -
  obtain status t where run: "deliverWithRetries demo_dispatcher demo_hook ''{}'' 3 demo_net = (status, t)"
    by fastforce
  have "dsp_parse_url demo_dispatcher (hook_url demo_hook) = None"
    by (simp add: demo_dispatcher_def pg_dispatcher_def)
  from delivery_retries [OF this _ run] obtain k where "1 \<le> k"
    "outbox t = replicate k (delivery_request (dsp_mac demo_dispatcher) demo_hook ''{}'')"
    by (auto simp: demo_net_simps)
  then show ?thesis using run
    by (intro exI [of _ status] exI [of _ t]) (auto simp: demo_dispatcher_def pg_dispatcher_def)
qed

theorem dispatch_only_subscribers_witness:
  "\<exists>sent payload. outbox (snd (Dispatch demo_dispatcher 1 ''issue'' ''al/c'' ''al'' [] demo_net)) = sent
     \<and> payload = json_text (payload_json ''issue'' ''al/c'' ''al'' ''2026'' [])
     \<and> set sent \<subseteq> {delivery_request (\<lambda>k m. k) demo_hook payload}"
proof -
  obtain u t where run: "Dispatch demo_dispatcher 1 ''issue'' ''al/c'' ''al'' [] demo_net = (u, t)"
    by (rule prod.exhaust)
  from dispatch_only_subscribers [OF run [unfolded demo_dispatcher_def]] show ?thesis
    using run by (auto simp: demo_matching demo_net_simps simp del: json_text.simps)
qed

lemma demo_dispatch_sends: "outbox (snd (Dispatch demo_dispatcher 1 ''issue'' ''al/c'' ''al'' [] demo_net)) \<noteq> []"
proof -
  let ?p = "dispatch_payload demo_dispatcher ''issue'' ''al/c'' ''al'' [] (clock demo_net)"
  obtain st s1 where 1: "deliverWithRetries demo_dispatcher demo_hook ?p 3 demo_net = (st, s1)" by fastforce
  have "dsp_parse_url demo_dispatcher (hook_url demo_hook) = None"
    by (simp add: demo_dispatcher_def pg_dispatcher_def)
  note step = retry_loop_Suc [OF this]
  have three: "nat 3 = Suc (Suc (Suc 0))" by simp
  have ne: "outbox s1 \<noteq> []"
    using 1 unfolding deliverWithRetries_def three
    by (auto simp: step simp del: retry_loop.simps(2) split: if_splits)
  have "Dispatch demo_dispatcher 1 ''issue'' ''al/c'' ''al'' [] demo_net =
      deliver_all demo_dispatcher ''issue'' ?p 3 [demo_hook] demo_net"
    using demo_matching demo_net_simps(5)
    by (simp add: Dispatch_def demo_dispatcher_def pg_dispatcher_def on_result_apply ListHooks_def
        listHooksQuery_def stmt_list_hooks_def matching_hooks_filter and_then_apply)
  moreover have "outbox (snd (RecordDelivery h e p st w)) = outbox w" for h e p st and w :: net
    by (cases "RecordDelivery h e p st w") (auto dest!: pg_hooks.record_adds simp: network_def)
  ultimately show ?thesis
    using 1 ne by (simp add: and_then_apply discard_result_apply demo_dispatcher_def pg_dispatcher_def)
qed


theorem dispatch_serves_every_subscriber_witness:
  "\<exists>payload. map delivery_facts (t_deliveries (snd (Dispatch
      (pg_dispatcher 0 (\<lambda>k m. k) (\<lambda>_. None) (\<lambda>_. ''2026'') (\<lambda>_. False))
      1 ''issue'' ''al/c'' ''al'' [] demo_net))) = [(1, ''issue'', payload, 200, 1, True)]"
proof -
  have "due (\<lambda>_. None) 3 [demo_hook] (answers demo_net) = [(2, 200)]"
    by (simp add: demo_net_simps attempts_def status_of_def redirect_status_def success_def numeral_3_eq_3
        numeral_2_eq_2)
  with dispatch_serves_every_subscriber [OF demo_net_simps(5), where n = 0 and mac = "\<lambda>k m. k"
      and parse_url = "\<lambda>_. None" and time_text = "\<lambda>_. ''2026''" and cancelled = "\<lambda>_. False" and rid = 1
      and ev = "''issue''" and slug = "''al/c''" and actor = "''al''" and data = "[]"]
  show ?thesis
    by (auto simp: demo_matching demo_net_simps(6) length_Suc_conv demo_hook_def success_def Let_def
        simp del: json_text.simps due.simps)
qed

theorem signature_verification_witness:
  "Verify (\<lambda>k m. k @ m) ''key'' ''body'' (Sign (\<lambda>k m. k @ m) ''key'' ''body'')
   \<and> \<not> Verify (\<lambda>k m. k @ m) ''key'' ''body'' (Sign (\<lambda>k m. k @ m) ''kez'' ''body'')"
  using signature_verification [of "''key''" "\<lambda>k m. k @ m" "''body''" "[]" "''key''" "''body''"]
    signature_verification [of "''key''" "\<lambda>k m. k @ m" "''body''" "[]" "''kez''" "''body''"]
  by simp

end
