(* ===== verification/CI.thy ===== *)
theory CI
  imports Exec
begin

text \<open>
  Package \<open>internal/ci\<close>: build jobs (store.go), the runner that checks a commit out and runs the
  build command in a container (runner.go), and the executor that ties them together
  (executor.go). git and docker are run through the runner parameter of theory Exec; a slice
  expression out of range is a panic, which unwinds through the deferred clean-up.
\<close>

section \<open>Jobs (store.go)\<close>

definition StatusQueued :: string where "StatusQueued = ''queued''"
definition StatusRunning :: string where "StatusRunning = ''running''"
definition StatusSuccess :: string where "StatusSuccess = ''success''"
definition StatusFailed :: string where "StatusFailed = ''failed''"

definition stmt_insert_job ::
  "int \<Rightarrow> string \<Rightarrow> string \<Rightarrow> string \<Rightarrow> string \<Rightarrow> ('z db_scheme, goerr + int \<times> string \<times> time) st" where
  "stmt_insert_job rid commit branch kind ref =
     and_then (next_id T_jobs) (\<lambda>i s.
       if \<not> repo_exists s rid then (Inl fk_violation, s)
       else (Inr (i, ''queued'', clock s), s\<lparr>t_jobs := t_jobs s @
          [\<lparr>jrow_repo = rid, jrow_job =
             \<lparr>job_id = i, job_commit = commit, job_branch = branch, job_trigger_kind = kind,
              job_trigger_ref = ref, job_status = ''queued'', job_output = [], job_exit_code = None,
              job_created = clock s, job_started = None, job_finished = None\<rparr>\<rparr>]\<rparr>))"

definition CreateJob ::
  "int \<Rightarrow> string \<Rightarrow> string \<Rightarrow> string \<Rightarrow> string \<Rightarrow> ('z db_scheme, goerr + job) st" where
  "CreateJob repositoryID commitHash branch triggerKind triggerRef =
     on_result (pool (stmt_insert_job repositoryID commitHash branch triggerKind triggerRef))
       (\<lambda>err. fail (wrap_err ''insert build job'' err))
       (\<lambda>(i, status, created). ok
          \<lparr>job_id = i, job_commit = commitHash, job_branch = branch, job_trigger_kind = triggerKind,
           job_trigger_ref = triggerRef, job_status = status, job_output = [], job_exit_code = None,
           job_created = created, job_started = None, job_finished = None\<rparr>)"

definition stmt_list_jobs :: "int \<Rightarrow> int \<Rightarrow> ('z db_scheme, goerr + job list) st" where
  "stmt_list_jobs rid limit s =
     (Inr (take (nat limit) (sort_key (\<lambda>j. - job_created j)
        (map jrow_job (filter (\<lambda>r. jrow_repo r = rid) (t_jobs s))))), s)"

definition ListJobs :: "int \<Rightarrow> int \<Rightarrow> ('z db_scheme, goerr + job list) st" where
  "ListJobs repositoryID limit =
     (let limit = (if limit \<le> 0 \<or> limit > 100 then 20 else limit) in
      on_result (pool (stmt_list_jobs repositoryID limit))
        (\<lambda>err. fail (wrap_err ''list build jobs'' err))
        (\<lambda>jobs. ok jobs))"

definition update_job :: "int \<Rightarrow> (job \<Rightarrow> job) \<Rightarrow> 'z db_scheme \<Rightarrow> 'z db_scheme" where
  "update_job jid f s = s\<lparr>t_jobs := update_rows (\<lambda>r. job_id (jrow_job r) = jid)
     (\<lambda>r. r\<lparr>jrow_job := f (jrow_job r)\<rparr>) (t_jobs s)\<rparr>"

definition MarkRunning :: "int \<Rightarrow> ('z db_scheme, goerr + unit) st" where
  "MarkRunning jobID = pool (\<lambda>s.
     (Inr (), update_job jobID
        (\<lambda>j. j\<lparr>job_status := ''running'', job_started := Some (clock s)\<rparr>) s))"

definition MarkFinished :: "int \<Rightarrow> string \<Rightarrow> string \<Rightarrow> int \<Rightarrow> ('z db_scheme, goerr + unit) st" where
  "MarkFinished jobID status out exitCode =
     (if status \<noteq> StatusSuccess \<and> status \<noteq> StatusFailed
      then fail (ErrText (''invalid final status '' @ go_quote status))
      else pool (\<lambda>s.
        (Inr (), update_job jobID
           (\<lambda>j. j\<lparr>job_status := status, job_output := out, job_exit_code := Some exitCode,
                   job_finished := Some (clock s)\<rparr>) s)))"

section \<open>The runner (runner.go)\<close>

record build_result =
  res_exit_code :: int
  res_output :: string

definition no_result :: build_result where
  "no_result = \<lparr>res_exit_code = 0, res_output = []\<rparr>"

text \<open>What a call of the runner does: it returns a result and an error, or it panics.\<close>

datatype run_outcome = Returned build_result "goerr option" | Panicked

record build_runner =
  run_image :: string
  run_timeout :: int
  run_work_root :: string

definition shortHash :: "string \<Rightarrow> string" where
  "shortHash hash = (if length hash > 8 then take 8 hash else hash)"

definition branchLabel :: "string \<Rightarrow> string \<Rightarrow> string" where
  "branchLabel hash branch =
     (if branch \<noteq> [] then branch @ ''@'' @ shortHash hash else shortHash hash)"

definition statusError :: "string \<Rightarrow> goerr option" where
  "statusError status = (if status = StatusFailed then Some (ErrText ''build failed'') else None)"

definition hostGit :: "'w runner \<Rightarrow> string list \<Rightarrow> ('w, string \<times> goerr option) st" where
  "hostGit run args =
     and_then (run (plain_command (''git'' # args))) (\<lambda>out. ret (out_combined out, out_err out))"

text \<open>\<open>os.MkdirTemp(root, "gitcastle-job-")\<close>; \<open>rnd\<close> is the random part of the name.\<close>

definition os_mkdir_temp :: "string \<Rightarrow> string \<Rightarrow> ('z host_scheme, goerr + string) st" where
  "os_mkdir_temp root rnd =
     (let dir = path_join [root, ''gitcastle-job-'' @ rnd] in
      syscall (\<lambda>s.
        if \<not> is_dir s (fs_path root) then (Inl (PathError ENOENT dir), s)
        else (Inr dir, s\<lparr>fs_dirs := fs_path dir # fs_dirs s\<rparr>)))"

definition container_name :: "int \<Rightarrow> string \<Rightarrow> string" where
  "container_name pid commit = ''gitcastle-build-'' @ int_str pid @ ''-'' @ take 8 commit"

definition docker_run_args :: "build_runner \<Rightarrow> string \<Rightarrow> string \<Rightarrow> string \<Rightarrow> string list" where
  "docker_run_args r name workDir command =
     [''docker'', ''run'', ''--rm'', ''--name'', name, ''--network'', ''none'',
      ''-v'', workDir @ ''/src:/workspace:ro'', ''-w'', ''/workspace'', run_image r,
      ''/bin/sh'', ''-c'', command]"

text \<open>
  From the container's name on; the deferred \<open>RemoveAll\<close> of the work directory is around it.
  \<open>out_exit\<close> is set exactly when the error is an \<open>ExitError\<close>.
\<close>

definition run_container ::
  "'w runner \<Rightarrow> int \<Rightarrow> build_runner \<Rightarrow> string \<Rightarrow> string \<Rightarrow> string \<Rightarrow> ('w, run_outcome) st" where
  "run_container run pid r workDir commitHash command =
     (if length commitHash < 8 then ret Panicked
      else
        let containerName = container_name pid commitHash in
        and_then (run (plain_command (docker_run_args r containerName workDir command))) (\<lambda>out.
          case (out_err out, out_exit out) of
            (Some err, None) \<Rightarrow>
              ret (Returned \<lparr>res_exit_code = - 1,
                   res_output = out_combined out @ [CHR 0x0A] @ ''[docker error] '' @ err_text err\<rparr>
                 (Some (wrap_err ''docker run'' err)))
          | (e, code) \<Rightarrow>
              let exitCode = (case (e, code) of (Some _, Some c) \<Rightarrow> c | _ \<Rightarrow> 0);
                  status = (case (e, code) of (Some _, Some _) \<Rightarrow> StatusFailed | _ \<Rightarrow> StatusSuccess) in
              discard_result (run (plain_command [''docker'', ''rm'', ''-f'', containerName]))
                (ret (Returned \<lparr>res_exit_code = exitCode, res_output = out_combined out\<rparr>
                       (statusError status)))))"

definition checkout_and_run ::
  "'w runner \<Rightarrow> int \<Rightarrow> build_runner \<Rightarrow> string \<Rightarrow> string \<Rightarrow> string \<Rightarrow> string \<Rightarrow> string
    \<Rightarrow> ('w, run_outcome) st" where
  "checkout_and_run run pid r workDir barePath commitHash branch command =
     and_then (hostGit run [''--git-dir'', barePath, ''worktree'', ''add'', ''--detach'',
         workDir @ ''/src'', commitHash]) (\<lambda>(out, err).
       case err of
         Some e \<Rightarrow>
           discard_result (hostGit run [''--git-dir'', barePath, ''worktree'', ''prune''])
             (ret (Returned no_result (Some
               (Wrap (''checkout '' @ branchLabel commitHash branch @ '': '') e ('': '' @ out)))))
       | None \<Rightarrow> run_container run pid r workDir commitHash command)"

definition Runner_Run ::
  "'z host_scheme runner \<Rightarrow> int \<Rightarrow> string \<Rightarrow> string \<Rightarrow> build_runner \<Rightarrow> string \<Rightarrow> string \<Rightarrow> string \<Rightarrow> string
    \<Rightarrow> ('z host_scheme, run_outcome) st" where
  "Runner_Run run pid tempDir rnd r barePath commitHash branch command =
     (if run_image r = [] then ret (Returned no_result (Some (ErrText ''runner image not configured'')))
      else
        let workRoot = (if run_work_root r = [] then tempDir else run_work_root r) in
        on_result (os_mkdir_all (fs_path workRoot))
          (\<lambda>err. ret (Returned no_result (Some (wrap_err ''create work root'' err))))
          (\<lambda>_. on_result (os_mkdir_temp workRoot rnd)
            (\<lambda>err. ret (Returned no_result (Some (wrap_err ''create work dir'' err))))
            (\<lambda>workDir. and_then
              (checkout_and_run run pid r workDir barePath commitHash branch command)
              (\<lambda>outcome. discard_result (os_remove_all (fs_path workDir)) (ret outcome)))))"

section \<open>The executor (executor.go)\<close>

record 'w executor =
  exe_run :: "string \<Rightarrow> string \<Rightarrow> string \<Rightarrow> string \<Rightarrow> ('w, run_outcome) st"
  exe_repo_path :: "int \<Rightarrow> ('w, goerr + string) st"

text \<open>\<open>None\<close> is a panic, which ends the process: nothing recovers in the job's goroutine.\<close>

definition RunOne ::
  "'z db_scheme executor \<Rightarrow> int \<Rightarrow> int \<Rightarrow> string \<Rightarrow> string \<Rightarrow> string
    \<Rightarrow> ('z db_scheme, goerr option option) st" where
  "RunOne e repositoryID jobID commitHash branch command =
     on_result (MarkRunning jobID) (\<lambda>err. ret (Some (Some err)))
       (\<lambda>_. on_result (exe_repo_path e repositoryID)
         (\<lambda>err. discard_result
            (MarkFinished jobID StatusFailed (''resolve repository: '' @ err_text err) (- 1))
            (ret (Some (Some err))))
         (\<lambda>barePath. and_then (exe_run e barePath commitHash branch command) (\<lambda>outcome.
           case outcome of
             Panicked \<Rightarrow> ret None
           | Returned result runErr \<Rightarrow>
               let status = (if runErr \<noteq> None \<or> res_exit_code result \<noteq> 0
                             then StatusFailed else StatusSuccess);
                   out = (case runErr of
                       Some err \<Rightarrow>
                         if \<not> has_suffix (res_output result) [CHR 0x22] \<and> res_output result = []
                         then ''runner error: '' @ err_text err else res_output result
                     | None \<Rightarrow> res_output result) in
               on_result (MarkFinished jobID status out (res_exit_code result))
                 (\<lambda>err. ret (Some (Some err)))
                 (\<lambda>_. ret (Some runErr)))))"

section \<open>The life of a job\<close>

definition find_job :: "int \<Rightarrow> 'z db_scheme \<Rightarrow> job option" where
  "find_job i s = map_option jrow_job (List.find (\<lambda>r. job_id (jrow_job r) = i) (t_jobs s))"

lemma find_job_update_same:
  "(\<And>j. job_id (f j) = job_id j) \<Longrightarrow> find_job i (update_job i f s) = map_option f (find_job i s)"
  unfolding find_job_def update_job_def
  by (cases "List.find (\<lambda>r. job_id (jrow_job r) = i) (t_jobs s)")
    (auto simp: find_update_rows dest: find_SomeD)

lemma find_job_update_other:
  "(\<And>j. job_id (f j) = job_id j) \<Longrightarrow> i \<noteq> k \<Longrightarrow> find_job k (update_job i f s) = find_job k s"
proof -
  assume f: "\<And>j. job_id (f j) = job_id j" and ne: "i \<noteq> k"
  have "List.find (\<lambda>r. job_id (jrow_job r) = k) (update_rows (\<lambda>r. job_id (jrow_job r) = i)
      (\<lambda>r. r\<lparr>jrow_job := f (jrow_job r)\<rparr>) rs) = List.find (\<lambda>r. job_id (jrow_job r) = k) rs"
    for rs :: "job_row list"
    using ne by (induction rs) (auto simp: update_rows_def f)
  then show ?thesis by (simp add: find_job_def update_job_def)
qed

lemma MarkRunning_calm:
  "calm s \<Longrightarrow> MarkRunning i s =
    (Inr (), update_job i (\<lambda>j. j\<lparr>job_status := ''running'', job_started := Some (clock s)\<rparr>) s)"
  by (simp add: MarkRunning_def)

lemma MarkFinished_calm:
  "calm s \<Longrightarrow> st = StatusSuccess \<or> st = StatusFailed \<Longrightarrow> MarkFinished i st out code s =
    (Inr (), update_job i (\<lambda>j. j\<lparr>job_status := st, job_output := out, job_exit_code := Some code,
       job_finished := Some (clock s)\<rparr>) s)"
  by (auto simp: MarkFinished_def)

lemma calm_update_job [simp]: "calm (update_job i f s) = calm s"
  by (simp add: calm_def update_job_def)

lemma find_job_cong: "t_jobs t = t_jobs s \<Longrightarrow> find_job i t = find_job i s"
  by (simp add: find_job_def)

lemma find_running_same:
  "find_job i s = Some j \<Longrightarrow>
   find_job i (update_job i (\<lambda>j. j\<lparr>job_status := st, job_started := t0\<rparr>) s) =
     Some (j\<lparr>job_status := st, job_started := t0\<rparr>)"
  by (subst find_job_update_same) simp_all

lemma find_finished_same:
  "find_job i s = Some j \<Longrightarrow>
   find_job i (update_job i (\<lambda>j. j\<lparr>job_status := st, job_output := out, job_exit_code := c,
      job_finished := t1\<rparr>) s) =
     Some (j\<lparr>job_status := st, job_output := out, job_exit_code := c, job_finished := t1\<rparr>)"
  by (subst find_job_update_same) simp_all

text \<open>The status and the output the executor stores for a returned result.\<close>

definition final_status :: "build_result \<Rightarrow> goerr option \<Rightarrow> string" where
  "final_status result err =
     (if err = None \<and> res_exit_code result = 0 then StatusSuccess else StatusFailed)"

definition final_output :: "build_result \<Rightarrow> goerr option \<Rightarrow> string" where
  "final_output result err =
     (case err of
        Some e \<Rightarrow> if res_output result = [] then ''runner error: '' @ err_text e else res_output result
      | None \<Rightarrow> res_output result)"

lemma RunOne_returned:
  fixes s :: "'z db_scheme" and jid :: int
  defines "s1 \<equiv> update_job jid (\<lambda>j. j\<lparr>job_status := ''running'', job_started := Some (clock s)\<rparr>) s"
  assumes "calm s" and "exe_repo_path e rid s1 = (Inr bare, s1)"
    and "exe_run e bare commit branch command s1 = (Returned result err, w)" and "calm w"
  shows "RunOne e rid jid commit branch command s = (Some err, update_job jid
    (\<lambda>j. j\<lparr>job_status := final_status result err, job_output := final_output result err,
        job_exit_code := Some (res_exit_code result), job_finished := Some (clock w)\<rparr>) w)"
proof -
  have body: "(if err \<noteq> None \<or> res_exit_code result \<noteq> 0 then StatusFailed else StatusSuccess)
      = final_status result err"
    "(case err of None \<Rightarrow> res_output result | Some e \<Rightarrow>
        if \<not> has_suffix (res_output result) [CHR 0x22] \<and> res_output result = []
        then ''runner error: '' @ err_text e else res_output result) = final_output result err"
    by (auto simp: final_status_def final_output_def has_suffix_def split: option.split)
  have "final_status result err = StatusSuccess \<or> final_status result err = StatusFailed"
    by (simp add: final_status_def)
  from MarkFinished_calm [OF assms(5) this] show ?thesis
    unfolding RunOne_def on_result_apply MarkRunning_calm [OF assms(2)] s1_def [symmetric]
    by (simp only: prod.case sum.case assms(3,4) on_result_apply and_then_apply run_outcome.case Let_def body ret_apply)
qed

lemma RunOne_unresolved:
  fixes s :: "'z db_scheme" and jid :: int
  defines "s1 \<equiv> update_job jid (\<lambda>j. j\<lparr>job_status := ''running'', job_started := Some (clock s)\<rparr>) s"
  assumes "calm s" and "exe_repo_path e rid s1 = (Inl err, s1)"
  shows "RunOne e rid jid commit branch command s = (Some (Some err), update_job jid
    (\<lambda>j. j\<lparr>job_status := StatusFailed, job_output := ''resolve repository: '' @ err_text err,
        job_exit_code := Some (- 1), job_finished := Some (clock s1)\<rparr>) s1)"
proof -
  have "calm s1" using assms(2) by (simp add: s1_def)
  from MarkFinished_calm [OF this, of StatusFailed] show ?thesis
    using assms(3) by (simp add: RunOne_def run_simps MarkRunning_calm assms(2) s1_def [symmetric])
qed

text \<open>A job marked running and then finished, with the tables left alone in between.\<close>

lemma marked_finished:
  fixes s w :: "'z db_scheme" and jid :: int and now :: time
  defines "s1 \<equiv> update_job jid (\<lambda>j. j\<lparr>job_status := ''running'', job_started := Some now\<rparr>) s"
  assumes "find_job jid s = Some j" and "t_jobs w = t_jobs s1"
    and t: "t = update_job jid (\<lambda>j. j\<lparr>job_status := st, job_output := out, job_exit_code := c, job_finished := fin\<rparr>) w"
  shows "find_job jid t = Some (j\<lparr>job_status := st, job_output := out, job_exit_code := c,
      job_started := Some now, job_finished := fin\<rparr>)"
    and "k \<noteq> jid \<Longrightarrow> find_job k t = find_job k s"
proof -
  have "find_job jid w = Some (j\<lparr>job_status := ''running'', job_started := Some now\<rparr>)"
    using find_running_same [OF assms(2)] find_job_cong [OF assms(3)] by (simp add: s1_def)
  then have "find_job jid t = Some (j\<lparr>job_status := ''running'', job_started := Some now, job_status := st,
      job_output := out, job_exit_code := c, job_finished := fin\<rparr>)"
    unfolding t by (rule find_finished_same)
  also have "\<dots> = Some (j\<lparr>job_status := st, job_output := out, job_exit_code := c,
      job_started := Some now, job_finished := fin\<rparr>)"
    by (simp only: option.inject) (rule job.equality; simp)
  finally show "find_job jid t = Some (j\<lparr>job_status := st, job_output := out, job_exit_code := c,
      job_started := Some now, job_finished := fin\<rparr>)" .
  show "find_job k t = find_job k s" if "k \<noteq> jid"
    unfolding t using that find_job_cong [OF assms(3), of k]
    by (subst find_job_update_other) (simp_all add: s1_def find_job_update_other)
qed

text \<open>
  The lifecycle is not enforced by the store: \<open>MarkRunning\<close> and \<open>MarkFinished\<close> do not look
  at the current status, so a finished job can be set running again and its result overwritten
  by a later call.
\<close>

theorem job_status_not_guarded:
  assumes "calm s" and "find_job jid s = Some j"
  shows "\<exists>t. snd (MarkRunning jid s) = t
    \<and> map_option job_status (find_job jid t) = Some StatusRunning
    \<and> map_option job_exit_code (find_job jid t) = Some (job_exit_code j)
    \<and> fst (MarkFinished jid StatusSuccess out 0 t) = Inr ()
    \<and> map_option job_status (find_job jid (snd (MarkFinished jid StatusSuccess out 0 t))) =
        Some StatusSuccess"
proof -
  let ?t = "update_job jid (\<lambda>j. j\<lparr>job_status := ''running'', job_started := Some (clock s)\<rparr>) s"
  have "calm ?t" using assms(1) by simp
  then show ?thesis
    using assms find_running_same [OF assms(2), where st = "''running''" and ?t0.0 = "Some (clock s)"]
      find_finished_same [OF find_running_same [OF assms(2)]]
    by (simp add: MarkRunning_calm MarkFinished_calm StatusRunning_def)
qed

section \<open>What a build runs, and what it leaves behind\<close>

text \<open>A host that keeps the list of the commands it ran.\<close>

record build_host = host +
  ran :: "command list"

definition worktree_add :: "string \<Rightarrow> string \<Rightarrow> string \<Rightarrow> command" where
  "worktree_add bare dir commit =
     plain_command [''git'', ''--git-dir'', bare, ''worktree'', ''add'', ''--detach'', dir @ ''/src'', commit]"

definition worktree_prune :: "string \<Rightarrow> command" where
  "worktree_prune bare = plain_command [''git'', ''--git-dir'', bare, ''worktree'', ''prune'']"

definition docker_run :: "build_runner \<Rightarrow> string \<Rightarrow> string \<Rightarrow> string \<Rightarrow> command" where
  "docker_run r name dir command = plain_command (docker_run_args r name dir command)"

definition docker_rm :: "string \<Rightarrow> command" where
  "docker_rm name = plain_command [''docker'', ''rm'', ''-f'', name]"

lemma ran_fs_ops:
  "ran (snd (os_mkdir_all p s)) = ran s" "ran (snd (os_mkdir_temp root rnd s)) = ran s"
  "ran (snd (os_remove_all p s)) = ran s"
  by (simp_all add: os_mkdir_all_def os_mkdir_temp_def os_remove_all_def syscall_def Let_def
      split: list.split option.split)

lemma os_mkdir_temp_Inr:
  "os_mkdir_temp root rnd s = (Inr dir, t) \<Longrightarrow> dir = path_join [root, ''gitcastle-job-'' @ rnd]"
  by (auto simp: os_mkdir_temp_def syscall_def Let_def split: list.splits option.splits if_splits)

lemma run_container_commands:
  assumes "\<And>c s. ran (snd (run c s)) = ran s @ [c]"
    and "run_container run pid r dir commit command s = (out, t)"
  shows "\<exists>cs. ran t = ran s @ cs \<and> (cs = [] \<and> out = Panicked \<and> length commit < 8
      \<or> length commit \<ge> 8 \<and> out \<noteq> Panicked \<and>
        (cs = [docker_run r (container_name pid commit) dir command]
         \<or> cs = [docker_run r (container_name pid commit) dir command,
                 docker_rm (container_name pid commit)]))"
proof (cases "length commit < 8")
  case True
  then show ?thesis using assms(2) by (auto simp: run_container_def)
next
  case False
  let ?n = "container_name pid commit"
  obtain o1 s1 where 1: "run (docker_run r ?n dir command) s = (o1, s1)" by fastforce
  have s1: "ran s1 = ran s @ [docker_run r ?n dir command]" using assms(1) 1 by (metis snd_conv)
  have rm: "ran (snd (run (docker_rm ?n) s1)) = ran s @ [docker_run r ?n dir command, docker_rm ?n]"
    using assms(1) s1 by simp
  from assms(2) False 1 have "t = s1 \<and> out \<noteq> Panicked \<or> t = snd (run (docker_rm ?n) s1) \<and> out \<noteq> Panicked"
    by (auto simp: run_container_def Let_def and_then_apply docker_run_def docker_rm_def
        discard_result_apply split: option.splits)
  then show ?thesis using False s1 rm by (elim disjE) auto
qed

lemma checkout_and_run_commands:
  assumes "\<And>c s. ran (snd (run c s)) = ran s @ [c]"
    and "checkout_and_run run pid r dir bare commit branch command s = (out, t)"
  defines "name \<equiv> container_name pid commit"
  shows "\<exists>cs. ran t = ran s @ cs \<and> (cs, out = Panicked) \<in>
     {([worktree_add bare dir commit, worktree_prune bare], False),
      ([worktree_add bare dir commit], True),
      ([worktree_add bare dir commit, docker_run r name dir command], False),
      ([worktree_add bare dir commit, docker_run r name dir command, docker_rm name], False)}
     \<and> (out = Panicked \<longrightarrow> length commit < 8)"
proof -
  obtain o1 s1 where 1: "run (worktree_add bare dir commit) s = (o1, s1)" by fastforce
  have r1: "ran s1 = ran s @ [worktree_add bare dir commit]" using assms(1) 1 by (metis snd_conv)
  show ?thesis
  proof (cases "out_err o1")
    case None
    then have "run_container run pid r dir commit command s1 = (out, t)"
      using assms(2) 1 by (simp add: checkout_and_run_def hostGit_def and_then_apply worktree_add_def)
    from run_container_commands [OF assms(1) this] r1 show ?thesis
      unfolding name_def by (elim exE conjE disjE) simp_all
  next
    case (Some e)
    then have "out \<noteq> Panicked \<and> t = snd (run (worktree_prune bare) s1)"
      using assms(2) 1 by (auto simp: checkout_and_run_def hostGit_def and_then_apply worktree_add_def
          worktree_prune_def discard_result_apply split: prod.splits)
    then show ?thesis using assms(1) r1 by simp
  qed
qed

text \<open>The two ways through \<open>Run\<close>: an early error, or a checkout between making and removing the
  work directory.\<close>

lemma Runner_Run_cases:
  assumes run: "Runner_Run run pid tmp rnd r bare commit branch command s = (out, t)"
    and dir: "dir = path_join [if run_work_root r = [] then tmp else run_work_root r,
      ''gitcastle-job-'' @ rnd]"
  obtains (early) "out \<noteq> Panicked" and "ran t = ran s"
  | (checkout) s2 w where "checkout_and_run run pid r dir bare commit branch command s2 = (out, w)"
    and "t = snd (os_remove_all (fs_path dir) w)" and "ran s2 = ran s" and "io_calm s \<longrightarrow> io_calm s2"
proof -
  obtain root where root: "(if run_work_root r = [] then tmp else run_work_root r) = root" by simp
  obtain r1 s1 where 1: "os_mkdir_all (fs_path root) s = (r1, s1)" by (rule prod.exhaust)
  obtain r2 s2 where 2: "os_mkdir_temp root rnd s1 = (r2, s2)" by (rule prod.exhaust)
  have ran: "ran s1 = ran s" "ran s2 = ran s" using ran_fs_ops 1 2 by (metis snd_conv)+
  have calm1: "io_calm s \<longrightarrow> io_calm s1" using 1 by (auto simp: os_mkdir_all_def split: if_splits)
  have calm2: "io_calm s \<longrightarrow> io_calm s2"
    using 2 calm1 by (auto simp: os_mkdir_temp_def Let_def split: if_splits)
  note body = run [unfolded Runner_Run_def Let_def on_result_apply root]
  consider (stop) "run_image r = [] \<or> (\<exists>e. r1 = Inl e) \<or> (\<exists>e. r2 = Inl e)"
    | (go) d where "run_image r \<noteq> []" "r1 = Inr ()" "r2 = Inr d"
    by (cases r1; cases r2) auto
  then show thesis
  proof cases
    case stop
    then have "out \<noteq> Panicked \<and> (t = s \<or> t = s1 \<or> t = s2)"
      using body 1 2
      by (cases "run_image r = []"; cases r1) (auto simp: on_result_apply)
    then show thesis using early ran by auto
  next
    case go
    then have d: "d = dir" using os_mkdir_temp_Inr 2 dir root by blast
    obtain o3 w where 3: "checkout_and_run run pid r dir bare commit branch command s2 = (o3, w)"
      by (rule prod.exhaust)
    have "out = o3 \<and> t = snd (os_remove_all (fs_path dir) w)"
      using body 1 2 3 go d
      by (simp add: on_result_apply and_then_apply discard_result_apply)
    then show thesis using checkout 3 ran calm2 by blast
  qed
qed

lemma checkout_and_run_keeps:
  assumes "\<And>c. steps (keeps P) (run c)"
  shows "steps (keeps P) (checkout_and_run run pid r dir bare commit branch command)"
  unfolding checkout_and_run_def hostGit_def run_container_def Let_def
  by (intro step_rules assms)

text \<open>
  C20: What a build can do to the host. Besides making and removing its own work directory,
  \<open>Run\<close> runs at most one checkout (and a prune when it fails) and at most one container (and
  its removal); the build command appears nowhere but as the last argument of the container,
  which gets the configured image, no network and the checkout read-only. Once a checkout was
  tried, nothing is left below the work directory, on a panic included, unless a file system
  call fails.
\<close>

theorem build_is_confined:
  assumes "\<And>c s. ran (snd (run c s)) = ran s @ [c] \<and> (io_calm s \<longrightarrow> io_calm (snd (run c s)))"
    and "Runner_Run run pid tmp rnd r bare commit branch command s = (out, t)"
  defines "dir \<equiv> path_join [if run_work_root r = [] then tmp else run_work_root r, ''gitcastle-job-'' @ rnd]"
    and "name \<equiv> container_name pid commit"
  shows "\<exists>cs. ran t = ran s @ cs \<and>
     cs \<in> {[], [worktree_add bare dir commit, worktree_prune bare], [worktree_add bare dir commit],
            [worktree_add bare dir commit, docker_run r name dir command],
            [worktree_add bare dir commit, docker_run r name dir command, docker_rm name]}
     \<and> (cs \<noteq> [] \<and> io_calm s \<longrightarrow>
          (\<forall>p. prefix (fs_path dir) p \<longrightarrow> file_at t p = None \<and> p \<notin> set (fs_dirs t)))
     \<and> (out = Panicked \<longleftrightarrow> cs = [worktree_add bare dir commit])
     \<and> (out = Panicked \<longrightarrow> length commit < 8)"
proof -
  have tr: "ran (snd (run c s)) = ran s @ [c]" and ic: "io_calm s \<longrightarrow> io_calm (snd (run c s))" for c s
    using assms(1) by blast+
  show ?thesis
  proof (cases rule: Runner_Run_cases [OF assms(2), OF dir_def [THEN meta_eq_to_obj_eq]])
    case 1
    then show ?thesis by (intro exI [of _ "[]"]) simp
  next
    case (2 s2 w)
    from checkout_and_run_commands [OF tr 2(1)] obtain cs where cs: "ran w = ran s2 @ cs"
      "(cs, out = Panicked) \<in>
       {([worktree_add bare dir commit, worktree_prune bare], False),
        ([worktree_add bare dir commit], True),
        ([worktree_add bare dir commit, docker_run r name dir command], False),
        ([worktree_add bare dir commit, docker_run r name dir command, docker_rm name], False)}"
      "out = Panicked \<longrightarrow> length commit < 8" unfolding name_def by blast
    have "ran t = ran s @ cs" using 2(2,3) cs(1) ran_fs_ops(3) by metis
    moreover have "file_at t p = None \<and> p \<notin> set (fs_dirs t)"
      if "io_calm s" "prefix (fs_path dir) p" for p
    proof -
      have "steps (keeps io_calm) (run c)" for c
        using ic by (intro stepsI) (simp add: keeps_def)
      from stepsE [OF checkout_and_run_keeps [OF this] 2(1)] have "io_calm w"
        using 2(4) that(1) by (simp add: keeps_def)
      then show ?thesis
        using that(2) by (auto simp: 2(2) os_remove_all_def file_at_def map_of_eq_None_iff)
    qed
    ultimately show ?thesis
      using cs(2,3) by (intro exI [of _ cs]) auto
  qed
qed

text \<open>The executor as the server wires it.\<close>

definition server_executor ::
  "'z host_scheme runner \<Rightarrow> int \<Rightarrow> string \<Rightarrow> string \<Rightarrow> build_runner
    \<Rightarrow> (int \<Rightarrow> ('z host_scheme, goerr + string) st) \<Rightarrow> 'z host_scheme executor" where
  "server_executor run pid tmp rnd r resolve =
     \<lparr>exe_run = Runner_Run run pid tmp rnd r, exe_repo_path = resolve\<rparr>"

text \<open>
  A commit name shorter than eight bytes takes the server down. When git accepts it (a branch
  name such as main, or a short abbreviation), \<open>Run\<close> slices it out of range while naming the
  container; nothing recovers the panic in the job's goroutine, and the job stays running in
  the database.
\<close>

theorem short_commit_panics:
  assumes "calm s" and "io_calm s" and "find_job jid s = Some j" and "run_image r \<noteq> []"
    and "run_work_root r \<noteq> []"
    and "\<forall>q. prefix q (fs_path (run_work_root r)) \<longrightarrow> file_at s q = None"
    and "length commit < 8"
    and repo: "\<And>w. resolve rid w = (Inr bare, w)"
    and git: "\<And>c w. run c w = (\<lparr>out_err = None, out_exit = None, out_stdout = [], out_stderr = [],
                out_combined = []\<rparr>, w)"
  shows "fst (RunOne (server_executor run pid tmp rnd r resolve) rid jid commit branch command s) = None
    \<and> map_option job_status (find_job jid
        (snd (RunOne (server_executor run pid tmp rnd r resolve) rid jid commit branch command s)))
      = Some StatusRunning"
proof -
  let ?e = "server_executor run pid tmp rnd r resolve"
  let ?s1 = "update_job jid (\<lambda>j. j\<lparr>job_status := ''running'', job_started := Some (clock s)\<rparr>) s"
  let ?root = "run_work_root r"
  have s1: "io_calm ?s1" "\<And>p. file_at ?s1 p = file_at s p"
    using assms(2) by (simp_all add: update_job_def io_calm_def file_at_def)
  obtain r1 s2 where mk: "os_mkdir_all (fs_path ?root) ?s1 = (r1, s2)" by (rule prod.exhaust)
  have 2: "r1 = Inr () \<and> io_calm s2 \<and> t_jobs s2 = t_jobs ?s1 \<and> is_dir s2 (fs_path ?root)"
    using mk s1 assms(6) by (auto simp: os_mkdir_all_def list_ex_iff is_dir_mkdir)
  obtain r2 s3 where tmp: "os_mkdir_temp ?root rnd s2 = (r2, s3)" by (rule prod.exhaust)
  then obtain d where 3: "r2 = Inr d \<and> io_calm s3 \<and> t_jobs s3 = t_jobs ?s1"
    using 2 by (auto simp: os_mkdir_temp_def Let_def)
  have co: "checkout_and_run run pid r d bare commit branch command s3 = (Panicked, s3)"
    using assms(7) by (simp add: checkout_and_run_def hostGit_def and_then_apply git run_container_def)
  have rm: "t_jobs (snd (os_remove_all p s3)) = t_jobs ?s1" for p
    using 3 by (simp add: os_remove_all_def)
  obtain w where w: "Runner_Run run pid tmp rnd r bare commit branch command ?s1 = (Panicked, w)"
    "t_jobs w = t_jobs ?s1"
    using assms(4,5) mk 2 tmp 3 co rm
    by (simp add: Runner_Run_def Let_def on_result_apply and_then_apply discard_result_apply)
  have one: "RunOne ?e rid jid commit branch command s = (None, w)"
    using assms(1) by (simp add: RunOne_def server_executor_def on_result_apply and_then_apply
        MarkRunning_calm repo w(1))
  have "find_job jid w = find_job jid ?s1" by (rule find_job_cong [OF w(2)])
  then show ?thesis
    using one find_running_same [OF assms(3), where st = "''running''" and ?t0.0 = "Some (clock s)"]
    by (simp add: StatusRunning_def)
qed

section \<open>A concrete job, for the witnesses\<close>

definition demo_job :: job where
  "demo_job = \<lparr>job_id = 1, job_commit = ''main'', job_branch = ''main'', job_trigger_kind = ''push'',
     job_trigger_ref = [], job_status = ''queued'', job_output = [], job_exit_code = None,
     job_created = 0, job_started = None, job_finished = None\<rparr>"

definition demo_build_host :: build_host where
  "demo_build_host = host.extend (empty_host\<lparr>t_jobs := [\<lparr>jrow_repo = 1, jrow_job = demo_job\<rparr>]\<rparr>)
     \<lparr>ran = []\<rparr>"

lemma demo_build_host_simps:
  "calm demo_build_host" "io_calm demo_build_host" "find_job 1 demo_build_host = Some demo_job"
  "file_at demo_build_host q = None" "ran demo_build_host = []"
  by (simp_all add: demo_build_host_def host.defs empty_host_def db.defs empty_db_def calm_def
      io_calm_def find_job_def file_at_def demo_job_def)

definition demo_runner :: "build_runner" where
  "demo_runner = \<lparr>run_image = ''alpine'', run_timeout = 0, run_work_root = ''/work''\<rparr>"

definition quiet_run :: "'w runner" where
  "quiet_run c w = (\<lparr>out_err = None, out_exit = None, out_stdout = [], out_stderr = [],
     out_combined = []\<rparr>, w)"

definition logging_run :: "build_host runner" where
  "logging_run c w = quiet_run c (w\<lparr>ran := ran w @ [c]\<rparr>)"

theorem job_status_not_guarded_witness:
  "map_option job_status (find_job 1 (snd (MarkRunning 1 demo_build_host))) = Some StatusRunning"
  using job_status_not_guarded [OF demo_build_host_simps(1,3)] by simp

theorem build_is_confined_witness:
  "\<exists>cs. ran (snd (Runner_Run logging_run 7 ''/tmp'' ''x1'' demo_runner ''/r'' ''main'' ''main''
       ''rm -rf /'' demo_build_host)) = cs \<and> length cs \<le> 3"
proof -
  obtain out t where run: "Runner_Run logging_run 7 ''/tmp'' ''x1'' demo_runner ''/r'' ''main'' ''main''
      ''rm -rf /'' demo_build_host = (out, t)" by (rule prod.exhaust)
  have "ran (snd (logging_run c w)) = ran w @ [c] \<and> (io_calm w \<longrightarrow> io_calm (snd (logging_run c w)))" for c w
    by (simp add: logging_run_def quiet_run_def io_calm_def)
  from build_is_confined [OF this run] show ?thesis
    using run by (auto simp: demo_build_host_simps(5))
qed

theorem short_commit_panics_witness:
  "fst (RunOne (server_executor quiet_run 7 ''/tmp'' ''x1'' demo_runner (\<lambda>_ w. (Inr ''/r'', w)))
     1 1 ''main'' ''main'' ''make'' demo_build_host) = None"
  using short_commit_panics [OF demo_build_host_simps(1,2,3), of demo_runner "''main''"
      "\<lambda>_ w. (Inr ''/r'', w)" 1 "''/r''" quiet_run 7 "''/tmp''" "''x1''" "''main''" "''make''"]
  by (simp add: demo_runner_def demo_build_host_simps(4) quiet_run_def)

end
