(* ===== verification/Automation.thy ===== *)
theory Automation
  imports Webhooks CI Repos
begin

text \<open>
  Package \<open>internal/automation\<close>: the fan-out of merge and push events to the webhook dispatcher
  and to CI (events.go, fanout.go), and the post-receive hook (hook.go). A job started with
  \<open>go\<close> is not run by the function that starts it: the operations return the jobs they spawn.
\<close>

section \<open>Events (events.go)\<close>

record merge_event =
  me_repository :: int
  me_owner :: string
  me_name :: string
  me_number :: int
  me_actor :: string
  me_merge_commit :: string
  me_source_branch :: string
  me_target_branch :: string

record push_event =
  pe_repository :: int
  pe_owner :: string
  pe_name :: string
  pe_actor :: string
  pe_branch :: string
  pe_old_hash :: string
  pe_new_hash :: string

section \<open>Fan-out (fanout.go)\<close>

text \<open>\<open>None\<close> and \<open>False\<close> are nil fields of \<open>Config\<close>.\<close>

record 'w automation =
  cfg_webhook_store :: bool
  cfg_dispatcher :: "'w dispatcher option"
  cfg_ci_store :: bool
  cfg_executor :: "'w executor option"
  cfg_repo_path :: "(int \<Rightarrow> ('w, goerr + string) st) option"
  cfg_run :: "'w runner"

text \<open>A call of \<open>RunOne\<close> in a goroutine of its own.\<close>

record spawned =
  sp_repository :: int
  sp_job :: int
  sp_commit :: string
  sp_branch :: string
  sp_command :: string

definition build_line :: "string list \<Rightarrow> string" where
  "build_line lines =
     (case List.find (\<lambda>l. has_prefix l ''run:'') lines of
        None \<Rightarrow> [] | Some line \<Rightarrow> trim_space (trim_prefix line ''run:''))"

definition readBuildCommand :: "'w runner \<Rightarrow> string \<Rightarrow> string \<Rightarrow> ('w, string) st" where
  "readBuildCommand run barePath commitHash =
     on_result (run_output run (plain_command
         [''git'', ''--git-dir'', barePath, ''show'', commitHash @ '':.gitcastle.yml'']))
       (\<lambda>err. ret [])
       (\<lambda>output. ret (build_line (split_char (CHR 0x0A) output)))"

definition queueJob ::
  "'z db_scheme automation \<Rightarrow> int \<Rightarrow> string \<Rightarrow> string \<Rightarrow> string \<Rightarrow> string
    \<Rightarrow> ('z db_scheme, spawned list) st" where
  "queueJob c repositoryID commitHash branch kind ref =
     (case (cfg_ci_store c, cfg_executor c, cfg_repo_path c) of
        (True, Some _, Some resolve) \<Rightarrow>
          on_result (resolve repositoryID) (\<lambda>err. ret [])
            (\<lambda>barePath. and_then (readBuildCommand (cfg_run c) barePath commitHash) (\<lambda>command.
              if command = [] then ret []
              else on_result (CreateJob repositoryID commitHash branch kind ref) (\<lambda>err. ret [])
                (\<lambda>job. ret [\<lparr>sp_repository = repositoryID, sp_job = job_id job,
                   sp_commit = commitHash, sp_branch = branch, sp_command = command\<rparr>])))
      | _ \<Rightarrow> ret [])"

text \<open>\<open>ctx\<close> is the context of the call: \<open>ctx s\<close> when it is done (see \<open>dsp_cancelled\<close>).\<close>

definition dispatch_if_configured ::
  "'z net_scheme automation \<Rightarrow> ('z net_scheme \<Rightarrow> bool) \<Rightarrow> int \<Rightarrow> string \<Rightarrow> string \<Rightarrow> string \<Rightarrow> (string \<times> json) list
    \<Rightarrow> ('z net_scheme, unit) st" where
  "dispatch_if_configured c ctx rid event slug actor data =
     (case (cfg_dispatcher c, cfg_webhook_store c) of
        (Some d, True) \<Rightarrow> Dispatch (d\<lparr>dsp_cancelled := ctx\<rparr>) rid event slug actor data
      | _ \<Rightarrow> ret ())"

text \<open>Merges are reported under \<open>context.Background()\<close>, pushes under that of the request.\<close>

definition PullRequestMerged ::
  "'z net_scheme automation \<Rightarrow> merge_event \<Rightarrow> ('z net_scheme, spawned list) st" where
  "PullRequestMerged c event =
     and_then (dispatch_if_configured c (\<lambda>_. False) (me_repository event) EventPullMerge
         (me_owner event @ ''/'' @ me_name event) (me_actor event)
         [(''action'', JStr ''merged''), (''number'', JInt (me_number event)),
          (''merge_commit'', JStr (me_merge_commit event))])
       (\<lambda>_. queueJob c (me_repository event) (me_merge_commit event) (me_target_branch event)
         ''pull_request'' (int_str (me_number event)))"

definition zero_hash :: string where
  "zero_hash = replicate 40 (CHR ''0'')"

definition PushReceived ::
  "'z net_scheme automation \<Rightarrow> ('z net_scheme \<Rightarrow> bool) \<Rightarrow> push_event \<Rightarrow> ('z net_scheme, spawned list) st" where
  "PushReceived c ctx event =
     and_then (dispatch_if_configured c ctx (pe_repository event) EventPush
         (pe_owner event @ ''/'' @ pe_name event) (pe_actor event)
         [(''branch'', JStr (pe_branch event)), (''after'', JStr (pe_new_hash event)),
          (''before'', JStr (pe_old_hash event))])
       (\<lambda>_. if pe_new_hash event = [] \<or> pe_new_hash event = zero_hash then ret []
            else queueJob c (pe_repository event) (pe_new_hash event) (pe_branch event) ''push'' [])"

section \<open>The post-receive hook (hook.go)\<close>

record hook_env =
  he_server_url :: string
  he_token :: string
  he_owner :: string
  he_name :: string

text \<open>\<open>strings.ReplaceAll(value, "'", `'\''`)\<close> between quotes.\<close>

definition sq :: char where "sq = CHR 0x27"
definition bs :: char where "bs = CHR 0x5C"
definition dq :: char where "dq = CHR 0x22"

definition quoteShell :: "string \<Rightarrow> string" where
  "quoteShell value = [sq] @ concat (map (\<lambda>c. if c = sq then [sq, bs, sq, sq] else [c]) value) @ [sq]"

definition nl :: string where "nl = [CHR 0x0A]"

definition HookScript :: string where
  "HookScript =
     ''#!/bin/sh'' @ nl @
     ''# Installed by GitCastle. Forwards push notifications to the server API.'' @ nl @
     ''while read oldrev newrev refname; do'' @ nl @
     ''  branch='' @ [dq] @ ''${refname#refs/heads/}'' @ [dq] @ nl @
     ''  [ '' @ [dq] @ ''$branch'' @ [dq] @ '' = '' @ [dq] @ ''$refname'' @ [dq] @
       '' ] && continue # not a branch (tag etc.)'' @ nl @
     ''  curl -s -o /dev/null -m 5 '' @ [bs] @ nl @
     ''    -X POST '' @ [dq] @ ''$GITCASTLE_URL/api/v1/internal/notify-push'' @ [dq] @ '' '' @ [bs] @ nl @
     ''    -H '' @ [dq] @ ''Content-Type: application/json'' @ [dq] @ '' '' @ [bs] @ nl @
     ''    -H '' @ [dq] @ ''X-GitCastle-Internal-Token: $GITCASTLE_TOKEN'' @ [dq] @ '' '' @ [bs] @ nl @
     ''    -d '' @ [dq] @ ''{'' @ [bs, dq] @ ''owner'' @ [bs, dq] @ '':'' @
       [bs, dq] @ ''$GITCASTLE_OWNER'' @ [bs, dq] @ '','' @ [bs, dq] @ ''name'' @ [bs, dq] @ '':'' @
       [bs, dq] @ ''$GITCASTLE_NAME'' @ [bs, dq] @ '','' @ [bs, dq] @ ''branch'' @ [bs, dq] @ '':'' @
       [bs, dq] @ ''$branch'' @ [bs, dq] @ '','' @ [bs, dq] @ ''old_hash'' @ [bs, dq] @ '':'' @
       [bs, dq] @ ''$oldrev'' @ [bs, dq] @ '','' @ [bs, dq] @ ''new_hash'' @ [bs, dq] @ '':'' @
       [bs, dq] @ ''$newrev'' @ [bs, dq] @ ''}'' @ [dq] @ '' || true'' @ nl @
     ''done'' @ nl"

definition hook_script :: "hook_env \<Rightarrow> string" where
  "hook_script env =
     ''GITCASTLE_URL='' @ go_quote (he_server_url env) @ nl @
     ''GITCASTLE_TOKEN='' @ go_quote (he_token env) @ nl @
     ''GITCASTLE_OWNER='' @ go_quote (he_owner env) @ nl @
     ''GITCASTLE_NAME='' @ go_quote (he_name env) @ nl @
     HookScript"

definition install_command :: "string \<Rightarrow> hook_env \<Rightarrow> string" where
  "install_command barePath env =
     (let target = quoteShell (barePath @ ''/hooks/post-receive'') in
      ''printf '' @ [sq] @ ''%s'' @ [bs] @ ''n'' @ [sq] @ '' '' @ quoteShell (hook_script env) @
      '' > '' @ target @ '' && chmod +x '' @ target)"

definition InstallPostReceiveHook ::
  "'w runner \<Rightarrow> string \<Rightarrow> hook_env \<Rightarrow> ('w, goerr option) st" where
  "InstallPostReceiveHook run barePath env =
     and_then (run (plain_command [''/bin/sh'', ''-c'', install_command barePath env]))
       (\<lambda>out. ret (out_err out))"

section \<open>What the shell makes of the installation command\<close>

text \<open>
  Words and operators of a POSIX shell command line, as far as it needs no expansion: \<open>None\<close> as
  soon as an unquoted special character, or an expansion inside double quotes, is met.
\<close>

datatype sh_token = Word string | Op string

definition sh_flush :: "string option \<Rightarrow> sh_token list" where
  "sh_flush cur = (case cur of None \<Rightarrow> [] | Some w \<Rightarrow> [Word w])"

definition sh_word :: "string option \<Rightarrow> string" where
  "sh_word cur = (case cur of None \<Rightarrow> [] | Some w \<Rightarrow> w)"

definition sh_special :: "char \<Rightarrow> bool" where
  "sh_special c \<longleftrightarrow> c \<in> set ''$`;|&<>()*?[#~!{}'' \<or> c = CHR 0x0A \<or> c = CHR 0x09"

fun sh_plain :: "string \<Rightarrow> string option \<Rightarrow> sh_token list option"
  and sh_single :: "string \<Rightarrow> string \<Rightarrow> sh_token list option"
  and sh_double :: "string \<Rightarrow> string \<Rightarrow> sh_token list option" where
  "sh_plain [] cur = Some (sh_flush cur)"
| "sh_plain (c # s) cur =
     (if c = CHR '' '' then map_option (\<lambda>ts. sh_flush cur @ ts) (sh_plain s None)
      else if c = CHR 0x27 then sh_single s (sh_word cur)
      else if c = CHR 0x22 then sh_double s (sh_word cur)
      else if c = CHR 0x5C then
        (case s of [] \<Rightarrow> None | d # t \<Rightarrow> sh_plain t (Some (sh_word cur @ [d])))
      else if c = CHR ''>'' \<and> cur = None then map_option (Cons (Op ''>'')) (sh_plain s None)
      else if c = CHR ''&'' \<and> cur = None then
        (case s of [] \<Rightarrow> None
         | d # t \<Rightarrow> if d = CHR ''&'' then map_option (Cons (Op ''&&'')) (sh_plain t None) else None)
      else if sh_special c then None
      else sh_plain s (Some (sh_word cur @ [c])))"
| "sh_single [] w = None"
| "sh_single (c # s) w = (if c = CHR 0x27 then sh_plain s (Some w) else sh_single s (w @ [c]))"
| "sh_double [] w = None"
| "sh_double (c # s) w =
     (if c = CHR 0x22 then sh_plain s (Some w)
      else if c = CHR ''$'' \<or> c = CHR ''`'' then None
      else if c = CHR 0x5C then
        (case s of [] \<Rightarrow> None
         | d # t \<Rightarrow> if d \<in> {CHR ''$'', CHR ''`'', CHR 0x22, CHR 0x5C} then sh_double t (w @ [d])
                    else if d = CHR 0x0A then sh_double t w
                    else sh_double t (w @ [c, d]))
      else sh_double s (w @ [c]))"

lemma sh_single_quoted:
  "sh_single (concat (map (\<lambda>c. if c = sq then [sq, bs, sq, sq] else [c]) v) @ sq # rest) w =
     sh_plain rest (Some (w @ v))"
  by (induction v arbitrary: w) (auto simp: sq_def bs_def sh_word_def)

lemma sh_plain_quoteShell:
  "sh_plain (quoteShell v @ rest) cur = sh_plain rest (Some (sh_word cur @ v))"
  using sh_single_quoted [of v rest "sh_word cur"] by (simp add: quoteShell_def) (simp add: sq_def)

lemma sh_plain_letters:
  assumes "list_all (\<lambda>c. \<not> sh_special c \<and> c \<notin> {CHR '' '', CHR 0x27, CHR 0x22, CHR 0x5C}) w"
  shows "sh_plain (w @ rest) cur = (if w = [] then sh_plain rest cur
    else sh_plain rest (Some (sh_word cur @ w)))"
  using assms
proof (induction w arbitrary: cur)
  case (Cons c w)
  then have "sh_plain ((c # w) @ rest) cur = sh_plain (w @ rest) (Some (sh_word cur @ [c]))"
    by (auto simp: sh_special_def)
  then show ?case using Cons by (simp add: sh_word_def)
qed simp

text \<open>
  C22: The installation command has exactly one meaning to the shell, whatever bytes the paths and
  the configured values hold: print the hook's text into \<open>hooks/post-receive\<close> of the repository
  and make that file executable. Nothing in a path or a value is expanded, splits a word or
  ends the quoting.
\<close>

theorem install_command_words:
  "sh_plain (install_command barePath env) None =
     Some [Word ''printf'', Word (''%s'' @ [bs] @ ''n''), Word (hook_script env), Op ''>'',
           Word (barePath @ ''/hooks/post-receive''), Op ''&&'', Word ''chmod'', Word ''+x'',
           Word (barePath @ ''/hooks/post-receive'')]"
proof -
  let ?t = "barePath @ ''/hooks/post-receive''"
  have chmod: "sh_plain (''chmod +x '' @ quoteShell ?t) None = Some [Word ''chmod'', Word ''+x'', Word ?t]"
    using sh_plain_quoteShell [of ?t "[]" None]
    by (simp add: sh_special_def sh_flush_def sh_word_def)
  have redirect: "sh_plain ('' > '' @ quoteShell ?t @ '' && chmod +x '' @ quoteShell ?t) (Some v) =
      Some ([Word v, Op ''>'', Word ?t, Op ''&&'', Word ''chmod'', Word ''+x'', Word ?t])" for v
    using sh_plain_quoteShell [of ?t "'' && chmod +x '' @ quoteShell ?t" None] chmod
    by (simp add: sh_special_def sh_flush_def sh_word_def)
  show ?thesis
    using sh_plain_quoteShell [of "hook_script env" "'' > '' @ quoteShell ?t @ '' && chmod +x '' @ quoteShell ?t" None]
      redirect [of "hook_script env"]
    by (simp add: install_command_def Let_def sh_special_def sh_flush_def sh_word_def sq_def bs_def)
qed

lemma go_quote_visible:
  assumes "list_all visible_ascii v"
  shows "go_quote v = [dq] @ concat (map (\<lambda>c. if c = dq \<or> c = bs then [bs, c] else [c]) v) @ [dq]"
proof -
  have "quote_rune [c] = (if c = dq \<or> c = bs then [bs, c] else [c])" if "visible_ascii c" for c
    using that by (auto simp: dq_def bs_def visible_ascii_def less_eq_char_def less_char_def)
  then have "map quote_rune (map (\<lambda>c. [c]) v) = map (\<lambda>c. if c = dq \<or> c = bs then [bs, c] else [c]) v"
    using assms by (auto simp: list_all_iff)
  then show ?thesis
    unfolding go_quote_def runes_ascii [OF visible_list_ascii [OF assms]] by (simp only: dq_def)
qed

text \<open>
  The values baked into the hook are not inert. For printable values \<open>%q\<close> between double
  quotes makes an assignment whose value is the text itself exactly when the text holds neither
  a dollar sign nor a backquote; otherwise the shell that runs the hook expands it. The names of
  repositories the service accepts are always inert.
\<close>

theorem hook_assignment_meaning:
  "(list_all visible_ascii v \<longrightarrow> sh_plain (go_quote v) None =
      (if CHR ''$'' \<in> set v \<or> CHR ''`'' \<in> set v then None else Some [Word v]))
   \<and> (validName v \<longrightarrow> sh_plain (go_quote v) None = Some [Word v])"
proof
  have double: "sh_double (concat (map (\<lambda>c. if c = dq \<or> c = bs then [bs, c] else [c]) v) @ [dq]) w =
      (if CHR ''$'' \<in> set v \<or> CHR ''`'' \<in> set v then None else Some [Word (w @ v)])" for v w
    by (induction v arbitrary: w) (auto simp: dq_def bs_def sh_flush_def)
  show 1: "list_all visible_ascii v \<longrightarrow> sh_plain (go_quote v) None =
      (if CHR ''$'' \<in> set v \<or> CHR ''`'' \<in> set v then None else Some [Word v])"
    using double [of v "[]"] by (simp add: go_quote_visible) (simp add: dq_def sh_word_def)
  show "validName v \<longrightarrow> sh_plain (go_quote v) None = Some [Word v]"
  proof
    assume v: "validName v"
    then have n: "list_all name_char v"
      by (auto simp: validName_def name_char_def split: list.splits)
    have nv: "visible_ascii c \<and> c \<noteq> CHR ''$'' \<and> c \<noteq> CHR ''`''" if "name_char c" for c
      using that by (auto simp: name_char_def alnum_char_def visible_ascii_def is_digit_def
          less_eq_char_def)
    then have "list_all visible_ascii v" "CHR ''$'' \<notin> set v" "CHR ''`'' \<notin> set v"
      using n by (auto simp: list_all_iff)
    then show "sh_plain (go_quote v) None = Some [Word v]" using 1 by simp
  qed
qed

theorem hook_assignment_meaning_witness:
  "sh_plain (go_quote ''cas.tle'') None = Some [Word ''cas.tle'']
   \<and> sh_plain (go_quote ''$(id)'') None = None"
  using hook_assignment_meaning [of "''cas.tle''"] hook_assignment_meaning [of "''$(id)''"]
  by (simp add: visible_ascii_def less_eq_char_def)

section \<open>From an event to a build job\<close>

text \<open>Dispatching to webhooks leaves everything but deliveries and the network alone.\<close>

lemma Dispatch_same:
  assumes "\<And>s c. f (tick c s) = f s" "\<And>s g. f (outbox_update g s) = f s"
    "\<And>s g. f (followed_update g s) = f s" "\<And>s g. f (answers_update g s) = f s" "\<And>s fs. f (s\<lparr>faults := fs\<rparr>) = f s"
    "\<And>s n. f (s\<lparr>next_ids := (next_ids s)(T_deliveries := n)\<rparr>) = f s"
    "\<And>s ds. f (s\<lparr>t_deliveries := ds\<rparr>) = f s"
  shows "steps (same f) (Dispatch (pg_dispatcher n mac parse_url time_text cancelled) rid ev slug actor data)"
proof -
  have list: "steps (same f) (ListHooks i e)" for i e
    unfolding ListHooks_def listHooksQuery_def
    by (intro step_rules steps_pool_same assms) (simp add: steps_def same_def stmt_list_hooks_def)
  have "steps (same f) (stmt_insert_delivery h e p st d)" for h e p st d
    by (rule stepsI) (simp add: same_def stmt_insert_delivery_def and_then_apply next_id_def assms(6,7))
  then have rec: "steps (same f) (RecordDelivery h e p st)" for h e p st
    unfolding RecordDelivery_def by (intro step_rules steps_pool_same assms)
  have "steps (same f) (deliver_all d e p m hooks)" if "dsp_record d = RecordDelivery" for d e p m hooks
  proof (induction hooks)
    case Nil
    show ?case by (simp only: deliver_all.simps) (intro step_rules)
  next
    case (Cons h hooks)
    then show ?case
      by (simp only: deliver_all.simps that)
        (intro step_rules deliverWithRetries_same rec assms)
  qed
  then show ?thesis
    unfolding Dispatch_def
    by (intro step_rules) (simp_all add: pg_dispatcher_def list)
qed

text \<open>The view of the state that \<open>queueJob\<close> depends on.\<close>

definition job_view :: "'z db_scheme \<Rightarrow> job_row list \<times> repository list \<times> int" where
  "job_view s = (t_jobs s, t_repositories s, next_ids s T_jobs)"

lemma Dispatch_job_view:
  "steps (same job_view) (Dispatch (pg_dispatcher n mac parse_url time_text cancelled) rid ev slug actor data)"
  by (rule Dispatch_same) (simp_all add: job_view_def tick_def)

lemma pool_keeps_calm: "steps (same faults) stmt \<Longrightarrow> steps (keeps calm) (pool stmt)"
  by (auto simp: steps_def keeps_def same_def calm_def pool_def)

lemma Dispatch_calm:
  "steps (keeps calm) (Dispatch (pg_dispatcher n mac parse_url time_text cancelled) rid ev slug actor data
     :: ('z net_scheme, unit) st)"
proof -
  have list: "steps (keeps calm) (ListHooks i e :: ('z net_scheme, _) st)" for i e
    unfolding ListHooks_def listHooksQuery_def
    by (intro step_rules pool_keeps_calm) (simp add: steps_def same_def stmt_list_hooks_def)
  have "steps (same faults) (stmt_insert_delivery h e p st d :: ('z net_scheme, _) st)" for h e p st d
    by (rule stepsI) (simp add: same_def stmt_insert_delivery_def and_then_apply next_id_def)
  then have rec: "steps (keeps calm) (RecordDelivery h e p st :: ('z net_scheme, _) st)" for h e p st
    unfolding RecordDelivery_def by (intro step_rules pool_keeps_calm)
  have "steps (same faults) (deliverWithRetries d hook p m)" for d :: "'z net_scheme dispatcher" and hook p m
    by (rule deliverWithRetries_same) (simp_all add: tick_def)
  then have del: "steps (keeps calm) (deliverWithRetries d hook p m)" for d :: "'z net_scheme dispatcher" and hook p m
    unfolding calm_def by (rule keeps_from_same)
  have "steps (keeps calm) (deliver_all d e p m hooks)" if "dsp_record d = RecordDelivery" for d :: "'z net_scheme dispatcher" and e p m hooks
  proof (induction hooks)
    case Nil
    show ?case by (simp only: deliver_all.simps) (intro step_rules)
  next
    case (Cons h hooks)
    then show ?case by (simp only: deliver_all.simps that) (intro step_rules del rec)
  qed
  then show ?thesis
    unfolding Dispatch_def
    by (intro step_rules) (simp_all add: pg_dispatcher_def list)
qed

definition pg_configured :: "'z net_scheme automation \<Rightarrow> bool" where
  "pg_configured c \<longleftrightarrow> (\<forall>d. cfg_dispatcher c = Some d \<longrightarrow>
     (\<exists>n mac parse_url time_text cancelled. d = pg_dispatcher n mac parse_url time_text cancelled))"

lemma pg_dispatcher_context [simp]:
  "pg_dispatcher n mac parse_url time_text cancelled\<lparr>dsp_cancelled := ctx\<rparr> =
     pg_dispatcher n mac parse_url time_text ctx"
  by (simp add: pg_dispatcher_def)

lemma dispatch_if_configured_view:
  fixes s :: "'z net_scheme"
  assumes "pg_configured c" and "dispatch_if_configured c ctx rid ev slug actor data s = (u, t)"
  shows "job_view t = job_view s \<and> (calm s \<longrightarrow> calm t)"
proof (cases "cfg_dispatcher c \<noteq> None \<and> cfg_webhook_store c")
  case True
  then obtain d where d: "cfg_dispatcher c = Some d" and w: "cfg_webhook_store c" by auto
  with assms(1) obtain n mac pu tt ca where pg: "d = pg_dispatcher n mac pu tt ca"
    unfolding pg_configured_def by blast
  have run: "Dispatch (pg_dispatcher n mac pu tt ctx) rid ev slug actor data s = (u, t)"
    using assms(2) d w pg by (simp add: dispatch_if_configured_def)
  from stepsE [OF Dispatch_job_view run] stepsE [OF Dispatch_calm run]
  show ?thesis by (simp add: same_def keeps_def)
next
  case False
  then have "t = s" using assms(2) by (auto simp: dispatch_if_configured_def split: option.splits bool.splits)
  then show ?thesis by simp
qed

definition show_config :: "string \<Rightarrow> string \<Rightarrow> command" where
  "show_config bare commit = plain_command [''git'', ''--git-dir'', bare, ''show'', commit @ '':.gitcastle.yml'']"

text \<open>The build command of a commit, as git shows its \<open>.gitcastle.yml\<close>.\<close>

definition build_command :: "outcome \<Rightarrow> string" where
  "build_command out =
     (if out_err out \<noteq> None then [] else build_line (split_char (CHR 0x0A) (out_stdout out)))"

definition queued_job :: "int \<Rightarrow> string \<Rightarrow> string \<Rightarrow> string \<Rightarrow> string \<Rightarrow> time \<Rightarrow> job" where
  "queued_job i commit branch kind ref now =
     \<lparr>job_id = i, job_commit = commit, job_branch = branch, job_trigger_kind = kind,
      job_trigger_ref = ref, job_status = StatusQueued, job_output = [], job_exit_code = None,
      job_created = now, job_started = None, job_finished = None\<rparr>"

lemma queueJob_effect:
  fixes s :: "'z db_scheme"
  assumes "calm s" and "repo_exists s rid"
    and cfg: "cfg_ci_store c" "cfg_executor c = Some e" "cfg_repo_path c = Some resolve"
    and env: "resolve rid s = (Inr bare, s)" "cfg_run c (show_config bare commit) s = (out, s)"
  shows "queueJob c rid commit branch kind ref s =
    (if build_command out = [] then ([], s)
     else ([\<lparr>sp_repository = rid, sp_job = next_ids s T_jobs, sp_commit = commit, sp_branch = branch,
             sp_command = build_command out\<rparr>],
           s\<lparr>next_ids := (next_ids s)(T_jobs := next_ids s T_jobs + 1),
             t_jobs := t_jobs s @ [\<lparr>jrow_repo = rid,
               jrow_job = queued_job (next_ids s T_jobs) commit branch kind ref (clock s)\<rparr>]\<rparr>))"
proof -
  have "readBuildCommand (cfg_run c) bare commit s = (build_command out, s)"
    using env(2) by (simp add: readBuildCommand_def run_output_def on_result_apply and_then_apply
        show_config_def build_command_def split: option.split)
  then show ?thesis
    using assms(1,2) cfg env(1)
    by (simp add: queueJob_def on_result_apply and_then_apply CreateJob_def stmt_insert_job_def
        next_id_def repo_exists_def queued_job_def StatusQueued_def)
qed

text \<open>
  A push starts a build exactly when it should. With CI configured and no failing database
  call: the deletion of a branch, and a commit whose \<open>.gitcastle.yml\<close> has no \<open>run:\<close> line,
  queue nothing; every other push queues exactly one job, for that commit and branch, queued and
  triggered by push, and starts one run of it with the trimmed command. Webhook deliveries
  happen first and change none of this.
\<close>

theorem push_queues_build:
  fixes s :: "'z net_scheme"
  assumes "calm s" and "repo_exists s (pe_repository ev)" and "pg_configured c"
    and cfg: "cfg_ci_store c" "cfg_executor c = Some e" "cfg_repo_path c = Some resolve"
    and env: "\<And>w. calm w \<Longrightarrow> t_repositories w = t_repositories s \<Longrightarrow> resolve (pe_repository ev) w = (Inr bare, w)"
      "\<And>w. cfg_run c (show_config bare (pe_new_hash ev)) w = (out, w)"
    and run: "PushReceived c ctx ev s = (spawned, t)"
  shows "(if pe_new_hash ev = [] \<or> pe_new_hash ev = zero_hash \<or> build_command out = []
     then spawned = [] \<and> t_jobs t = t_jobs s
     else \<exists>now. t_jobs t = t_jobs s @ [\<lparr>jrow_repo = pe_repository ev, jrow_job =
            queued_job (next_ids s T_jobs) (pe_new_hash ev) (pe_branch ev) ''push'' [] now\<rparr>]
       \<and> spawned = [\<lparr>sp_repository = pe_repository ev, sp_job = next_ids s T_jobs,
            sp_commit = pe_new_hash ev, sp_branch = pe_branch ev, sp_command = build_command out\<rparr>])"
proof -
  let ?data = "[(''branch'', JStr (pe_branch ev)), (''after'', JStr (pe_new_hash ev)),
      (''before'', JStr (pe_old_hash ev))]"
  obtain u w where d: "dispatch_if_configured c ctx (pe_repository ev) EventPush
      (pe_owner ev @ ''/'' @ pe_name ev) (pe_actor ev) ?data s = (u, w)" by (rule prod.exhaust)
  from dispatch_if_configured_view [OF assms(3) d] assms(1,2)
  have w: "calm w" "repo_exists w (pe_repository ev)" "t_jobs w = t_jobs s"
    "next_ids w T_jobs = next_ids s T_jobs" "t_repositories w = t_repositories s" by (auto simp: job_view_def repo_exists_def)
  show ?thesis
    using run d queueJob_effect [OF w(1,2) cfg env(1) [OF w(1,5)] env(2), of "pe_branch ev" "''push''" "[]"] w(3,4)
    by (auto simp: PushReceived_def and_then_apply split: if_splits)
qed

text \<open>
  A merge builds the merge commit on the target branch: the job records the pull request as
  its trigger, and nothing is queued when the commit has no build command.
\<close>

theorem merge_queues_build:
  fixes s :: "'z net_scheme"
  assumes "calm s" and "repo_exists s (me_repository ev)" and "pg_configured c"
    and cfg: "cfg_ci_store c" "cfg_executor c = Some e" "cfg_repo_path c = Some resolve"
    and env: "\<And>w. calm w \<Longrightarrow> t_repositories w = t_repositories s \<Longrightarrow> resolve (me_repository ev) w = (Inr bare, w)"
      "\<And>w. cfg_run c (show_config bare (me_merge_commit ev)) w = (out, w)"
    and run: "PullRequestMerged c ev s = (spawned, t)"
  shows "(if build_command out = [] then spawned = [] \<and> t_jobs t = t_jobs s
     else \<exists>now. t_jobs t = t_jobs s @ [\<lparr>jrow_repo = me_repository ev, jrow_job =
            queued_job (next_ids s T_jobs) (me_merge_commit ev) (me_target_branch ev)
              ''pull_request'' (int_str (me_number ev)) now\<rparr>]
       \<and> spawned = [\<lparr>sp_repository = me_repository ev, sp_job = next_ids s T_jobs,
            sp_commit = me_merge_commit ev, sp_branch = me_target_branch ev,
            sp_command = build_command out\<rparr>])"
proof -
  let ?data = "[(''action'', JStr ''merged''), (''number'', JInt (me_number ev)),
      (''merge_commit'', JStr (me_merge_commit ev))]"
  obtain u w where d: "dispatch_if_configured c (\<lambda>_. False) (me_repository ev) EventPullMerge
      (me_owner ev @ ''/'' @ me_name ev) (me_actor ev) ?data s = (u, w)" by (rule prod.exhaust)
  from dispatch_if_configured_view [OF assms(3) d] assms(1,2)
  have w: "calm w" "repo_exists w (me_repository ev)" "t_jobs w = t_jobs s"
    "next_ids w T_jobs = next_ids s T_jobs" "t_repositories w = t_repositories s" by (auto simp: job_view_def repo_exists_def)
  show ?thesis
    using run d queueJob_effect [OF w(1,2) cfg env(1) [OF w(1,5)] env(2), of "me_target_branch ev" "''pull_request''"
        "int_str (me_number ev)"] w(3,4)
    by (auto simp: PullRequestMerged_def and_then_apply split: if_splits)
qed

section \<open>A concrete configuration, for the witnesses\<close>

definition demo_ci_net :: net where
  "demo_ci_net = demo_net\<lparr>t_repositories := [\<lparr>repo_id = 1, repo_owner = ''al'', repo_name = ''c'',
     repo_path = ''/r/al/c.git'', repo_created = 0\<rparr>]\<rparr>"

definition demo_show :: outcome where
  "demo_show = \<lparr>out_err = None, out_exit = None, out_stdout = ''run: make'' @ [CHR 0x0A],
     out_stderr = [], out_combined = []\<rparr>"

definition demo_automation :: "net automation" where
  "demo_automation = \<lparr>cfg_webhook_store = True, cfg_dispatcher = Some demo_dispatcher,
     cfg_ci_store = True,
     cfg_executor = Some \<lparr>exe_run = \<lambda>b c br cmd. ret Panicked, exe_repo_path = \<lambda>i. ok ''/r''\<rparr>,
     cfg_repo_path = Some (\<lambda>i. ok ''/r/al/c.git''), cfg_run = \<lambda>c. ret demo_show\<rparr>"

lemma demo_pg_configured: "pg_configured demo_automation"
  unfolding pg_configured_def demo_automation_def demo_dispatcher_def
  by (simp, (rule exI)+, rule refl)

lemma demo_automation_simps:
  "calm demo_ci_net" "repo_exists demo_ci_net 1" "pg_configured demo_automation"
  "cfg_ci_store demo_automation"
  "cfg_executor demo_automation = Some \<lparr>exe_run = \<lambda>b c br cmd. ret Panicked, exe_repo_path = \<lambda>i. ok ''/r''\<rparr>"
  "cfg_repo_path demo_automation = Some (\<lambda>i. ok ''/r/al/c.git'')"
  "cfg_run demo_automation = (\<lambda>c. ret demo_show)"
  using demo_net_simps(5) demo_pg_configured
  by (auto simp: demo_ci_net_def calm_def repo_exists_def demo_automation_def)

lemma demo_build_command: "build_command demo_show = ''make''"
  by (simp add: build_command_def demo_show_def build_line_def has_prefix_def trim_prefix_def
      trim_space_def runes.simps rune_len.simps is_space_rune_def space_runes_def rune2_def
      rune3_def rune4_def less_eq_char_def)

theorem push_queues_build_witness:
  "\<exists>t now. PushReceived demo_automation (\<lambda>_. False) \<lparr>pe_repository = 1, pe_owner = ''al'', pe_name = ''c'',
       pe_actor = ''al'', pe_branch = ''main'', pe_old_hash = zero_hash, pe_new_hash = ''c0ffee''\<rparr> demo_ci_net
     = ([\<lparr>sp_repository = 1, sp_job = next_ids demo_ci_net T_jobs, sp_commit = ''c0ffee'',
         sp_branch = ''main'', sp_command = ''make''\<rparr>], t)"
proof -
  let ?ev = "\<lparr>pe_repository = 1, pe_owner = ''al'', pe_name = ''c'', pe_actor = ''al'',
      pe_branch = ''main'', pe_old_hash = zero_hash, pe_new_hash = ''c0ffee''\<rparr>"
  obtain sp t where run: "PushReceived demo_automation (\<lambda>_. False) ?ev demo_ci_net = (sp, t)" by (rule prod.exhaust)
  have "''c0ffee'' \<noteq> zero_hash" by (simp add: zero_hash_def numeral_nat)
  with push_queues_build [OF demo_automation_simps(1) _ demo_automation_simps(3-6) _ _ run,
      of "''/r/al/c.git''" demo_show] run
  show ?thesis
    by (auto simp: demo_automation_simps(2,7) demo_build_command)
qed

theorem merge_queues_build_witness:
  "\<exists>t. PullRequestMerged demo_automation \<lparr>me_repository = 1, me_owner = ''al'', me_name = ''c'',
       me_number = 7, me_actor = ''al'', me_merge_commit = ''c0ffee'', me_source_branch = ''dev'',
       me_target_branch = ''main''\<rparr> demo_ci_net
     = ([\<lparr>sp_repository = 1, sp_job = next_ids demo_ci_net T_jobs, sp_commit = ''c0ffee'',
         sp_branch = ''main'', sp_command = ''make''\<rparr>], t)"
proof -
  let ?ev = "\<lparr>me_repository = 1, me_owner = ''al'', me_name = ''c'', me_number = 7, me_actor = ''al'',
      me_merge_commit = ''c0ffee'', me_source_branch = ''dev'', me_target_branch = ''main''\<rparr>"
  obtain sp t where run: "PullRequestMerged demo_automation ?ev demo_ci_net = (sp, t)"
    by (rule prod.exhaust)
  from merge_queues_build [OF demo_automation_simps(1) _ demo_automation_simps(3-6) _ _ run,
      of "''/r/al/c.git''" demo_show] run
  show ?thesis
    by (auto simp: demo_automation_simps(2,7) demo_build_command)
qed

end
