(* ===== verification/AuditLog.thy ===== *)
theory AuditLog
  imports Json "HOL-Library.Multiset"
begin

text \<open>
  Package \<open>internal/audit\<close>: the audit trail over the table audit_log. Shown: it is append-only,
  and what a listing contains.
\<close>

definition EventLogin :: string where "EventLogin = ''login''"
definition EventLoginFailed :: string where "EventLoginFailed = ''login_failed''"
definition EventLogout :: string where "EventLogout = ''logout''"
definition EventUserRegistered :: string where "EventUserRegistered = ''user_registered''"
definition EventRepoCreated :: string where "EventRepoCreated = ''repository_created''"
definition EventPermissionGrant :: string where "EventPermissionGrant = ''permission_granted''"
definition EventProtectionSet :: string where "EventProtectionSet = ''branch_protection_set''"
definition EventSecretChanged :: string where "EventSecretChanged = ''secret_changed''"
definition EventWebhookChanged :: string where "EventWebhookChanged = ''webhook_changed''"
definition EventPRMerged :: string where "EventPRMerged = ''pull_request_merged''"

definition stmt_insert_audit ::
  "string \<Rightarrow> string \<Rightarrow> string \<Rightarrow> string option \<Rightarrow> string \<Rightarrow> ('z db_scheme, goerr + unit) st" where
  "stmt_insert_audit actor action target details ip =
     and_then (next_id T_audit) (\<lambda>i s.
       (Inr (), s\<lparr>t_audit := t_audit s @
          [\<lparr>aud_id = i, aud_time = clock s, aud_actor = actor, aud_action = action,
            aud_target = target, aud_details = details, aud_remote_ip = ip\<rparr>]\<rparr>))"

text \<open>The details are a Go map or nil; the maps the program records always marshal.\<close>

definition Audit_Record ::
  "string \<Rightarrow> string \<Rightarrow> string \<Rightarrow> (string \<times> json) list option \<Rightarrow> string
    \<Rightarrow> ('z db_scheme, goerr + unit) st" where
  "Audit_Record actor action target details remoteIP =
     (let payload = map_option (\<lambda>d. json_text (json_map d)) details in
      on_result (pool (stmt_insert_audit actor action target payload remoteIP))
        (\<lambda>err. fail (wrap_err ''insert audit entry'' err))
        (\<lambda>_. ok ()))"

definition audit_match :: "string \<Rightarrow> string \<Rightarrow> audit_row \<Rightarrow> bool" where
  "audit_match actor action e \<longleftrightarrow>
     (actor \<noteq> [] \<longrightarrow> aud_actor e = actor) \<and> (action \<noteq> [] \<longrightarrow> aud_action e = action)"

definition stmt_list_audit ::
  "string \<Rightarrow> string \<Rightarrow> int \<Rightarrow> ('z db_scheme, goerr + audit_row list) st" where
  "stmt_list_audit actor action limit s =
     (Inr (take (nat limit) (sort_key (\<lambda>e. - aud_time e) (filter (audit_match actor action) (t_audit s)))), s)"

record audit_entry =
  ent_id :: int
  ent_time :: time
  ent_actor :: string
  ent_action :: string
  ent_target :: string
  ent_details :: "json option"
  ent_remote_ip :: string

definition entry_of :: "audit_row \<Rightarrow> json option \<Rightarrow> audit_entry" where
  "entry_of r d = \<lparr>ent_id = aud_id r, ent_time = aud_time r, ent_actor = aud_actor r,
     ent_action = aud_action r, ent_target = aud_target r, ent_details = d,
     ent_remote_ip = aud_remote_ip r\<rparr>"

text \<open>The loop over the rows; \<open>decode\<close> is \<open>json.Unmarshal\<close> of the stored details.\<close>

fun scan_entries :: "(string \<Rightarrow> goerr + json) \<Rightarrow> audit_row list \<Rightarrow> goerr + audit_entry list" where
  "scan_entries decode [] = Inr []"
| "scan_entries decode (r # rs) =
     (case (case aud_details r of
              Some raw \<Rightarrow> if raw = [] then Inr None
                else (case decode raw of
                        Inl err \<Rightarrow> Inl (wrap_err ''decode audit details'' err)
                      | Inr d \<Rightarrow> Inr (Some d))
            | None \<Rightarrow> Inr None) of
        Inl err \<Rightarrow> Inl err
      | Inr d \<Rightarrow>
          (case scan_entries decode rs of
             Inl err \<Rightarrow> Inl err
           | Inr es \<Rightarrow> Inr (entry_of r d # es)))"

definition Audit_List ::
  "(string \<Rightarrow> goerr + json) \<Rightarrow> string \<Rightarrow> string \<Rightarrow> int \<Rightarrow> ('z db_scheme, goerr + audit_entry list) st"
  where
  "Audit_List decode actor action limit =
     (let limit = (if limit \<le> 0 \<or> limit > 500 then 100 else limit) in
      on_result (pool (stmt_list_audit actor action limit))
        (\<lambda>err. fail (wrap_err ''list audit entries'' err))
        (\<lambda>rows. case scan_entries decode rows of Inl err \<Rightarrow> fail err | Inr es \<Rightarrow> ok es))"

section \<open>The trail only grows\<close>

text \<open>A sequence of operations of the store, each with its own failing calls, and of ticks.\<close>

datatype audit_op =
    Op_record string string string "(string \<times> json) list option" string
  | Op_list string string int
  | Op_wait nat

fun run_audit :: "(string \<Rightarrow> goerr + json) \<Rightarrow> audit_op list \<Rightarrow> 'z db_scheme \<Rightarrow> 'z db_scheme" where
  "run_audit decode [] s = s"
| "run_audit decode (Op_record actor action target details ip # ops) s =
     run_audit decode ops (snd (Audit_Record actor action target details ip s))"
| "run_audit decode (Op_list actor action limit # ops) s =
     run_audit decode ops (snd (Audit_List decode actor action limit s))"
| "run_audit decode (Op_wait d # ops) s = run_audit decode ops (tick (int d) s)"

definition op_entry :: "audit_op \<Rightarrow> (string \<times> string \<times> string) option" where
  "op_entry op = (case op of Op_record actor action target _ _ \<Rightarrow> Some (actor, action, target) | _ \<Rightarrow> None)"

lemma op_entry_simps [simp]:
  "op_entry (Op_record actor action target details ip) = Some (actor, action, target)"
  "op_entry (Op_list actor action limit) = None"
  "op_entry (Op_wait d) = None"
  by (simp_all add: op_entry_def)

definition entry_facts :: "audit_row \<Rightarrow> string \<times> string \<times> string" where
  "entry_facts r = (aud_actor r, aud_action r, aud_target r)"

lemma Audit_Record_effect:
  assumes "Audit_Record actor action target details ip s = (r, t)"
  shows "\<exists>new. t_audit t = t_audit s @ new \<and> clock t = clock s \<and> (r = Inr () \<longleftrightarrow> new \<noteq> [])
    \<and> (new = [] \<or> (\<exists>e. new = [e] \<and> entry_facts e = (actor, action, target) \<and> aud_time e = clock s))"
  using assms unfolding Audit_Record_def Let_def
  by (auto elim!: on_resultE pool_resultE simp: stmt_insert_audit_def and_then_apply next_id_def
      entry_facts_def)

lemma Audit_List_state: "t_audit (snd (Audit_List decode actor action limit s)) = t_audit s
    \<and> clock (snd (Audit_List decode actor action limit s)) = clock s"
proof -
  obtain r t where run: "Audit_List decode actor action limit s = (r, t)" by (rule prod.exhaust)
  then have "t_audit t = t_audit s \<and> clock t = clock s"
    unfolding Audit_List_def Let_def
    by (auto elim!: on_resultE pool_resultE simp: stmt_list_audit_def split: sum.splits)
  then show ?thesis using run by simp
qed

text \<open>
  C23: The audit trail is append-only. Through any sequence of operations of the store, with any
  of them failing, no entry is ever changed, removed or reordered; each new entry is one that
  was recorded, in the order of the calls, at a time not before the entries that precede it.
\<close>

theorem audit_append_only:
  "\<exists>new. t_audit (run_audit decode ops s) = t_audit s @ new
     \<and> subseq (map entry_facts new) (List.map_filter op_entry ops)
     \<and> sorted (map aud_time new) \<and> (\<forall>e\<in>set new. clock s \<le> aud_time e)"
proof (induction decode ops s rule: run_audit.induct)
  case (1 decode s)
  then show ?case by auto
next
  case (2 decode actor action target details ip ops s)
  obtain r t where run: "Audit_Record actor action target details ip s = (r, t)" by (rule prod.exhaust)
  obtain new1 where n1: "t_audit t = t_audit s @ new1" "clock t = clock s"
    "new1 = [] \<or> (\<exists>e. new1 = [e] \<and> entry_facts e = (actor, action, target) \<and> aud_time e = clock s)"
    using Audit_Record_effect [OF run] by blast
  from 2 run obtain new where n: "t_audit (run_audit decode ops t) = t_audit t @ new"
    "subseq (map entry_facts new) (List.map_filter op_entry ops)" "sorted (map aud_time new)"
    "\<forall>e\<in>set new. clock t \<le> aud_time e" by auto
  have "subseq (map entry_facts (new1 @ new)) ((actor, action, target) # List.map_filter op_entry ops)"
    using n1(3) n(2) by auto
  then show ?case
    using run n n1 by (intro exI [of _ "new1 @ new"])
      (auto simp: sorted_append)
next
  case (3 decode actor action limit ops s)
  then show ?case
    using Audit_List_state [of decode actor action limit s]
    by auto
next
  case (4 decode d ops s)
  have "t_audit (tick (int d) s) = t_audit s" "clock (tick (int d) s) = clock s + int d"
    by (simp_all add: tick_def)
  with 4 obtain new where "t_audit (run_audit decode ops (tick (int d) s)) = t_audit s @ new"
    "subseq (map entry_facts new) (List.map_filter op_entry ops)" "sorted (map aud_time new)"
    "\<forall>e\<in>set new. clock s + int d \<le> aud_time e" by metis
  then show ?case
    by (intro exI [of _ new]) force
qed

theorem audit_append_only_witness:
  "\<exists>new. t_audit (run_audit (\<lambda>_. Inr JNull)
       [Op_record ''ann'' EventLogin ''ann'' None ''::1'', Op_wait 5,
        Op_record ''bob'' EventLogout ''bob'' None ''::1''] (empty_db\<lparr>faults := [Some ''down'']\<rparr>)) = new
     \<and> length new = 1 \<and> sorted (map aud_time new)"
proof -
  let ?ops = "[Op_record ''ann'' EventLogin ''ann'' None ''::1'', Op_wait 5,
        Op_record ''bob'' EventLogout ''bob'' None ''::1'']"
  let ?s = "empty_db\<lparr>faults := [Some ''down'']\<rparr>"
  have "length (t_audit (run_audit (\<lambda>_. Inr JNull) ?ops ?s)) = 1"
    by (simp add: Audit_Record_def on_result_apply pool_def empty_db_def stmt_insert_audit_def
        and_then_apply next_id_def tick_def Let_def)
  moreover have "t_audit ?s = []" by (simp add: empty_db_def)
  ultimately show ?thesis
    using audit_append_only [of "\<lambda>_. Inr JNull" ?ops ?s] by auto
qed

section \<open>Listings\<close>

lemma scan_entries_map:
  assumes "\<forall>raw. \<exists>d. decode raw = Inr d"
  shows "\<exists>es. scan_entries decode rows = Inr es \<and> map ent_id es = map aud_id rows
    \<and> map ent_time es = map aud_time rows"
proof (induction rows)
  case (Cons r rows)
  then obtain es where es: "scan_entries decode rows = Inr es" "map ent_id es = map aud_id rows"
    "map ent_time es = map aud_time rows" by blast
  obtain d where "(case aud_details r of
      Some raw \<Rightarrow> if raw = [] then Inr None
        else (case decode raw of
                Inl err \<Rightarrow> Inl (wrap_err ''decode audit details'' err)
              | Inr d \<Rightarrow> Inr (Some d))
    | None \<Rightarrow> Inr None) = Inr d"
  proof (cases "aud_details r")
    case (Some raw)
    obtain d where "decode raw = Inr d" using assms by blast
    then show thesis using that [of "if raw = [] then None else Some d"] Some by simp
  qed (use that in simp)
  with es show ?case by (simp add: entry_of_def)
qed simp

text \<open>
  What a listing shows. When no call fails and the stored details decode, \<open>List\<close> returns
  entries that match the given actor and action, newest first, as many as the effective limit
  allows (the requested one between 1 and 500, 100 otherwise); whatever it leaves out is no
  newer than anything it shows.
\<close>

theorem audit_listing:
  fixes actor action :: string and limit :: int
  assumes "calm s" and "\<forall>raw. \<exists>d. decode raw = Inr d"
  defines "hits \<equiv> filter (audit_match actor action) (t_audit s)"
    and "lim \<equiv> if limit \<le> 0 \<or> limit > 500 then 100 else limit"
  shows "\<exists>es shown left_out. fst (Audit_List decode actor action limit s) = Inr es
    \<and> map ent_id es = map aud_id shown \<and> map ent_time es = map aud_time shown
    \<and> mset (shown @ left_out) = mset hits
    \<and> length shown = min (nat lim) (length hits)
    \<and> sorted_wrt (\<lambda>x y. aud_time x \<ge> aud_time y) shown
    \<and> (\<forall>x\<in>set shown. \<forall>y\<in>set left_out. aud_time y \<le> aud_time x)"
proof -
  let ?all = "sort_key (\<lambda>e. - aud_time e) hits"
  obtain es where es: "scan_entries decode (take (nat lim) ?all) = Inr es"
    "map ent_id es = map aud_id (take (nat lim) ?all)"
    "map ent_time es = map aud_time (take (nat lim) ?all)"
    using scan_entries_map [OF assms(2)] by blast
  have run: "fst (Audit_List decode actor action limit s) = Inr es"
    using assms(1) es(1)
    by (simp add: Audit_List_def on_result_apply stmt_list_audit_def hits_def [symmetric]
        lim_def [symmetric] Let_def)
  have sorted: "sorted_wrt (\<lambda>x y. aud_time x \<ge> aud_time y) ?all"
    using sorted_sort_key [of "\<lambda>e. - aud_time e" hits] by (simp add: sorted_map)
  then have "sorted_wrt (\<lambda>x y. aud_time x \<ge> aud_time y) (take (nat lim) ?all @ drop (nat lim) ?all)"
    by simp
  then have "sorted_wrt (\<lambda>x y. aud_time x \<ge> aud_time y) (take (nat lim) ?all)"
    "\<forall>x\<in>set (take (nat lim) ?all). \<forall>y\<in>set (drop (nat lim) ?all). aud_time y \<le> aud_time x"
    by (auto simp only: sorted_wrt_append)
  moreover have "mset (take (nat lim) ?all @ drop (nat lim) ?all) = mset hits"
    by (simp only: append_take_drop_id mset_sort)
  ultimately show ?thesis
    using run es by (intro exI [of _ es] exI [of _ "take (nat lim) ?all"] exI [of _ "drop (nat lim) ?all"])
      (simp add: min.commute)
qed

theorem audit_listing_witness:
  "\<exists>es shown left_out. fst (Audit_List (\<lambda>_. Inr JNull) ''bob'' [] 0
      (snd (Audit_Record ''bob'' EventLogin ''bob'' None ''::1'' empty_db))) = Inr es
    \<and> map ent_id es = map aud_id shown \<and> map ent_time es = map aud_time shown
    \<and> mset (shown @ left_out) = mset (filter (audit_match ''bob'' [])
        (t_audit (snd (Audit_Record ''bob'' EventLogin ''bob'' None ''::1'' empty_db))))
    \<and> length shown = 1"
proof -
  let ?s = "snd (Audit_Record ''bob'' EventLogin ''bob'' None ''::1'' empty_db)"
  have s: "calm ?s" "length (filter (audit_match ''bob'' []) (t_audit ?s)) = 1"
    by (simp_all add: Audit_Record_def on_result_apply pool_def empty_db_def stmt_insert_audit_def
        and_then_apply next_id_def calm_def audit_match_def)
  have dec: "\<forall>raw. \<exists>d. (\<lambda>_ :: string. Inr JNull :: goerr + json) raw = Inr d" by simp
  have one: "min (nat (if (0 :: int) \<le> 0 \<or> (0 :: int) > 500 then 100 else 0))
      (length (filter (audit_match ''bob'' []) (t_audit ?s))) = 1"
    unfolding s(2) by simp
  show ?thesis
    using audit_listing [OF s(1) dec, of "''bob''" "[]" 0] unfolding one by blast
qed

end
