(* ===== verification/Secrets.thy ===== *)
theory Secrets
  imports Schema Keyed_Store
begin

text \<open>
  Package \<open>internal/secrets\<close>: deployment secrets, encrypted with AES-256-GCM under the server's
  key. The cipher is the parameter \<open>aead\<close> and the random source the parameter \<open>rand\<close>. Shown:
  the store refines a finite map under one key, and only sealed values reach the table.
\<close>

text \<open>
  crypto/cipher: \<open>aead_new key\<close> is the error of \<open>aes.NewCipher\<close> or \<open>cipher.NewGCM\<close> if any,
  \<open>aead_seal\<close> and \<open>aead_open\<close> the two directions.
\<close>

record aead =
  aead_new :: "string \<Rightarrow> goerr option"
  aead_seal :: "string \<Rightarrow> string \<Rightarrow> string \<Rightarrow> string"
  aead_open :: "string \<Rightarrow> string \<Rightarrow> string \<Rightarrow> goerr + string"

record secret_info =
  si_name :: string
  si_created :: time

definition NewStore :: "string \<Rightarrow> goerr + string" where
  "NewStore key =
     (if length key \<noteq> 32
      then Inl (ErrText (''encryption key must be 32 bytes, got '' @ nat_str (length key)))
      else Inr key)"

text \<open>\<open>rand\<close> is what \<open>io.ReadFull(rand.Reader, nonce)\<close> yields.\<close>

definition encrypt :: "aead \<Rightarrow> string \<Rightarrow> goerr + string \<Rightarrow> string \<Rightarrow> goerr + (string \<times> string)" where
  "encrypt a key rand plaintext =
     (case aead_new a key of
        Some err \<Rightarrow> Inl err
      | None \<Rightarrow>
          (case rand of
             Inl err \<Rightarrow> Inl (wrap_err ''generate nonce'' err)
           | Inr nonce \<Rightarrow> Inr (aead_seal a key nonce plaintext, nonce)))"

definition decrypt :: "aead \<Rightarrow> string \<Rightarrow> string \<Rightarrow> string \<Rightarrow> goerr + string" where
  "decrypt a key ciphertext nonce =
     (case aead_new a key of
        Some err \<Rightarrow> Inl err
      | None \<Rightarrow>
          (case aead_open a key nonce ciphertext of
             Inl err \<Rightarrow> Inl (wrap_err ''decrypt secret (wrong key?)'' err)
           | Inr plaintext \<Rightarrow> Inr plaintext))"

definition secret_key :: "int \<Rightarrow> string \<Rightarrow> secret_row \<Rightarrow> bool" where
  "secret_key rid name r \<longleftrightarrow> sec_repo r = rid \<and> sec_name r = name"

definition stmt_upsert_secret ::
  "int \<Rightarrow> string \<Rightarrow> string \<Rightarrow> string \<Rightarrow> ('z db_scheme, goerr + unit) st" where
  "stmt_upsert_secret rid name ciphertext nonce =
     and_then (next_id T_secrets) (\<lambda>_ s.
       if \<not> repo_exists s rid then (Inl fk_violation, s)
       else (Inr (), s\<lparr>t_secrets := upsert_row (secret_key rid name)
               (\<lambda>r. r\<lparr>sec_ciphertext := ciphertext, sec_nonce := nonce\<rparr>)
               \<lparr>sec_repo = rid, sec_name = name, sec_ciphertext = ciphertext, sec_nonce = nonce,
                sec_created = clock s\<rparr> (t_secrets s)\<rparr>))"

definition Secrets_Set ::
  "aead \<Rightarrow> string \<Rightarrow> ('z db_scheme \<Rightarrow> goerr + string) \<Rightarrow> int \<Rightarrow> string \<Rightarrow> string
    \<Rightarrow> ('z db_scheme, goerr + unit) st" where
  "Secrets_Set a key rand repositoryID name value =
     and_then (read_state rand) (\<lambda>r.
       case encrypt a key r value of
         Inl err \<Rightarrow> fail err
       | Inr (ciphertext, nonce) \<Rightarrow>
           on_result (pool (stmt_upsert_secret repositoryID name ciphertext nonce))
             (\<lambda>err. fail (wrap_err ''store secret'' err))
             (\<lambda>_. ok ()))"

definition stmt_select_secret :: "int \<Rightarrow> string \<Rightarrow> ('z db_scheme, goerr + string \<times> string) st" where
  "stmt_select_secret rid name s =
     (case List.find (secret_key rid name) (t_secrets s) of
        None \<Rightarrow> Inl NoRows | Some r \<Rightarrow> Inr (sec_ciphertext r, sec_nonce r), s)"

definition Secrets_Get ::
  "aead \<Rightarrow> string \<Rightarrow> int \<Rightarrow> string \<Rightarrow> ('z db_scheme, goerr + string) st" where
  "Secrets_Get a key repositoryID name =
     on_result (pool (stmt_select_secret repositoryID name))
       (\<lambda>err. fail (wrap_err ''load secret'' err))
       (\<lambda>(ciphertext, nonce). case decrypt a key ciphertext nonce of
          Inl err \<Rightarrow> fail err | Inr plaintext \<Rightarrow> ok plaintext)"

definition stmt_list_secrets :: "int \<Rightarrow> ('z db_scheme, goerr + secret_info list) st" where
  "stmt_list_secrets rid s =
     (Inr (sort_key si_name (map (\<lambda>r. \<lparr>si_name = sec_name r, si_created = sec_created r\<rparr>)
        (filter (\<lambda>r. sec_repo r = rid) (t_secrets s)))), s)"

definition Secrets_List :: "int \<Rightarrow> ('z db_scheme, goerr + secret_info list) st" where
  "Secrets_List repositoryID =
     on_result (pool (stmt_list_secrets repositoryID))
       (\<lambda>err. fail (wrap_err ''list secrets'' err))
       (\<lambda>secrets. ok secrets)"

definition stmt_delete_secret :: "int \<Rightarrow> string \<Rightarrow> ('z db_scheme, goerr + nat) st" where
  "stmt_delete_secret rid name s =
     (Inr (length (filter (secret_key rid name) (t_secrets s))),
      s\<lparr>t_secrets := delete_rows (secret_key rid name) (t_secrets s)\<rparr>)"

definition Secrets_Delete :: "int \<Rightarrow> string \<Rightarrow> ('z db_scheme, goerr + unit) st" where
  "Secrets_Delete repositoryID name =
     on_result (pool (stmt_delete_secret repositoryID name))
       (\<lambda>err. fail (wrap_err ''delete secret'' err))
       (\<lambda>affected. if affected = 0 then fail (ErrText ''secret not found'') else ok ())"

section \<open>The store is a finite map\<close>

definition secret_put ::
  "aead \<Rightarrow> string \<Rightarrow> ('z db_scheme \<Rightarrow> goerr + string) \<Rightarrow> int \<times> string \<Rightarrow> string
    \<Rightarrow> 'z db_scheme \<Rightarrow> 'z db_scheme" where
  "secret_put a key rand k v s = snd (Secrets_Set a key rand (fst k) (snd k) v s)"

definition secret_del :: "int \<times> string \<Rightarrow> 'z db_scheme \<Rightarrow> 'z db_scheme" where
  "secret_del k s = snd (Secrets_Delete (fst k) (snd k) s)"

definition secret_get :: "aead \<Rightarrow> string \<Rightarrow> int \<times> string \<Rightarrow> 'z db_scheme \<Rightarrow> string option" where
  "secret_get a key k s =
     (case fst (Secrets_Get a key (fst k) (snd k) s) of Inl _ \<Rightarrow> None | Inr v \<Rightarrow> Some v)"

definition secret_key_ok :: "'z db_scheme \<Rightarrow> int \<times> string \<Rightarrow> bool" where
  "secret_key_ok s k \<longleftrightarrow> repo_exists s (fst k)"

text \<open>
  What the cipher and the random source are relied on for: the key is accepted, a nonce can be
  drawn, and opening undoes sealing under the same nonce.
\<close>

definition cipher_works :: "aead \<Rightarrow> string \<Rightarrow> ('z db_scheme \<Rightarrow> goerr + string) \<Rightarrow> bool" where
  "cipher_works a key rand \<longleftrightarrow> aead_new a key = None \<and> (\<forall>s. \<exists>n. rand s = Inr n)
     \<and> (\<forall>n p. aead_open a key n (aead_seal a key n p) = Inr p)"

lemma Secrets_Set_calm:
  assumes "calm s" and "repo_exists s rid" and "aead_new a key = None" and "rand s = Inr n"
  shows "Secrets_Set a key rand rid name v s =
    (Inr (), s\<lparr>next_ids := (next_ids s)(T_secrets := next_ids s T_secrets + 1),
       t_secrets := upsert_row (secret_key rid name)
         (\<lambda>r. r\<lparr>sec_ciphertext := aead_seal a key n v, sec_nonce := n\<rparr>)
         \<lparr>sec_repo = rid, sec_name = name, sec_ciphertext = aead_seal a key n v, sec_nonce = n,
          sec_created = clock s\<rparr> (t_secrets s)\<rparr>)"
  using assms
  by (simp add: Secrets_Set_def run_simps encrypt_def stmt_upsert_secret_def next_id_def
      repo_exists_def)

lemma Secrets_Get_calm:
  "calm s \<Longrightarrow> fst (Secrets_Get a key rid name s) =
    (case List.find (secret_key rid name) (t_secrets s) of
       None \<Rightarrow> Inl (wrap_err ''load secret'' NoRows)
     | Some r \<Rightarrow> decrypt a key (sec_ciphertext r) (sec_nonce r))"
  by (auto simp: Secrets_Get_def on_result_apply stmt_select_secret_def split: option.split sum.split)

lemma Secrets_Delete_calm:
  "calm s \<Longrightarrow> snd (Secrets_Delete rid name s) =
    s\<lparr>t_secrets := delete_rows (secret_key rid name) (t_secrets s)\<rparr>"
  by (simp add: Secrets_Delete_def on_result_apply stmt_delete_secret_def)

lemma secret_find_upsert:
  "List.find (secret_key rid name) (upsert_row (secret_key rid name)
     (\<lambda>r. r\<lparr>sec_ciphertext := c, sec_nonce := n\<rparr>)
     \<lparr>sec_repo = rid, sec_name = name, sec_ciphertext = c, sec_nonce = n, sec_created = t\<rparr> rs) =
   Some (case List.find (secret_key rid name) rs of
       None \<Rightarrow> \<lparr>sec_repo = rid, sec_name = name, sec_ciphertext = c, sec_nonce = n, sec_created = t\<rparr>
     | Some r \<Rightarrow> r\<lparr>sec_ciphertext := c, sec_nonce := n\<rparr>)"
  by (rule find_upsert_row_same) (simp_all add: secret_key_def)

lemma secret_find_upsert_other:
  "(rid', name') \<noteq> (rid, name) \<Longrightarrow>
   List.find (secret_key rid' name') (upsert_row (secret_key rid name)
     (\<lambda>r. r\<lparr>sec_ciphertext := c, sec_nonce := n\<rparr>)
     \<lparr>sec_repo = rid, sec_name = name, sec_ciphertext = c, sec_nonce = n, sec_created = t\<rparr> rs) =
   List.find (secret_key rid' name') rs"
  by (rule find_upsert_row_other) (auto simp: secret_key_def)

lemma secret_find_delete_other:
  "(rid', name') \<noteq> (rid, name) \<Longrightarrow>
   List.find (secret_key rid' name') (delete_rows (secret_key rid name) rs) =
   List.find (secret_key rid' name') rs"
  by (rule find_delete_rows_other) (auto simp: secret_key_def)

lemma decrypt_seal:
  "cipher_works a key rand \<Longrightarrow> decrypt a key (aead_seal a key n v) n = Inr v"
  by (simp add: cipher_works_def decrypt_def)

lemma secrets_keyed_store:
  fixes rand :: "'z db_scheme \<Rightarrow> goerr + string"
  assumes w: "cipher_works a key rand"
  shows "keyed_store (secret_put a key rand) secret_del (secret_get a key) calm secret_key_ok
    (\<lambda>_. True)"
proof unfold_locales
  fix s :: "'z db_scheme" and k l :: "int \<times> string" and v
  assume c: "calm s"
  obtain n where n: "rand s = Inr n" and new: "aead_new a key = None"
    using w unfolding cipher_works_def by blast
  show "secret_key_ok (secret_del k s) = secret_key_ok s"
    using c by (simp add: fun_eq_iff secret_key_ok_def secret_del_def Secrets_Delete_calm
        repo_exists_def)
  show "secret_key_ok (secret_put a key rand k v s) = secret_key_ok s"
    using c n new by (simp add: fun_eq_iff secret_key_ok_def secret_put_def Secrets_Set_def
        run_simps encrypt_def stmt_upsert_secret_def next_id_def repo_exists_def)
  assume "secret_key_ok s k"
  then have r: "repo_exists s (fst k)" by (simp add: secret_key_ok_def)
  note set = Secrets_Set_calm [where rand = rand, OF c r new n]
  show "calm (secret_del k s)" using c by (simp add: secret_del_def Secrets_Delete_calm calm_def)
  show put_calm: "calm (secret_put a key rand k v s)"
    using c by (simp add: secret_put_def set calm_def)
  show "secret_get a key k (secret_del k s) = None"
    using c by (simp add: secret_get_def secret_del_def Secrets_Delete_calm Secrets_Get_calm calm_def
        find_delete_rows_same)
  show "secret_get a key k (secret_put a key rand k v s) = Some v"
    using decrypt_seal [OF w] unfolding secret_get_def Secrets_Get_calm [OF put_calm]
    by (simp add: secret_put_def set secret_find_upsert split: option.split)
  assume ne: "l \<noteq> k"
  then have ne': "(fst l, snd l) \<noteq> (fst k, snd k)" by simp
  show "secret_get a key l (secret_put a key rand k v s) = secret_get a key l s"
    unfolding secret_get_def Secrets_Get_calm [OF put_calm] Secrets_Get_calm [OF c]
    using secret_find_upsert_other [OF ne'] by (simp add: secret_put_def set)
  show "secret_get a key l (secret_del k s) = secret_get a key l s"
    using c secret_find_delete_other [OF ne']
    by (simp add: secret_get_def secret_del_def Secrets_Delete_calm Secrets_Get_calm calm_def)
qed

text \<open>
  C24: Secrets are a key-value store. Under one working key, after any sequence of \<open>Set\<close> and
  \<open>Delete\<close> calls on existing repositories \<open>Get\<close> returns the plaintext the last \<open>Set\<close> of that
  repository and name stored, an error if the last operation on it was \<open>Delete\<close>, and what it
  returned before when no operation concerned it, whatever nonces were drawn.
\<close>

theorem secrets_last_write_wins:
  fixes s :: "'z db_scheme" and rand :: "'z db_scheme \<Rightarrow> goerr + string"
  assumes "cipher_works a key rand" and "calm s"
    and "ops_ok (secret_key_ok s) (\<lambda>_. True) ops" and "repo_exists s rid"
  shows "secret_get a key (rid, name) (run_ops (secret_put a key rand) secret_del ops s) =
    (case last_write (rid, name) ops of
       None \<Rightarrow> secret_get a key (rid, name) s | Some r \<Rightarrow> r)"
  using assms keyed_store.run_ops_last_write [OF secrets_keyed_store [OF assms(1)]]
  by (simp add: secret_key_ok_def)

text \<open>A cipher that only tags the text with its nonce, to run the store on.\<close>

definition demo_aead :: aead where
  "demo_aead = \<lparr>aead_new = (\<lambda>key. if length key = 32 then None else Some (ErrText ''key size'')),
     aead_seal = (\<lambda>key nonce p. nonce @ p),
     aead_open = (\<lambda>key nonce c. if take (length nonce) c = nonce then Inr (drop (length nonce) c)
        else Inl (ErrText ''cipher: message authentication failed''))\<rparr>"

definition demo_secret_db :: db where
  "demo_secret_db = empty_db\<lparr>t_repositories := [\<lparr>repo_id = 7, repo_owner = ''ann'', repo_name = ''app'',
     repo_path = ''/r/ann/app.git'', repo_created = 0\<rparr>]\<rparr>"

theorem secrets_last_write_wins_witness:
  "secret_get demo_aead (replicate 32 CHR ''k'') (7, ''TOKEN'')
     (run_ops (secret_put demo_aead (replicate 32 CHR ''k'') (\<lambda>_. Inr ''n'')) secret_del
        [Put_op (7, ''TOKEN'') ''old'', Put_op (7, ''OTHER'') ''x'', Put_op (7, ''TOKEN'') ''new''] demo_secret_db)
   = Some ''new''"
proof -
  have "cipher_works demo_aead (replicate 32 CHR ''k'') (\<lambda>_ :: db. Inr ''n'')"
    by (simp add: cipher_works_def demo_aead_def)
  moreover have "calm demo_secret_db" "repo_exists demo_secret_db 7"
    by (simp_all add: demo_secret_db_def empty_db_def calm_def repo_exists_def)
  ultimately show ?thesis
    using secrets_last_write_wins [where s = demo_secret_db and rid = 7 and name = "''TOKEN''"
        and ops = "[Put_op (7, ''TOKEN'') ''old'', Put_op (7, ''OTHER'') ''x'', Put_op (7, ''TOKEN'') ''new'']"]
    by (simp add: secret_key_ok_def)
qed

section \<open>Only sealed values are stored\<close>

definition sealed_by :: "aead \<Rightarrow> string \<Rightarrow> secret_row \<Rightarrow> bool" where
  "sealed_by a key r \<longleftrightarrow> (\<exists>v. sec_ciphertext r = aead_seal a key (sec_nonce r) v)"

text \<open>
  No plaintext at rest. Whatever fails (the cipher, the random source, the connection, the
  repository's existence), \<open>Set\<close> leaves in the table only rows that were there and rows whose
  value is the cipher's output under the nonce stored beside it; when it returns an error the
  table is unchanged.
\<close>

theorem only_sealed_values_stored:
  "(\<forall>r \<in> set (t_secrets (snd (Secrets_Set a key rand rid name v s))).
      r \<in> set (t_secrets s) \<or> sealed_by a key r)
   \<and> (case fst (Secrets_Set a key rand rid name v s) of
        Inl _ \<Rightarrow> t_secrets (snd (Secrets_Set a key rand rid name v s)) = t_secrets s
      | Inr _ \<Rightarrow> True)"
proof -
  have stmt: "(\<forall>r \<in> set (t_secrets (snd (stmt_upsert_secret rid name (aead_seal a key n v) n u))).
      r \<in> set (t_secrets u) \<or> sealed_by a key r)
    \<and> (case fst (stmt_upsert_secret rid name (aead_seal a key n v) n u) of
        Inl _ \<Rightarrow> t_secrets (snd (stmt_upsert_secret rid name (aead_seal a key n v) n u)) = t_secrets u
      | Inr _ \<Rightarrow> True)" for n and u :: "'a db_scheme"
    by (auto simp: stmt_upsert_secret_def run_simps next_id_def upsert_row_def set_update_rows
        sealed_by_def)
  show ?thesis
  proof (cases "encrypt a key (rand s) v")
    case (Inl e)
    then show ?thesis by (simp add: Secrets_Set_def run_simps)
  next
    case (Inr cn)
    then obtain n where e: "encrypt a key (rand s) v = Inr (aead_seal a key n v, n)"
      by (auto simp: encrypt_def split: option.splits sum.splits)
    obtain res t where p: "pool (stmt_upsert_secret rid name (aead_seal a key n v) n) s = (res, t)"
      by (cases "pool (stmt_upsert_secret rid name (aead_seal a key n v) n) s")
    have "(\<forall>r \<in> set (t_secrets t). r \<in> set (t_secrets s) \<or> sealed_by a key r)
      \<and> (case res of Inl _ \<Rightarrow> t_secrets t = t_secrets s | Inr _ \<Rightarrow> True)"
      using p
    proof (cases rule: pool_resultE)
      case (run fs)
      then show ?thesis using stmt [of n "s\<lparr>faults := fs\<rparr>"] by (cases res) simp_all
    qed simp
    then show ?thesis using e p by (cases res) (auto simp: Secrets_Set_def run_simps)
  qed
qed

theorem only_sealed_values_stored_witness:
  "list_all (sealed_by demo_aead (replicate 32 CHR ''k''))
     (t_secrets (snd (Secrets_Set demo_aead (replicate 32 CHR ''k'') (\<lambda>_. Inr ''n'') 7 ''T'' ''v''
        demo_secret_db)))"
proof -
  have "t_secrets demo_secret_db = []" by (simp add: demo_secret_db_def empty_db_def)
  then show ?thesis
    using only_sealed_values_stored [of demo_aead "replicate 32 CHR ''k''" "\<lambda>_. Inr ''n''" 7 "''T''" "''v''"
        demo_secret_db] by (simp add: list_all_iff)
qed

end
