(* ===== verification/Calendar.thy ===== *)
theory Calendar
  imports Go_Strings
begin

text \<open>
  The calendar behind \<open>time.Time.Format\<close> for the layout \<open>20060102-150405\<close>: the proleptic
  Gregorian date and the time of day of an instant, as digits. Instants are microseconds since
  1970 and are not before it. Shown: two instants print alike exactly when they lie in the same
  second, up to the year 9999, where the layout outgrows its fixed width.
\<close>

definition leap_year :: "nat \<Rightarrow> bool" where
  "leap_year y \<longleftrightarrow> 4 dvd y \<and> (100 dvd y \<longrightarrow> 400 dvd y)"

definition year_days :: "nat \<Rightarrow> nat" where
  "year_days y = (if leap_year y then 366 else 365)"

definition month_days :: "nat \<Rightarrow> nat list" where
  "month_days y = [31, if leap_year y then 29 else 28, 31, 30, 31, 30, 31, 31, 30, 31, 30, 31]"

text \<open>The year that holds day \<open>n\<close> counted from the first day of year \<open>y\<close>, and the day in it.\<close>

function year_of :: "nat \<Rightarrow> nat \<Rightarrow> nat \<times> nat" where
  "year_of y n = (if n < year_days y then (y, n) else year_of (Suc y) (n - year_days y))"
  by pat_completeness auto
termination
  by (relation "measure snd") (auto simp: year_days_def)

declare year_of.simps [simp del]

fun month_of :: "nat list \<Rightarrow> nat \<Rightarrow> nat \<times> nat" where
  "month_of [] n = (0, n)"
| "month_of (m # ms) n =
     (if n < m then (0, n) else case month_of ms (n - m) of (k, r) \<Rightarrow> (Suc k, r))"

text \<open>\<open>%0kd\<close>.\<close>

definition pad :: "nat \<Rightarrow> nat \<Rightarrow> string" where
  "pad k n = replicate (k - length (nat_str n)) (CHR ''0'') @ nat_str n"

definition stamp_fields :: "int \<Rightarrow> nat \<times> nat \<times> nat \<times> nat \<times> nat \<times> nat" where
  "stamp_fields t =
     (let secs = nat (t div 1000000); rest = secs mod 86400;
          (y, d) = year_of 1970 (secs div 86400);
          (m, dd) = month_of (month_days y) d in
      (y, Suc m, Suc dd, rest div 3600, rest div 60 mod 60, rest mod 60))"

definition format_stamp :: "int \<Rightarrow> string" where
  "format_stamp t =
     (case stamp_fields t of (y, mo, d, h, mi, sec) \<Rightarrow>
        pad 4 y @ pad 2 mo @ pad 2 d @ ''-'' @ pad 2 h @ pad 2 mi @ pad 2 sec)"

section \<open>Fields determine the second\<close>

lemma year_of_bounds: "year_of y n = (z, r) \<Longrightarrow> y \<le> z \<and> r < year_days z
    \<and> n = sum_list (map year_days [y..<z]) + r"
proof (induction y n arbitrary: z r rule: year_of.induct)
  case (1 y n)
  show ?case
  proof (cases "n < year_days y")
    case True
    then show ?thesis using 1(2) by (simp add: year_of.simps [of y n])
  next
    case False
    then have rec: "year_of (Suc y) (n - year_days y) = (z, r)"
      using 1(2) by (simp add: year_of.simps [of y n])
    from 1(1) [OF False rec] False show ?thesis by (simp add: upt_conv_Cons) linarith
  qed
qed

lemma month_of_bounds:
  "n < sum_list ms \<Longrightarrow> month_of ms n = (k, r) \<Longrightarrow>
     k < length ms \<and> r < ms ! k \<and> n = sum_list (take k ms) + r"
proof (induction ms n arbitrary: k r rule: month_of.induct)
  case (2 m ms n)
  show ?case
  proof (cases "n < m")
    case False
    obtain k' where k': "month_of ms (n - m) = (k', r)" "k = Suc k'"
      using 2(3) False by (auto split: prod.splits)
    have "n - m < sum_list ms" using 2(2) False by simp
    from 2(1) [OF False this k'(1)] False show ?thesis by (simp add: k'(2)) linarith
  qed (use 2 in auto)
qed simp

lemma sum_month_days: "sum_list (month_days y) = year_days y"
  by (simp add: month_days_def year_days_def)

lemma month_days_le: "k < 12 \<Longrightarrow> month_days y ! k \<le> 31"
  by (auto simp: month_days_def less_Suc_eq numeral_eq_Suc)

lemma length_month_days [simp]: "length (month_days y) = 12"
  by (simp add: month_days_def)

lemma stamp_fields_bounds:
  assumes "stamp_fields t = (y, mo, d, h, mi, sec)"
  shows "1970 \<le> y \<and> 1 \<le> mo \<and> mo \<le> 12 \<and> 1 \<le> d \<and> d \<le> 31 \<and> h < 24 \<and> mi < 60 \<and> sec < 60"
    and "nat (t div 1000000) =
      86400 * (sum_list (map year_days [1970..<y]) + (sum_list (take (mo - 1) (month_days y)) + (d - 1)))
      + (3600 * h + 60 * mi + sec)"
proof -
  define secs where "secs = nat (t div 1000000)"
  obtain z r where z: "year_of 1970 (secs div 86400) = (z, r)" by fastforce
  obtain k q where k: "month_of (month_days z) r = (k, q)" by fastforce
  note yb = year_of_bounds [OF z]
  then have "r < sum_list (month_days z)" by (simp add: sum_month_days)
  note mb = month_of_bounds [OF this k]
  have f: "y = z" "mo = Suc k" "d = Suc q" "h = secs mod 86400 div 3600"
    "mi = secs mod 86400 div 60 mod 60" "sec = secs mod 86400 mod 60"
    using assms z k by (simp_all add: stamp_fields_def Let_def secs_def [symmetric])
  have "q < 31" using mb month_days_le [of k z] by simp
  then show "1970 \<le> y \<and> 1 \<le> mo \<and> mo \<le> 12 \<and> 1 \<le> d \<and> d \<le> 31 \<and> h < 24 \<and> mi < 60 \<and> sec < 60"
    using yb mb by (auto simp: f div_less_iff_less_mult)
  have day: "3600 * (x div 3600) + 60 * (x div 60 mod 60) + x mod 60 = x" for x :: nat
  proof -
    have a: "60 * (x div 60) + x mod 60 = x" by simp
    have b: "60 * (x div 60 div 60) + x div 60 mod 60 = x div 60" by simp
    have c: "x div 60 div 60 = x div 3600" by (simp add: div_mult2_eq [symmetric])
    have "60 * (60 * (x div 3600) + x div 60 mod 60) + x mod 60 = x" using a b c by simp
    then show ?thesis by simp
  qed
  have "secs = 86400 * (secs div 86400) + secs mod 86400" by simp
  also have "secs mod 86400 = 3600 * h + 60 * mi + sec" using day [of "secs mod 86400"] by (simp add: f)
  finally show "nat (t div 1000000) =
      86400 * (sum_list (map year_days [1970..<y]) + (sum_list (take (mo - 1) (month_days y)) + (d - 1)))
      + (3600 * h + 60 * mi + sec)"
    using yb mb by (simp add: f secs_def [symmetric])
qed

lemma stamp_fields_inject:
  assumes "0 \<le> t" and "0 \<le> u"
  shows "stamp_fields t = stamp_fields u \<longleftrightarrow> t div 1000000 = u div 1000000"
proof
  assume e: "stamp_fields t = stamp_fields u"
  obtain y mo d h mi sec where f: "stamp_fields t = (y, mo, d, h, mi, sec)"
    by (cases "stamp_fields t")
  from stamp_fields_bounds(2) [OF f] stamp_fields_bounds(2) [OF f [unfolded e]]
  have "nat (t div 1000000) = nat (u div 1000000)" by simp
  then show "t div 1000000 = u div 1000000" using assms by (simp add: pos_imp_zdiv_nonneg_iff)
qed (simp add: stamp_fields_def)

section \<open>Digits determine the fields\<close>

lemma length_nat_str_le: "n < 10 ^ k \<Longrightarrow> 0 < k \<Longrightarrow> length (nat_str n) \<le> k"
proof (induction k arbitrary: n)
  case (Suc k)
  show ?case
  proof (cases "n < 10")
    case False
    then have k: "0 < k" using Suc.prems by (cases k) auto
    have "n div 10 < 10 ^ k" using Suc.prems by (simp add: div_less_iff_less_mult mult.commute)
    then have "length (nat_str (n div 10)) \<le> k" using Suc.IH k by blast
    then show ?thesis using False by (subst nat_str.simps) simp
  qed (subst nat_str.simps, simp)
qed simp

lemma length_pad: "n < 10 ^ k \<Longrightarrow> 0 < k \<Longrightarrow> length (pad k n) = k"
  using length_nat_str_le [of n k] by (simp add: pad_def)

lemma parse_digits_zeros: "parse_digits (replicate j (CHR ''0'') @ s) = parse_digits s"
  by (induction j) (simp_all add: parse_digits_def digit_val_def)

lemma pad_inject: "pad k m = pad k n \<longleftrightarrow> m = n"
  by (metis pad_def parse_digits_nat_str parse_digits_zeros)

lemma pad_chars: "list_all is_digit (pad k n)"
  using nat_str_digits [of n] by (auto simp: pad_def list_all_iff is_digit_def)

definition four_digit_year :: "int \<Rightarrow> bool" where
  "four_digit_year t \<longleftrightarrow> 0 \<le> t \<and> fst (stamp_fields t) < 10000"

lemma format_stamp_eq:
  assumes "four_digit_year t"
  obtains y mo d h mi sec where "stamp_fields t = (y, mo, d, h, mi, sec)"
    and "format_stamp t = pad 4 y @ pad 2 mo @ pad 2 d @ ''-'' @ pad 2 h @ pad 2 mi @ pad 2 sec"
    and "length (pad 4 y) = 4" "length (pad 2 mo) = 2" "length (pad 2 d) = 2"
    and "length (pad 2 h) = 2" "length (pad 2 mi) = 2" "length (pad 2 sec) = 2"
proof -
  obtain y mo d h mi sec where f: "stamp_fields t = (y, mo, d, h, mi, sec)"
    by (cases "stamp_fields t")
  note b = stamp_fields_bounds(1) [OF f]
  have "y < 10000" using assms f by (simp add: four_digit_year_def)
  then show thesis using b f by (intro that [OF f]) (simp_all add: format_stamp_def length_pad)
qed

lemma length_format_stamp: "four_digit_year t \<Longrightarrow> length (format_stamp t) = 15"
  by (erule format_stamp_eq) simp

lemma format_stamp_chars:
  assumes "c \<in> set (format_stamp t)"
  shows "is_digit c \<or> c = CHR ''-''"
proof -
  obtain y mo d h mi sec where f: "stamp_fields t = (y, mo, d, h, mi, sec)"
    by (cases "stamp_fields t")
  show ?thesis using assms pad_chars by (auto simp: format_stamp_def f list_all_iff)
qed

lemma format_stamp_inject:
  assumes "four_digit_year t" and "four_digit_year u"
  shows "format_stamp t = format_stamp u \<longleftrightarrow> t div 1000000 = u div 1000000"
proof -
  obtain y mo d h mi sec where f: "stamp_fields t = (y, mo, d, h, mi, sec)"
    "format_stamp t = pad 4 y @ pad 2 mo @ pad 2 d @ ''-'' @ pad 2 h @ pad 2 mi @ pad 2 sec"
    "length (pad 4 y) = 4" "length (pad 2 mo) = 2" "length (pad 2 d) = 2" "length (pad 2 h) = 2"
    "length (pad 2 mi) = 2" "length (pad 2 sec) = 2"
    by (rule format_stamp_eq [OF assms(1)])
  obtain y' mo' d' h' mi' sec' where g: "stamp_fields u = (y', mo', d', h', mi', sec')"
    "format_stamp u = pad 4 y' @ pad 2 mo' @ pad 2 d' @ ''-'' @ pad 2 h' @ pad 2 mi' @ pad 2 sec'"
    "length (pad 4 y') = 4" "length (pad 2 mo') = 2" "length (pad 2 d') = 2" "length (pad 2 h') = 2"
    "length (pad 2 mi') = 2" "length (pad 2 sec') = 2"
    by (rule format_stamp_eq [OF assms(2)])
  have "format_stamp t = format_stamp u \<longleftrightarrow> stamp_fields t = stamp_fields u"
    using f(3-) g(3-) by (simp add: f(1,2) g(1,2) pad_inject)
  then show ?thesis
    using stamp_fields_inject [of t u] assms by (simp add: four_digit_year_def)
qed

end
