(* ===== verification/Backup.thy ===== *)
theory Backup
  imports Repos Storage Calendar
begin

text \<open>
  Package \<open>internal/backup\<close>: bundles of whole repositories, kept in an object store under keys
  that hold the second of the backup. The manager works on any object store; the locale
  \<open>backup_store\<close> states what it relies on, and the local store of theory Storage is its
  interpretation. git is the command runner of theory Exec.
\<close>

section \<open>The object store interface (storage.go) and the manager (backup.go)\<close>

record 'w object_store =
  ost_put :: "string \<Rightarrow> string \<Rightarrow> ('w, goerr + unit) st"
  ost_get :: "string \<Rightarrow> ('w, goerr + string) st"
  ost_list :: "string \<Rightarrow> ('w, goerr + stored_object list) st"
  ost_delete :: "string \<Rightarrow> ('w, goerr + unit) st"

text \<open>\<open>bm_clock\<close> is nil in the server; tests set it.\<close>

record 'w backup_manager =
  bm_root :: string
  bm_store :: "'w object_store"
  bm_clock :: "('w \<Rightarrow> time) option"

definition Manager_now :: "'z db_scheme backup_manager \<Rightarrow> 'z db_scheme \<Rightarrow> time" where
  "Manager_now m s = (case bm_clock m of Some c \<Rightarrow> c s | None \<Rightarrow> clock s)"

definition bundle_command :: "string \<Rightarrow> string \<Rightarrow> string \<Rightarrow> command" where
  "bundle_command root owner name = plain_command
     [''git'', ''--git-dir'', path_join [root, owner, name @ ''.git''],
      ''bundle'', ''create'', ''-'', ''--all'']"

definition backup_prefix :: "string \<Rightarrow> string \<Rightarrow> string" where
  "backup_prefix owner name = ''backups/'' @ owner @ ''/'' @ name @ ''/''"

definition backup_key :: "string \<Rightarrow> string \<Rightarrow> time \<Rightarrow> string" where
  "backup_key owner name t = backup_prefix owner name @ name @ ''-'' @ format_stamp t @ ''.bundle''"

definition Manager_Backup ::
  "'z db_scheme runner \<Rightarrow> 'z db_scheme backup_manager \<Rightarrow> string \<Rightarrow> string
    \<Rightarrow> ('z db_scheme, goerr + string) st" where
  "Manager_Backup run m owner name =
     on_result (run_output run (bundle_command (bm_root m) owner name))
       (\<lambda>err. fail (wrap_err (''bundle '' @ owner @ ''/'' @ name) err))
       (\<lambda>bundle. and_then (read_state (Manager_now m)) (\<lambda>now.
         let key = backup_key owner name now in
         on_result (ost_put (bm_store m) key bundle)
           (\<lambda>err. fail (wrap_err ''store backup'' err))
           (\<lambda>_. ok key)))"

definition Manager_List ::
  "'w backup_manager \<Rightarrow> string \<Rightarrow> string \<Rightarrow> ('w, goerr + stored_object list) st" where
  "Manager_List m owner name =
     on_result (ost_list (bm_store m) (backup_prefix owner name))
       (\<lambda>err. fail (wrap_err ''list backups'' err))
       (\<lambda>objects. ok objects)"

text \<open>The heads: a line longer than a hash and a space, from the reference name on.\<close>

definition bundle_heads :: "string \<Rightarrow> string list" where
  "bundle_heads output = map (drop 41) (filter (\<lambda>line. length line > 41)
     (split_char (CHR 0x0A) (trim_space output)))"

definition list_heads_command :: "string \<Rightarrow> command" where
  "list_heads_command data =
     (plain_command [''git'', ''bundle'', ''list-heads'', ''-''])\<lparr>cmd_stdin := data\<rparr>"

definition VerifyRestore ::
  "'w runner \<Rightarrow> 'w backup_manager \<Rightarrow> string \<Rightarrow> ('w, goerr + string list) st" where
  "VerifyRestore run m key =
     on_result (ost_get (bm_store m) key) fail
       (\<lambda>data. on_result (run_output run (list_heads_command data))
         (\<lambda>err. fail (wrap_err ''bundle invalid'' err))
         (\<lambda>output. ok (bundle_heads output)))"

section \<open>Keys\<close>

text \<open>A name whose backups the store accepts: no two consecutive dots.\<close>

definition backup_name :: "string \<Rightarrow> bool" where
  "backup_name n \<longleftrightarrow> validName n \<and> \<not> contains_str n ''..''"

lemma valid_no_slash: "validName n \<Longrightarrow> slash \<notin> set n"
  using validName_plain(1) by (auto simp: plain_component_def slash_def)

lemma valid_no_nul: "validName n \<Longrightarrow> CHR 0x00 \<notin> set n"
  by (auto simp: validName_def list_all_iff alnum_char_def name_char_def is_digit_def
      split: list.splits)

definition backup_file :: "string \<Rightarrow> time \<Rightarrow> string" where
  "backup_file name t = name @ ''-'' @ format_stamp t @ ''.bundle''"

lemma stamp_no_char: "\<not> is_digit c \<Longrightarrow> c \<noteq> CHR ''-'' \<Longrightarrow> c \<notin> set (format_stamp t)"
  using format_stamp_chars by blast

lemma backup_key_segments:
  assumes "validName owner" and "validName name"
  shows "split_char slash (backup_key owner name t) =
    [''backups'', owner, name, backup_file name t]"
proof -
  have seg: "slash \<notin> set (backup_file name t)"
    using valid_no_slash [OF assms(2)] stamp_no_char [of slash t]
    by (auto simp: backup_file_def slash_def is_digit_def)
  have "backup_key owner name t = ''backups'' @ slash # owner @ slash # name @ slash # backup_file name t"
    by (simp add: backup_key_def backup_prefix_def backup_file_def slash_def)
  moreover have "slash \<notin> set ''backups''" by (simp add: slash_def)
  ultimately show ?thesis
    using valid_no_slash [OF assms(1)] valid_no_slash [OF assms(2)] seg
    by (simp only: split_char_append_sep split_char_no_sep not_False_eq_True simp_thms)
qed

text \<open>The dot that separates the stamp from the extension makes no pair of dots.\<close>

lemma contains_dots_append:
  "\<not> contains_str a ''..'' \<Longrightarrow> sep \<noteq> CHR ''.'' \<Longrightarrow>
   contains_str (a @ sep # b) ''..'' \<longleftrightarrow> contains_str b ''..''"
  unfolding contains_str_def using sublist_across_sep [of sep "''..''" a b] by simp

lemma dots_free_no_dot: "CHR ''.'' \<notin> set s \<Longrightarrow> \<not> contains_str s ''..''"
  by (auto simp: contains_str_def sublist_def)

lemma stamp_file_dots: "\<not> contains_str (format_stamp t @ ''.bundle'') ''..''"
proof
  assume "contains_str (format_stamp t @ ''.bundle'') ''..''"
  then obtain a b where e: "format_stamp t @ ''.bundle'' = a @ ''..'' @ b"
    by (auto simp: contains_str_def sublist_def)
  have "CHR ''.'' \<notin> set (format_stamp t)" by (rule stamp_no_char) (simp_all add: is_digit_def)
  then have "count_list (format_stamp t) (CHR ''.'') = 0" by (simp add: count_notin)
  moreover have "count_list (format_stamp t @ ''.bundle'') (CHR ''.'') =
      count_list (a @ ''..'' @ b) (CHR ''.'')" by (simp only: e)
  ultimately show False by simp
qed

lemma backup_key_object_key:
  assumes "backup_name owner" and "backup_name name"
  shows "object_key (backup_key owner name t)"
proof -
  have v: "validName owner" "validName name" using assms by (simp_all add: backup_name_def)
  have "plain_component (backup_file name t)"
    using validName_plain(1) [OF v(2)] stamp_no_char [of slash t]
    by (auto simp: backup_file_def plain_component_def slash_def is_digit_def append_eq_Cons_conv)
  moreover have "\<not> contains_str (backup_file name t) ''..''"
    using contains_dots_append [of name "CHR ''-''" "format_stamp t @ ''.bundle''"] stamp_file_dots assms
    by (simp add: backup_file_def backup_name_def)
  moreover have "CHR 0x00 \<notin> set (backup_file name t)"
    using valid_no_nul [OF v(2)] stamp_no_char [of "CHR 0x00" t]
    by (auto simp: backup_file_def is_digit_def)
  ultimately have seg: "object_component (backup_file name t)" by (simp add: object_component_def)
  have names: "object_component owner" "object_component name"
    using assms validName_plain(1) valid_no_nul by (auto simp: object_component_def backup_name_def)
  have root: "object_component ''backups''"
    by (auto simp: object_component_def plain_component_def slash_def dots_free_no_dot)
  have "\<not> has_suffix (backup_key owner name t) ''.tmp''"
  proof
    assume "has_suffix (backup_key owner name t) ''.tmp''"
    then have "last (backup_key owner name t) = CHR ''p''"
      by (auto simp: has_suffix_def suffix_def)
    then show False by (simp add: backup_key_def)
  qed
  then show ?thesis
    using seg names root by (simp add: object_key_def backup_key_segments [OF v])
qed

text \<open>A key determines the repository and the second.\<close>

lemma backup_key_inject:
  assumes "validName owner" "validName name" "validName owner'" "validName name'"
    and "four_digit_year t" "four_digit_year u"
  shows "backup_key owner name t = backup_key owner' name' u \<longleftrightarrow>
    owner = owner' \<and> name = name' \<and> t div 1000000 = u div 1000000"
proof -
  have "backup_key owner name t = backup_key owner' name' u \<longleftrightarrow>
      split_char slash (backup_key owner name t) = split_char slash (backup_key owner' name' u)"
    by (metis join_split_char)
  also have "\<dots> \<longleftrightarrow> owner = owner' \<and> name = name' \<and> format_stamp t = format_stamp u"
    using assms by (auto simp: backup_key_segments backup_file_def)
  finally show ?thesis using assms(5,6) by (simp add: format_stamp_inject)
qed

text \<open>A repository name with two consecutive dots is valid, but no backup of it can be stored.\<close>

lemma dotted_name_has_no_backup:
  "validName ''a..b'' \<and> \<not> backup_name ''a..b''"
  by (simp add: backup_name_def validName_def alnum_char_def name_char_def is_digit_def
      contains_str_def sublist_code less_eq_char_def)

section \<open>What the manager relies on\<close>

text \<open>
  \<open>stored k s\<close> is the object under \<open>k\<close>: a successful \<open>Put\<close> changes that one, and \<open>Get\<close> reads it.
\<close>

locale backup_store =
  fixes st :: "'z db_scheme object_store"
    and ready :: "'z db_scheme \<Rightarrow> bool"
    and key_ok :: "string \<Rightarrow> bool"
    and stored :: "string \<Rightarrow> 'z db_scheme \<Rightarrow> string option"
  assumes put_stores: "ready s \<Longrightarrow> key_ok k \<Longrightarrow>
      \<exists>t. ost_put st k v s = (Inr (), t) \<and> ready t \<and> stored k t = Some v
        \<and> (\<forall>l. key_ok l \<and> l \<noteq> k \<longrightarrow> stored l t = stored l s)"
    and get_reads: "ready s \<Longrightarrow> key_ok k \<Longrightarrow> stored k s = Some v \<Longrightarrow> ost_get st k s = (Inr v, s)"
begin

lemma backup_stores:
  assumes m: "bm_store m = st" "bm_clock m = None"
    and run: "run (bundle_command (bm_root m) owner name) s = (out, s1)" "out_err out = None"
    and "ready s1" and "key_ok (backup_key owner name (clock s1))"
  defines "key \<equiv> backup_key owner name (clock s1)"
  shows "\<exists>t. Manager_Backup run m owner name s = (Inr key, t) \<and> ready t
    \<and> ost_put st key (out_stdout out) s1 = (Inr (), t)
    \<and> stored key t = Some (out_stdout out)
    \<and> (\<forall>l. key_ok l \<and> l \<noteq> key \<longrightarrow> stored l t = stored l s1)"
proof -
  obtain t where "ost_put st key (out_stdout out) s1 = (Inr (), t)" "ready t"
    "stored key t = Some (out_stdout out)" "\<forall>l. key_ok l \<and> l \<noteq> key \<longrightarrow> stored l t = stored l s1"
    using put_stores assms(5,6) unfolding key_def by blast
  then show ?thesis
    using m run unfolding key_def
    by (simp add: Manager_Backup_def run_output_def run_simps Manager_now_def Let_def)
qed

lemma verify_reads:
  assumes "bm_store m = st" and "ready s" and "key_ok key" and "stored key s = Some data"
  shows "VerifyRestore run m key s = on_result (run_output run (list_heads_command data))
    (\<lambda>err. fail (wrap_err ''bundle invalid'' err)) (\<lambda>output. ok (bundle_heads output)) s"
  using assms by (simp add: VerifyRestore_def on_result_apply get_reads)

end

definition local_store :: "string \<Rightarrow> goerr option \<Rightarrow> 'z host_scheme object_store" where
  "local_store root ctx_err = \<lparr>ost_put = Local_Put root, ost_get = Local_Get root,
     ost_list = Local_List root ctx_err, ost_delete = Local_Delete root\<rparr>"

lemma Local_Put_stores:
  assumes "store_ready root s" and "object_key k"
  shows "Local_Put root k v s = (Inr (), object_put root k v s)"
    and "is_dir (object_put root k v s) (butlast (key_path root k))"
proof -
  show "Local_Put root k v s = (Inr (), object_put root k v s)"
    by (rule Local_Put_ready [OF assms, of v]) (simp add: object_put_def)
  show "is_dir (object_put root k v s) (butlast (key_path root k))"
    by (rule Local_Put_ready [OF assms, of v]) (simp add: object_put_def is_dir_def)
qed

interpretation local_backups: backup_store "local_store root ctx_err" "store_ready root" object_key
    "object_get root" for root ctx_err
proof unfold_locales
  fix s :: "'a host_scheme" and k v :: string
  assume r: "store_ready root s" "object_key k"
  show "\<exists>t. ost_put (local_store root ctx_err) k v s = (Inr (), t) \<and> store_ready root t
      \<and> object_get root k t = Some v
      \<and> (\<forall>l. object_key l \<and> l \<noteq> k \<longrightarrow> object_get root l t = object_get root l s)"
    using Local_Put_stores(1) [OF r] store_ready_put [OF r] r(2)
    by (intro exI [of _ "object_put root k v s"]) (simp add: local_store_def)
  assume "object_get root k s = Some v"
  then show "ost_get (local_store root ctx_err) k s = (Inr v, s)"
    using r by (auto simp: local_store_def object_get_ready split: option.splits)
qed

section \<open>Backups can be restored\<close>

text \<open>
  C33: A backup can be read back. When git makes the bundle, \<open>Backup\<close> of a repository whose
  names hold no pair of dots returns a key under which the store now holds exactly git's
  output; \<open>VerifyRestore\<close> of that key hands these bytes, and nothing else, to git and returns
  the references it lists; and the backups of every other repository, and those of this
  one taken in another second, are what they were.
\<close>

theorem backup_restorable:
  fixes m :: "'z host_scheme backup_manager"
  assumes "backup_name owner" and "backup_name name"
    and "bm_store m = local_store root ctx_err" and "bm_clock m = None"
    and "run (bundle_command (bm_root m) owner name) s = (out, s1)" and "out_err out = None"
    and "store_ready root s1" and "four_digit_year (clock s1)"
  shows "\<exists>t. Manager_Backup run m owner name s = (Inr (backup_key owner name (clock s1)), t)
    \<and> object_get root (backup_key owner name (clock s1)) t = Some (out_stdout out)
    \<and> VerifyRestore run m (backup_key owner name (clock s1)) t =
        on_result (run_output run (list_heads_command (out_stdout out)))
          (\<lambda>err. fail (wrap_err ''bundle invalid'' err)) (\<lambda>output. ok (bundle_heads output)) t
    \<and> (\<forall>o' n' u. backup_name o' \<longrightarrow> backup_name n' \<longrightarrow> four_digit_year u \<longrightarrow>
        (o', n', u div 1000000) \<noteq> (owner, name, clock s1 div 1000000) \<longrightarrow>
        object_get root (backup_key o' n' u) t = object_get root (backup_key o' n' u) s1)"
proof -
  note key = backup_key_object_key
  obtain t where t: "Manager_Backup run m owner name s = (Inr (backup_key owner name (clock s1)), t)"
    "store_ready root t" "object_get root (backup_key owner name (clock s1)) t = Some (out_stdout out)"
    "\<forall>l. object_key l \<and> l \<noteq> backup_key owner name (clock s1) \<longrightarrow>
      object_get root l t = object_get root l s1"
    using local_backups.backup_stores [where run = run and s = s, OF assms(3-7) key [OF assms(1,2), of "clock s1"]] by blast
  note verify = local_backups.verify_reads [OF assms(3) t(2) key [OF assms(1,2), of "clock s1"] t(3), of run]
  have other: "object_get root (backup_key o' n' u) t = object_get root (backup_key o' n' u) s1"
    if b: "backup_name o'" "backup_name n'" and u: "four_digit_year u"
      and ne: "(o', n', u div 1000000) \<noteq> (owner, name, clock s1 div 1000000)" for o' n' u
  proof -
    have "backup_key o' n' u \<noteq> backup_key owner name (clock s1)"
      using backup_key_inject [of o' n' owner name u "clock s1"] ne b u assms(1,2,8)
      by (auto simp: backup_name_def)
    then show ?thesis using t(4) key [OF b] by blast
  qed
  show ?thesis using t(1,3) verify other by (intro exI [of _ t]) blast
qed

section \<open>Listings\<close>

lemma backup_prefix_path:
  assumes "backup_name owner" and "backup_name name" and "root \<noteq> []"
  obtains p where "store_path root (backup_prefix owner name) = Inr p"
    and "fs_path p = fs_path root @ [''backups'', owner, name]"
proof -
  have v: "validName owner" "validName name" using assms by (simp_all add: backup_name_def)
  have "slash # backup_prefix owner name = [] @ slash # ''backups'' @ slash # owner @ slash # name @ slash # []"
    by (simp add: backup_prefix_def slash_def)
  moreover have "slash \<notin> set ''backups''" by (simp add: slash_def)
  ultimately have split: "split_char slash (slash # backup_prefix owner name) =
      [[], ''backups'', owner, name, []]"
    using valid_no_slash [OF v(1)] valid_no_slash [OF v(2)]
    by (simp only: split_char_append_sep split_char_no_sep not_False_eq_True simp_thms
        empty_iff list.set)
  have plain: "\<forall>d\<in>set [''backups'', owner, name]. plain_component d"
    using validName_plain(1) v by (auto simp: plain_component_def slash_def)
  then have clean: "clean_components True (slash # backup_prefix owner name) = [''backups'', owner, name]"
    by (simp only: clean_components_def split) (simp add: clean_step_plain)
  have nul: "CHR 0x00 \<notin> set (backup_prefix owner name)"
    using valid_no_nul [OF v(1)] valid_no_nul [OF v(2)] by (simp add: backup_prefix_def)
  have "\<forall>c\<in>set [''backups'', owner, name]. \<not> contains_str c ''..''"
    using assms by (auto simp: backup_name_def dots_free_no_dot)
  then have "store_path root (backup_prefix owner name) = Inr (unclean (is_rooted root)
      (clean_components (is_rooted root) root @ [''backups'', owner, name]))"
    using store_path_accepts [OF assms(3) nul] clean by simp
  then show thesis using that fs_path_of_key [OF plain, of root] by simp
qed

lemma rel_path_below: "q \<noteq> [] \<Longrightarrow> rel_path root (root @ q) = join_str [slash] q"
  by (simp add: rel_path_def)

lemma Manager_List_ready:
  assumes "backup_name owner" and "backup_name name" and "store_ready root s"
    and "bm_store m = local_store root None" and "is_dir s (fs_path root @ [''backups'', owner, name])"
  shows "Manager_List m owner name s = (Inr (sort_newest (map (\<lambda>(p, f).
      \<lparr>obj_key = rel_path (fs_path root) p, obj_size = int (length (file_data f)),
       obj_modified = file_mtime f\<rparr>)
      (sort_key fst (filter (\<lambda>(q, _). strict_prefix (fs_path root @ [''backups'', owner, name]) q)
        (fs_files s))))), s)"
proof -
  let ?d = "fs_path root @ [''backups'', owner, name]"
  have root: "root \<noteq> []" "io_calm s" using assms(3) by (simp_all add: store_ready_def)
  obtain p where p: "store_path root (backup_prefix owner name) = Inr p" "fs_path p = ?d"
    using backup_prefix_path [OF assms(1,2) root(1)] by blast
  have no: "file_at s ?d = None" "\<not> through_file s ?d"
  proof -
    have l3: "length [''backups'', owner, name] < 4" by simp
    show "file_at s ?d = None" using prefixes_no_file [OF assms(3) l3] by simp
    show "\<not> through_file s ?d"
      using prefixes_no_file [OF assms(3) l3] by (auto simp: through_file_iff strict_prefix_def)
  qed
  have "os_walk ?d s =
      (Inr (sort_key fst (filter (\<lambda>(q, _). strict_prefix ?d q) (fs_files s))), s)"
    using root(2) no assms(5) by (simp add: os_walk_def)
  then show ?thesis
    by (simp add: Manager_List_def assms(4) local_store_def Local_List_def p on_result_apply
        split: list.split)
qed

lemma set_sort_newest: "set (sort_newest objects) = set objects"
  by (simp add: sort_newest_rev)

lemma sorted_sort_newest:
  "sorted_wrt (\<lambda>x y. obj_modified x \<ge> obj_modified y) (sort_newest objects)"
proof -
  have "sorted_wrt (\<lambda>x y. obj_modified x \<le> obj_modified y) (sort_key obj_modified (rev objects))"
    using sorted_sort_key [of obj_modified "rev objects"] by (simp add: sorted_map)
  then show ?thesis by (simp add: sort_newest_rev sorted_wrt_rev)
qed

text \<open>
  A backup is listed with its repository. After a successful \<open>Backup\<close>, \<open>List\<close> of the same
  repository shows the new key with the size of the bundle, newest first; every key it shows
  belongs to this repository and names an object of the store, with the size of its bytes.
\<close>

theorem backup_listed:
  fixes m :: "'z host_scheme backup_manager"
  assumes "backup_name owner" and "backup_name name"
    and "bm_store m = local_store root None" and "bm_clock m = None"
    and "run (bundle_command (bm_root m) owner name) s = (out, s1)" and "out_err out = None"
    and "store_ready root s1"
  shows "\<exists>t objects. Manager_Backup run m owner name s = (Inr (backup_key owner name (clock s1)), t)
    \<and> Manager_List m owner name t = (Inr objects, t)
    \<and> (\<exists>x\<in>set objects. obj_key x = backup_key owner name (clock s1)
        \<and> obj_size x = int (length (out_stdout out)))
    \<and> (\<forall>x\<in>set objects. has_prefix (obj_key x) (backup_prefix owner name))
    \<and> sorted_wrt (\<lambda>x y. obj_modified x \<ge> obj_modified y) objects"
proof -
  let ?k = "backup_key owner name (clock s1)" and ?d = "fs_path root @ [''backups'', owner, name]"
  note key = backup_key_object_key [OF assms(1,2), of "clock s1"]
  obtain t where t: "Manager_Backup run m owner name s = (Inr ?k, t)" "store_ready root t"
    "ost_put (local_store root None) ?k (out_stdout out) s1 = (Inr (), t)"
    "object_get root ?k t = Some (out_stdout out)"
    using local_backups.backup_stores [where run = run and s = s, OF assms(3-7) key] by blast
  have put: "t = object_put root ?k (out_stdout out) s1"
    using t(3) by (simp add: local_store_def object_put_def)
  have v: "validName owner" "validName name" using assms(1,2) by (simp_all add: backup_name_def)
  have kp: "key_path root ?k = ?d @ [backup_file name (clock s1)]"
    by (simp add: key_path_def backup_key_segments [OF v])
  have dir: "is_dir t ?d"
    using Local_Put_stores(2) [OF assms(7) key] unfolding put kp by (simp only: butlast_snoc)
  define objects where "objects = sort_newest (map (\<lambda>(p, f).
      \<lparr>obj_key = rel_path (fs_path root) p, obj_size = int (length (file_data f)),
       obj_modified = file_mtime f\<rparr>)
      (sort_key fst (filter (\<lambda>(q, _). strict_prefix ?d q) (fs_files t))))"
  have list: "Manager_List m owner name t = (Inr objects, t)"
    unfolding objects_def by (rule Manager_List_ready [OF assms(1,2) t(2) assms(3) dir])
  obtain f where f: "map_of (fs_files t) (?d @ [backup_file name (clock s1)]) = Some f"
    "file_data f = out_stdout out"
    using t(4) object_get_ready(2) [OF t(2) key] kp by (auto simp: file_at_def)
  have rel: "rel_path (fs_path root) (?d @ u # us) =
      backup_prefix owner name @ join_str [slash] (u # us)" for u us
    using rel_path_below [of "[''backups'', owner, name] @ u # us" "fs_path root"]
    by (simp add: backup_prefix_def slash_def)
  have new: "\<exists>x\<in>set objects. obj_key x = ?k \<and> obj_size x = int (length (out_stdout out))"
  proof -
    have "(?d @ [backup_file name (clock s1)], f) \<in> set (fs_files t)" by (rule map_of_SomeD [OF f(1)])
    moreover have "strict_prefix ?d (?d @ [backup_file name (clock s1)])" by (simp add: strict_prefix_def)
    moreover have "rel_path (fs_path root) (?d @ [backup_file name (clock s1)]) = ?k"
      using rel [of "backup_file name (clock s1)" "[]"] by (simp add: backup_key_def backup_file_def)
    ultimately show ?thesis
      using f(2) by (force simp: objects_def set_sort_newest)
  qed
  have own: "has_prefix (obj_key x) (backup_prefix owner name)" if x: "x \<in> set objects" for x
  proof -
    obtain q g where q: "(q, g) \<in> set (fs_files t)" "strict_prefix ?d q"
      "obj_key x = rel_path (fs_path root) q"
      using x by (auto simp: objects_def set_sort_newest)
    then obtain u us where "q = ?d @ u # us" by (auto elim: strict_prefixE')
    then show ?thesis using q(3) rel by (simp add: has_prefix_def)
  qed
  show ?thesis
    using t(1) list new own sorted_sort_newest unfolding objects_def by blast
qed

section \<open>A run\<close>

definition demo_bundle :: outcome where
  "demo_bundle = \<lparr>out_err = None, out_exit = None, out_stdout = ''BUNDLE'', out_stderr = [],
     out_combined = ''BUNDLE''\<rparr>"

definition demo_manager :: "host backup_manager" where
  "demo_manager = \<lparr>bm_root = ''/r'', bm_store = local_store ''/srv'' None, bm_clock = None\<rparr>"

lemma demo_backup:
  "backup_name ''ann''" "backup_name ''app''" "store_ready ''/srv'' empty_host"
  "four_digit_year (clock empty_host)" "clock empty_host = 0"
proof -
  show "backup_name ''ann''" "backup_name ''app''"
    by (simp_all add: backup_name_def validName_def alnum_char_def name_char_def less_eq_char_def
        contains_str_def sublist_code)
  show "store_ready ''/srv'' empty_host" by (rule empty_host_ready) simp
  show "clock empty_host = 0" by (simp add: empty_host_def empty_db_def db.defs)
  then show "four_digit_year (clock empty_host)"
    by (simp add: four_digit_year_def stamp_fields_def year_of.simps year_days_def Let_def
        split: prod.split)
qed

theorem backup_restorable_witness:
  "\<exists>t. Manager_Backup (\<lambda>c s. (demo_bundle, s)) demo_manager ''ann'' ''app'' empty_host =
       (Inr (backup_key ''ann'' ''app'' 0), t)
     \<and> object_get ''/srv'' (backup_key ''ann'' ''app'' 0) t = Some ''BUNDLE''"
proof -
  have "bm_store demo_manager = local_store ''/srv'' None" "bm_clock demo_manager = None"
    "out_err demo_bundle = None" "out_stdout demo_bundle = ''BUNDLE''"
    by (simp_all add: demo_manager_def demo_bundle_def)
  then show ?thesis
    using backup_restorable [where run = "\<lambda>c s. (demo_bundle, s)" and s = empty_host and
        m = demo_manager and owner = "''ann''" and name = "''app''"] demo_backup
    by fastforce
qed

theorem backup_listed_witness:
  "\<exists>t objects. Manager_Backup (\<lambda>c s. (demo_bundle, s)) demo_manager ''ann'' ''app'' empty_host =
       (Inr (backup_key ''ann'' ''app'' 0), t)
     \<and> Manager_List demo_manager ''ann'' ''app'' t = (Inr objects, t) \<and> objects \<noteq> []"
proof -
  have "bm_store demo_manager = local_store ''/srv'' None" "bm_clock demo_manager = None"
    "out_err demo_bundle = None"
    by (simp_all add: demo_manager_def demo_bundle_def)
  then show ?thesis
    using backup_listed [where run = "\<lambda>c s. (demo_bundle, s)" and s = empty_host and
        m = demo_manager and owner = "''ann''" and name = "''app''"] demo_backup
    by fastforce
qed

end
