(* ===== verification/MergeSvc.thy ===== *)
theory MergeSvc
  imports CI
begin

text \<open>
  Package \<open>internal/mergesvc\<close>: merging a pull request with git in a scratch clone. git is the
  command runner of theory Exec and \<open>environ\<close> the server's environment. Shown: the service runs
  exactly the five commands of a merge in order, stopping at the first that fails, so nothing
  is pushed unless the merge succeeded, and reports and announces the commit git names.
\<close>

section \<open>The service (service.go)\<close>

record merged_event =
  mev_repository :: int
  mev_owner :: string
  mev_name :: string
  mev_number :: int
  mev_commit :: string
  mev_target :: string
  mev_source :: string
  mev_merged_by :: string

text \<open>\<open>ms_events\<close>: the channel is not nil. What is sent on it is returned.\<close>

record merge_service =
  ms_root :: string
  ms_events :: bool
  ms_committer_name :: string
  ms_committer_email :: string

definition committer_env :: "merge_service \<Rightarrow> string list" where
  "committer_env svc =
     (let name = (if ms_committer_name svc = [] then ''GitCastle'' else ms_committer_name svc);
          email = (if ms_committer_email svc = [] then ''noreply@gitcastle.local''
                   else ms_committer_email svc) in
      [''GIT_AUTHOR_NAME='' @ name, ''GIT_AUTHOR_EMAIL='' @ email,
       ''GIT_COMMITTER_NAME='' @ name, ''GIT_COMMITTER_EMAIL='' @ email])"

definition merge_command :: "string list \<Rightarrow> merge_service \<Rightarrow> string \<Rightarrow> string list \<Rightarrow> command" where
  "merge_command environ svc dir args =
     \<lparr>cmd_args = ''git'' # ''-C'' # dir # args, cmd_dir = [],
      cmd_env = Some (environ @ committer_env svc), cmd_stdin = []\<rparr>"

text \<open>\<open>%v\<close> of a list of strings.\<close>

definition show_list :: "string list \<Rightarrow> string" where
  "show_list args = ''['' @ join_str '' '' args @ '']''"

definition merge_git ::
  "'w runner \<Rightarrow> string list \<Rightarrow> merge_service \<Rightarrow> string \<Rightarrow> string list \<Rightarrow> ('w, goerr + string) st" where
  "merge_git run environ svc dir args =
     and_then (run (merge_command environ svc dir args)) (\<lambda>out.
       case out_err out of
         Some err \<Rightarrow> fail (Wrap (''git '' @ show_list args @ '': '') err ('': '' @ out_stderr out))
       | None \<Rightarrow> ok (out_stdout out))"

definition merge_trim :: "string \<Rightarrow> string" where
  "merge_trim value = trim_right_set {CHR 0x0A, CHR '' '', CHR 0x09} value"

definition merge_work :: "string \<Rightarrow> int \<Rightarrow> int \<Rightarrow> string" where
  "merge_work temp_dir pid number =
     path_join [temp_dir, ''gitcastle-merge-'' @ int_str pid @ ''-'' @ int_str number]"

definition merge_message :: "int \<Rightarrow> string \<Rightarrow> string \<Rightarrow> string \<Rightarrow> string" where
  "merge_message number owner source merged_by =
     ''Merge pull request #'' @ int_str number @ '' from '' @ owner @ ''/'' @ source @
     [CHR 0x0A, CHR 0x0A] @ ''Merged by '' @ merged_by"

text \<open>The body of \<open>MergePR\<close>; \<open>out\<close> is empty whenever \<open>git\<close> returns an error.\<close>

definition merge_steps ::
  "'w runner \<Rightarrow> string list \<Rightarrow> merge_service \<Rightarrow> string \<Rightarrow> string \<Rightarrow> string \<Rightarrow> int \<Rightarrow> string \<Rightarrow> string
    \<Rightarrow> string \<Rightarrow> ('w, (goerr + string) \<times> merged_event option) st" where
  "merge_steps run environ svc work owner name number source target merged_by =
     (let git = merge_git run environ svc; bare = path_join [ms_root svc, owner, name @ ''.git''];
          refuse = (\<lambda>what err. ret (Inl (Wrap (what @ '': '') err '': ''), None)) in
      on_result (git ''.'' [''clone'', ''--quiet'', ''--branch'', target, bare, work])
        (refuse (''clone target branch '' @ target))
        (\<lambda>_. on_result (git work [''fetch'', ''--quiet'', ''origin'', source])
          (refuse (''fetch source branch '' @ source))
          (\<lambda>_. on_result (git work [''merge'', ''--no-ff'', ''--quiet'', ''-m'',
              merge_message number owner source merged_by, ''origin/'' @ source])
            (refuse (''merge '' @ source @ '' into '' @ target @ '' (conflict?)''))
            (\<lambda>_. on_result (git work [''push'', ''--quiet'', ''origin'', target])
              (\<lambda>err. ret (Inl (wrap_err (''push merged '' @ target) err), None))
              (\<lambda>_. on_result (git work [''rev-parse'', ''HEAD''])
                (\<lambda>err. ret (Inl err, None))
                (\<lambda>hashOutput. let hash = merge_trim hashOutput in
                  ret (Inr hash, if ms_events svc then Some
                    \<lparr>mev_repository = 0, mev_owner = owner, mev_name = name, mev_number = number,
                     mev_commit = hash, mev_target = target, mev_source = source,
                     mev_merged_by = merged_by\<rparr> else None)))))))"

definition MergePR ::
  "'z host_scheme runner \<Rightarrow> string list \<Rightarrow> string \<Rightarrow> int \<Rightarrow> merge_service \<Rightarrow> string \<Rightarrow> string \<Rightarrow> int
    \<Rightarrow> string \<Rightarrow> string \<Rightarrow> string \<Rightarrow> ('z host_scheme, (goerr + string) \<times> merged_event option) st" where
  "MergePR run environ temp_dir pid svc owner name number source target merged_by =
     (let work = merge_work temp_dir pid number in
      and_then (merge_steps run environ svc work owner name number source target merged_by)
        (\<lambda>result. discard_result (os_remove_all (fs_path work)) (ret result)))"

section \<open>The script a merge is\<close>

text \<open>A list of commands run in order up to the first that fails, as \<open>set -e\<close> does.\<close>

fun run_script :: "'w runner \<Rightarrow> command list \<Rightarrow> ('w, outcome list) st" where
  "run_script run [] s = ([], s)"
| "run_script run (c # cs) s =
     (case run c s of (out, t) \<Rightarrow>
        if out_err out \<noteq> None then ([out], t)
        else case run_script run cs t of (outs, u) \<Rightarrow> (out # outs, u))"

definition merge_script ::
  "string list \<Rightarrow> merge_service \<Rightarrow> string \<Rightarrow> string \<Rightarrow> string \<Rightarrow> int \<Rightarrow> string \<Rightarrow> string \<Rightarrow> string
    \<Rightarrow> command list" where
  "merge_script environ svc work owner name number source target merged_by =
     map (\<lambda>(dir, args). merge_command environ svc dir args)
      [(''.'', [''clone'', ''--quiet'', ''--branch'', target,
          path_join [ms_root svc, owner, name @ ''.git''], work]),
       (work, [''fetch'', ''--quiet'', ''origin'', source]),
       (work, [''merge'', ''--no-ff'', ''--quiet'', ''-m'',
          merge_message number owner source merged_by, ''origin/'' @ source]),
       (work, [''push'', ''--quiet'', ''origin'', target]),
       (work, [''rev-parse'', ''HEAD''])]"

definition merge_succeeded :: "outcome list \<Rightarrow> bool" where
  "merge_succeeded outs \<longleftrightarrow> length outs = 5 \<and> list_all (\<lambda>out. out_err out = None) outs"

text \<open>The error a failure reports is git's own, whatever is wrapped around it.\<close>

fun innermost :: "goerr \<Rightarrow> goerr" where
  "innermost (Wrap pre e post) = innermost e"
| "innermost e = e"

lemma merge_git_apply:
  "merge_git run environ svc dir args s =
     (case run (merge_command environ svc dir args) s of (out, t) \<Rightarrow>
       (case out_err out of
          Some err \<Rightarrow> Inl (Wrap (''git '' @ show_list args @ '': '') err ('': '' @ out_stderr out))
        | None \<Rightarrow> Inr (out_stdout out), t))"
  by (simp add: merge_git_def and_then_apply split: prod.split option.split)

text \<open>One command of the script and the \<open>on_result\<close> that runs it.\<close>

lemma script_step:
  fixes run :: "'w runner"
  assumes "run_script run (merge_command environ svc dir args # cs) s = (outs, t)"
  obtains (failed) out err where "outs = [out]" and "out_err out = Some err"
      and "\<forall>(h :: _ \<Rightarrow> ('w, (goerr + string) \<times> merged_event option) st) k.
        on_result (merge_git run environ svc dir args) h k s =
        h (Wrap (''git '' @ show_list args @ '': '') err ('': '' @ out_stderr out)) t"
  | (fine) out outs' s1 where "outs = out # outs'" and "out_err out = None"
      and "run_script run cs s1 = (outs', t)"
      and "\<forall>h (k :: _ \<Rightarrow> ('w, (goerr + string) \<times> merged_event option) st).
        on_result (merge_git run environ svc dir args) h k s = k (out_stdout out) s1"
proof -
  obtain out s1 where run: "run (merge_command environ svc dir args) s = (out, s1)" by fastforce
  show thesis
  proof (cases "out_err out")
    case None
    obtain outs' u where rest: "run_script run cs s1 = (outs', u)" by fastforce
    show thesis
      using assms run None rest by (intro fine) (auto simp: on_result_apply merge_git_apply)
  next
    case (Some err)
    then show thesis
      using assms run by (intro failed) (auto simp: on_result_apply merge_git_apply)
  qed
qed

lemma merge_steps_script:
  fixes run :: "'w runner"
  assumes "run_script run (merge_script environ svc work owner name number source target merged_by) s
    = (outs, t)"
  shows "\<exists>res event. merge_steps run environ svc work owner name number source target merged_by s
      = ((res, event), t)
    \<and> (if merge_succeeded outs
       then res = Inr (merge_trim (out_stdout (last outs)))
         \<and> event = (if ms_events svc then Some \<lparr>mev_repository = 0, mev_owner = owner,
             mev_name = name, mev_number = number,
             mev_commit = merge_trim (out_stdout (last outs)), mev_target = target,
             mev_source = source, mev_merged_by = merged_by\<rparr> else None)
       else event = None \<and> (\<exists>e err. res = Inl e \<and> out_err (last outs) = Some err
         \<and> innermost e = innermost err))"
proof -
  let ?bare = "path_join [ms_root svc, owner, name @ ''.git'']"
  note defs = merge_steps_def Let_def merge_succeeded_def
  from assms have 1: "run_script run (merge_command environ svc ''.''
      [''clone'', ''--quiet'', ''--branch'', target, ?bare, work] #
      tl (merge_script environ svc work owner name number source target merged_by)) s = (outs, t)"
    by (simp add: merge_script_def)
  show ?thesis using 1
  proof (cases rule: script_step)
    case (fine o1 outs1 s1)
    note f1 = fine
    from f1(3) have 2: "run_script run (merge_command environ svc work
        [''fetch'', ''--quiet'', ''origin'', source] #
        tl (tl (merge_script environ svc work owner name number source target merged_by))) s1
        = (outs1, t)" by (simp add: merge_script_def)
    show ?thesis using 2
    proof (cases rule: script_step)
      case (fine o2 outs2 s2)
      note f2 = fine
      from f2(3) have 3: "run_script run (merge_command environ svc work
          [''merge'', ''--no-ff'', ''--quiet'', ''-m'',
           merge_message number owner source merged_by, ''origin/'' @ source] #
          tl (tl (tl (merge_script environ svc work owner name number source target merged_by)))) s2
          = (outs2, t)" by (simp add: merge_script_def)
      show ?thesis using 3
      proof (cases rule: script_step)
        case (fine o3 outs3 s3)
        note f3 = fine
        from f3(3) have 4: "run_script run (merge_command environ svc work
            [''push'', ''--quiet'', ''origin'', target] #
            [merge_command environ svc work [''rev-parse'', ''HEAD'']]) s3 = (outs3, t)"
          by (simp add: merge_script_def)
        show ?thesis using 4
        proof (cases rule: script_step)
          case (fine o4 outs4 s4)
          note f4 = fine
          show ?thesis using f4(3)
          proof (cases rule: script_step)
            case (fine o5 outs5 s5)
            with f1 f2 f3 f4 show ?thesis by (simp add: defs)
          qed (use f1 f2 f3 f4 in \<open>simp add: defs\<close>)
        qed (use f1 f2 f3 in \<open>simp add: defs\<close>)
      qed (use f1 f2 in \<open>simp add: defs\<close>)
    qed (use f1 in \<open>simp add: defs\<close>)
  qed (simp add: defs)
qed

text \<open>
  C32: A merge is its script. \<open>MergePR\<close> behaves as the five git commands clone, fetch, merge,
  push and rev-parse run in this order up to the first that fails, followed by the removal of
  the scratch clone: it succeeds exactly when all five do, so nothing is pushed unless the
  merge itself succeeded; it returns the trimmed output of rev-parse and announces this commit
  once if a channel is configured; a failure carries the error of the command that failed and
  announces nothing.
\<close>

theorem merge_is_script:
  "\<exists>outs t res event.
     run_script run (merge_script environ svc (merge_work tmp pid number) owner name number source
       target merged_by) s = (outs, t)
     \<and> MergePR run environ tmp pid svc owner name number source target merged_by s =
         ((res, event), snd (os_remove_all (fs_path (merge_work tmp pid number)) t))
     \<and> (if merge_succeeded outs
        then res = Inr (merge_trim (out_stdout (last outs)))
          \<and> event = (if ms_events svc then Some \<lparr>mev_repository = 0, mev_owner = owner,
              mev_name = name, mev_number = number,
              mev_commit = merge_trim (out_stdout (last outs)), mev_target = target,
              mev_source = source, mev_merged_by = merged_by\<rparr> else None)
        else event = None \<and> (\<exists>e err. res = Inl e \<and> out_err (last outs) = Some err
          \<and> innermost e = innermost err))"
proof -
  let ?work = "merge_work tmp pid number"
  obtain outs t where script: "run_script run (merge_script environ svc ?work owner name number
      source target merged_by) s = (outs, t)" by fastforce
  show ?thesis
  proof -
    obtain res event where steps: "merge_steps run environ svc ?work owner name number source target
        merged_by s = ((res, event), t)"
      using merge_steps_script [OF script] by blast
    then have "MergePR run environ tmp pid svc owner name number source target merged_by s =
        ((res, event), snd (os_remove_all (fs_path ?work) t))"
      by (simp add: MergePR_def run_simps Let_def)
    with script steps merge_steps_script [OF script] show ?thesis by auto
  qed
qed

end
