(* ===== verification/Float64.thy ===== *)
theory Float64
  imports Complex_Main "HOL-Library.Log_Nat"
begin

text \<open>
  The IEEE double precision arithmetic that Go's \<open>float64\<close> uses, on rational numbers: every
  operation is the exact one followed by \<open>fl\<close>, rounding to the nearest number with 53
  significant bits, ties to even. The exponent is not bounded: the values of the program are
  token counts and seconds, far from overflow and from subnormal numbers. Shown: rounding is
  monotone, exact on small integers, and its relative error is at most \<open>2 ^ - 53\<close>.
\<close>

definition round_even :: "rat \<Rightarrow> int" where
  "round_even y =
     (let n = \<lfloor>y\<rfloor>; f = y - of_int n in
      if f < 1 / 2 then n else if f > 1 / 2 then n + 1 else if even n then n else n + 1)"

text \<open>The binary exponent of a positive number, from the bit lengths of its fraction.\<close>

definition exponent :: "rat \<Rightarrow> int" where
  "exponent x =
     (case quotient_of x of (p, q) \<Rightarrow>
        let e = bitlen p - bitlen q in if 2 powi e \<le> x then e else e - 1)"

definition unit_in_last_place :: "rat \<Rightarrow> rat" where
  "unit_in_last_place x = 2 powi (exponent x - 52)"

definition fl_pos :: "rat \<Rightarrow> rat" where
  "fl_pos x = of_int (round_even (x / unit_in_last_place x)) * unit_in_last_place x"

definition fl :: "rat \<Rightarrow> rat" where
  "fl x = (if x = 0 then 0 else if x < 0 then - fl_pos (- x) else fl_pos x)"

section \<open>Rounding to an integer\<close>

lemma round_even_cases: "round_even y = \<lfloor>y\<rfloor> \<and> y - of_int \<lfloor>y\<rfloor> \<le> 1 / 2
    \<or> round_even y = \<lfloor>y\<rfloor> + 1 \<and> y - of_int \<lfloor>y\<rfloor> \<ge> 1 / 2"
  by (auto simp: round_even_def Let_def)

lemma round_even_error: "\<bar>of_int (round_even y) - y\<bar> \<le> 1 / 2"
  using round_even_cases [of y] floor_correct [of y] by (auto simp: abs_le_iff)

lemma round_even_int [simp]: "round_even (of_int n) = n"
  by (simp add: round_even_def)

lemma round_even_mono:
  assumes "x \<le> y"
  shows "round_even x \<le> round_even y"
proof (cases "\<lfloor>x\<rfloor> = \<lfloor>y\<rfloor>")
  case True
  then show ?thesis using assms by (auto simp: round_even_def Let_def)
next
  case False
  with assms have "\<lfloor>x\<rfloor> + 1 \<le> \<lfloor>y\<rfloor>" using floor_mono [OF assms] by linarith
  then show ?thesis using round_even_cases [of x] round_even_cases [of y] by auto
qed

section \<open>The exponent\<close>

lemma two_powi_pos [simp]: "0 < (2 :: rat) powi e"
  by (simp add: zero_less_power_int)

lemma two_powi_add: "(2 :: rat) powi (a + b) = 2 powi a * 2 powi b"
  by (simp add: power_int_add)

lemma two_powi_mono: "a \<le> b \<Longrightarrow> (2 :: rat) powi a \<le> 2 powi b"
  by (rule power_int_increasing) simp_all

lemma exponent_bounds:
  assumes "0 < x"
  shows "2 powi exponent x \<le> x" and "x < 2 powi (exponent x + 1)"
proof -
  obtain p q where pq: "quotient_of x = (p, q)" by fastforce
  then have q: "0 < q" and x: "x = of_int p / of_int q"
    using quotient_of_denom_pos quotient_of_div by auto
  then have p: "0 < p" using assms by (simp add: zero_less_divide_iff)
  have bits: "(2 :: rat) powi (bitlen n - 1) \<le> of_int n" "of_int n < (2 :: rat) powi bitlen n"
    if "0 < n" for n :: int
  proof -
    have b: "0 < bitlen n" "2 ^ nat (bitlen n - 1) \<le> n" "n < 2 ^ nat (bitlen n)"
      using bitlen_bounds [OF that] that by (cases "bitlen n \<le> 0", auto)
    have "(2 :: rat) powi bitlen n = of_int (2 ^ nat (bitlen n))"
      "(2 :: rat) powi (bitlen n - 1) = of_int (2 ^ nat (bitlen n - 1))"
      using b(1) by (simp_all add: power_int_def)
    then show "(2 :: rat) powi (bitlen n - 1) \<le> of_int n" "of_int n < (2 :: rat) powi bitlen n"
      using b(2,3) by (simp_all only: of_int_le_iff of_int_less_iff)
  qed
  let ?e = "bitlen p - bitlen q"
  have q': "0 < (of_int q :: rat)" using q by simp
  have "2 powi (?e - 1) * of_int q \<le> 2 powi (?e - 1) * (2 :: rat) powi bitlen q"
    using bits(2) [OF q] by (simp add: mult_left_mono less_imp_le)
  also have "\<dots> = 2 powi (bitlen p - 1)" by (simp add: two_powi_add [symmetric])
  also have "\<dots> \<le> of_int p" by (rule bits(1) [OF p])
  finally have lo: "2 powi (?e - 1) \<le> x" using q' by (simp add: x pos_le_divide_eq)
  have "of_int p < (2 :: rat) powi bitlen p" by (rule bits(2) [OF p])
  also have "\<dots> = 2 powi (?e + 1) * 2 powi (bitlen q - 1)" by (simp add: two_powi_add [symmetric])
  also have "\<dots> \<le> 2 powi (?e + 1) * of_int q"
    using bits(1) [OF q] by (simp add: mult_left_mono less_imp_le)
  finally have hi: "x < 2 powi (?e + 1)" using q' by (simp add: x pos_divide_less_eq)
  have e: "exponent x = (if 2 powi ?e \<le> x then ?e else ?e - 1)"
    by (simp add: exponent_def pq Let_def)
  show "2 powi exponent x \<le> x" "x < 2 powi (exponent x + 1)"
    using lo hi by (simp_all add: e not_le)
qed

section \<open>Rounding to a double\<close>

lemma fl_pos_error:
  assumes "0 < x"
  shows "\<bar>fl_pos x - x\<bar> \<le> x / 2 ^ 53"
proof -
  let ?u = "unit_in_last_place x"
  have u: "0 < ?u" by (simp add: unit_in_last_place_def)
  have "fl_pos x - x = (of_int (round_even (x / ?u)) - x / ?u) * ?u"
    using u by (simp add: fl_pos_def field_simps)
  then have "\<bar>fl_pos x - x\<bar> = \<bar>of_int (round_even (x / ?u)) - x / ?u\<bar> * ?u"
    using u by (simp add: abs_mult)
  also have "\<dots> \<le> 1 / 2 * ?u" using u round_even_error by (intro mult_right_mono) simp_all
  also have "\<dots> = 2 powi exponent x / 2 ^ 53"
    by (simp add: unit_in_last_place_def power_int_diff)
  also have "\<dots> \<le> x / 2 ^ 53"
    using exponent_bounds(1) [OF assms] by (intro divide_right_mono) simp_all
  finally show ?thesis .
qed

lemma fl_pos_range:
  assumes "0 < x"
  shows "2 powi exponent x \<le> fl_pos x" and "fl_pos x \<le> 2 powi (exponent x + 1)"
proof -
  let ?u = "unit_in_last_place x"
  have u: "0 < ?u" by (simp add: unit_in_last_place_def)
  have lo: "of_int (2 ^ 52) * ?u = 2 powi exponent x" "of_int (2 ^ 53) * ?u = 2 powi (exponent x + 1)"
    by (simp_all add: unit_in_last_place_def power_int_diff power_int_add)
  have "of_int (2 ^ 52) \<le> x / ?u" "x / ?u \<le> of_int (2 ^ 53)"
    using exponent_bounds [OF assms] u by (simp_all only: pos_le_divide_eq pos_divide_le_eq lo less_imp_le)
  then have "round_even (of_int (2 ^ 52)) \<le> round_even (x / ?u)"
    "round_even (x / ?u) \<le> round_even (of_int (2 ^ 53))"
    using round_even_mono by blast+
  then have "of_int (2 ^ 52) \<le> (of_int (round_even (x / ?u)) :: rat)"
    "of_int (round_even (x / ?u)) \<le> (of_int (2 ^ 53) :: rat)"
    unfolding round_even_int of_int_le_iff by blast+
  then show "2 powi exponent x \<le> fl_pos x" "fl_pos x \<le> 2 powi (exponent x + 1)"
    using u unfolding fl_pos_def lo [symmetric] by (simp_all only: mult_le_cancel_right_pos)
qed

lemma exponent_mono:
  assumes "0 < x" and "x \<le> y"
  shows "exponent x \<le> exponent y"
proof (rule ccontr)
  assume "\<not> exponent x \<le> exponent y"
  then have "2 powi (exponent y + 1) \<le> (2 :: rat) powi exponent x" by (intro two_powi_mono) simp
  then show False
    using exponent_bounds(1) [of x] exponent_bounds(2) [of y] assms by linarith
qed

lemma fl_pos_mono:
  assumes "0 < x" and "x \<le> y"
  shows "fl_pos x \<le> fl_pos y"
proof (cases "exponent x = exponent y")
  case True
  then have "unit_in_last_place x = unit_in_last_place y" by (simp add: unit_in_last_place_def)
  then show ?thesis
    using assms(2) by (auto simp: fl_pos_def unit_in_last_place_def
        intro!: mult_right_mono round_even_mono divide_right_mono)
next
  case False
  then have "2 powi (exponent x + 1) \<le> (2 :: rat) powi exponent y"
    using exponent_mono [OF assms] by (intro two_powi_mono) simp
  then show ?thesis
    using fl_pos_range(2) [of x] fl_pos_range(1) [of y] assms by linarith
qed

lemma fl_pos_positive: "0 < x \<Longrightarrow> 0 < fl_pos x"
  using fl_pos_range(1) [of x] two_powi_pos [of "exponent x"] by linarith

lemma fl_zero [simp]: "fl 0 = 0"
  by (simp add: fl_def)

lemma fl_minus: "fl (- x) = - fl x"
  by (simp add: fl_def)

lemma fl_mono: "x \<le> y \<Longrightarrow> fl x \<le> fl y"
  using fl_pos_mono [of x y] fl_pos_mono [of "- y" "- x"] fl_pos_positive [of y]
    fl_pos_positive [of "- x"]
  by (auto simp: fl_def not_less)

lemma fl_error: "\<bar>fl x - x\<bar> \<le> \<bar>x\<bar> / 2 ^ 53"
  using fl_pos_error [of x] fl_pos_error [of "- x"] by (auto simp: fl_def abs_if split: if_splits)

lemma fl_nonneg: "0 \<le> x \<Longrightarrow> 0 \<le> fl x"
  using fl_mono [of 0 x] by simp

lemma fl_upper:
  assumes "0 \<le> x"
  shows "fl x \<le> x + x / 2 ^ 53" and "fl x \<le> x * (1 + 1 / 2 ^ 53)"
proof -
  have "fl x - x \<le> \<bar>x\<bar> / 2 ^ 53" using fl_error [of x] by (rule order_trans [OF abs_ge_self])
  then show "fl x \<le> x + x / 2 ^ 53" using assms by simp
  then show "fl x \<le> x * (1 + 1 / 2 ^ 53)" by (simp add: distrib_left)
qed

lemma fl_int:
  assumes "\<bar>n\<bar> < 2 ^ 53"
  shows "fl (of_int n) = of_int n"
proof -
  have pos: "fl_pos (of_int m) = of_int m" if m: "0 < m" "m < 2 ^ 53" for m :: int
  proof -
    have "(2 :: rat) powi exponent (of_int m) < 2 powi 53"
      using exponent_bounds(1) [of "of_int m"] m by (simp add: order_le_less_trans)
    then have e: "exponent (of_int m) \<le> 52"
      using two_powi_mono [of 53 "exponent (of_int m)"] by linarith
    define k where "k = nat (52 - exponent (of_int m))"
    have u: "unit_in_last_place (of_int m) = 1 / 2 ^ k"
      using e by (simp add: unit_in_last_place_def k_def power_int_def field_simps)
    have "of_int m / unit_in_last_place (of_int m) = (of_int (m * 2 ^ k) :: rat)" by (simp add: u)
    then show ?thesis unfolding fl_pos_def by (simp only: round_even_int) (simp add: u)
  qed
  show ?thesis
    using pos [of n] pos [of "- n"] assms by (auto simp: fl_def abs_if split: if_splits)
qed

end
