(* ===== verification/RateLimit.thy ===== *)
theory RateLimit
  imports Float64 Go_Strings "HOL-Library.AList"
begin

text \<open>
  The rate limiter of package \<open>internal/middleware\<close> (ratelimit.go): a token bucket per client key
  over double precision numbers, as compiled without fused multiply-add, with idle buckets
  dropped lazily. Times are nanoseconds. Shown: dropping buckets is unobservable, every key
  has a bucket of its own, and what a bucket admits is bounded from below and above,
  rounding included.
\<close>

section \<open>Buckets\<close>

record bucket =
  bkt_tokens :: rat
  bkt_capacity :: rat
  bkt_refill :: rat
  bkt_last :: int

text \<open>\<open>time.Time.Sub\<close> saturates; \<open>Duration.Seconds\<close> adds whole seconds and the fraction.\<close>

definition duration :: "int \<Rightarrow> int \<Rightarrow> int" where
  "duration now past = max min_int64 (min max_int64 (now - past))"

definition whole_seconds :: "int \<Rightarrow> rat" where
  "whole_seconds d =
     fl (fl (of_int (d div 1000000000)) + fl (fl (of_int (d mod 1000000000)) / 1000000000))"

definition seconds :: "int \<Rightarrow> rat" where
  "seconds d = (if d < 0 then - whole_seconds (- d) else whole_seconds d)"

definition minFloat :: "rat \<Rightarrow> rat \<Rightarrow> rat" where
  "minFloat a b = (if a < b then a else b)"

definition allow :: "bucket \<Rightarrow> int \<Rightarrow> bool \<times> bucket" where
  "allow b now =
     (let elapsed = seconds (duration now (bkt_last b));
          tokens = minFloat (bkt_capacity b) (fl (bkt_tokens b + fl (elapsed * bkt_refill b)));
          b = b\<lparr>bkt_tokens := tokens, bkt_last := now\<rparr> in
      if tokens < 1 then (False, b) else (True, b\<lparr>bkt_tokens := fl (tokens - 1)\<rparr>))"

section \<open>The limiter\<close>

record limiter =
  lim_buckets :: "(string \<times> bucket) list"
  lim_capacity :: rat
  lim_refill :: rat
  lim_last_sweep :: int

definition NewRateLimiter :: "rat \<Rightarrow> rat \<Rightarrow> int \<Rightarrow> limiter" where
  "NewRateLimiter capacity refillPerSec now =
     \<lparr>lim_buckets = [], lim_capacity = capacity, lim_refill = refillPerSec, lim_last_sweep = now\<rparr>"

definition hour :: int where "hour = 3600000000000"

definition sweepLocked :: "limiter \<Rightarrow> int \<Rightarrow> limiter" where
  "sweepLocked rl now =
     rl\<lparr>lim_buckets := filter (\<lambda>(key, b). \<not> duration now (bkt_last b) > hour) (lim_buckets rl),
        lim_last_sweep := now\<rparr>"

definition fresh_bucket :: "limiter \<Rightarrow> int \<Rightarrow> bucket" where
  "fresh_bucket rl now = \<lparr>bkt_tokens = lim_capacity rl, bkt_capacity = lim_capacity rl,
     bkt_refill = lim_refill rl, bkt_last = now\<rparr>"

definition Allow :: "limiter \<Rightarrow> string \<Rightarrow> int \<Rightarrow> bool \<times> limiter" where
  "Allow rl key now =
     (let (b, rl) = (case map_of (lim_buckets rl) key of
            Some b \<Rightarrow> (b, rl)
          | None \<Rightarrow> (fresh_bucket rl now,
              if length (lim_buckets rl) \<ge> 10000 then sweepLocked rl now else rl));
          (allowed, b) = allow b now in
      (allowed, rl\<lparr>lim_buckets := AList.update key b (lim_buckets rl)\<rparr>))"

section \<open>Client keys\<close>

definition blank :: "char \<Rightarrow> bool" where
  "blank c \<longleftrightarrow> c = CHR '' '' \<or> c = CHR 0x09"

text \<open>The two loops of \<open>trimSpace\<close>.\<close>

function skip_start :: "string \<Rightarrow> nat \<Rightarrow> nat \<Rightarrow> nat" where
  "skip_start v i j = (if i < j \<and> blank (v ! i) then skip_start v (i + 1) j else i)"
  by pat_completeness auto
termination
  by (relation "measure (\<lambda>(v, i, j). j - i)") auto

function skip_end :: "string \<Rightarrow> nat \<Rightarrow> nat \<Rightarrow> nat" where
  "skip_end v i j = (if j > i \<and> blank (v ! (j - 1)) then skip_end v i (j - 1) else j)"
  by pat_completeness auto
termination
  by (relation "measure (\<lambda>(v, i, j). j)") auto

declare skip_start.simps [simp del] skip_end.simps [simp del]

definition trimSpace :: "string \<Rightarrow> string" where
  "trimSpace v =
     (let i = skip_start v 0 (length v); j = skip_end v i (length v) in take (j - i) (drop i v))"

section \<open>The trimming loops\<close>

lemma skip_start_drop:
  "i \<le> length v \<Longrightarrow> skip_start v i (length v) = length v - length (dropWhile blank (drop i v))
    \<and> i \<le> skip_start v i (length v) \<and> skip_start v i (length v) \<le> length v"
proof (induction v i "length v" rule: skip_start.induct)
  case (1 v i)
  show ?case
  proof (cases "i < length v \<and> blank (v ! i)")
    case True
    then have d: "drop i v = v ! i # drop (i + 1) v" by (simp add: Cons_nth_drop_Suc)
    have "i + 1 \<le> length v" using True by simp
    from 1(1) [OF True this] True show ?thesis by (simp add: d skip_start.simps [of v i])
  next
    case False
    then have "dropWhile blank (drop i v) = drop i v"
      using 1(2) by (cases "i < length v") (simp_all add: Cons_nth_drop_Suc [symmetric])
    with False 1(2) show ?thesis by (auto simp add: skip_start.simps [of v i])
  qed
qed

lemma drop_dropWhile: "drop (length v - length (dropWhile p v)) v = dropWhile p v"
  by (induction v) (auto simp: Suc_diff_le length_dropWhile_le)

lemma skip_end_take:
  "i \<le> j \<Longrightarrow> j \<le> length v \<Longrightarrow>
     take (skip_end v i j - i) (drop i v) = rev (dropWhile blank (rev (take (j - i) (drop i v))))"
proof (induction v i j rule: skip_end.induct)
  case (1 v i j)
  show ?case
  proof (cases "j > i \<and> blank (v ! (j - 1))")
    case True
    then have "j - i = Suc (j - 1 - i)" by linarith
    then have t: "take (j - i) (drop i v) = take (j - 1 - i) (drop i v) @ [v ! (j - 1)]"
      using 1(3) True by (simp add: take_Suc_conv_app_nth)
    have "i \<le> j - 1" "j - 1 \<le> length v" using True 1(3) by linarith+
    from 1(1) [OF True this] True show ?thesis
      by (simp add: t skip_end.simps [of v i j])
  next
    case False
    show ?thesis
    proof (cases "j > i")
      case True
      then have "j - i = Suc (j - 1 - i)" by linarith
      then have "take (j - i) (drop i v) = take (j - 1 - i) (drop i v) @ [v ! (j - 1)]"
        using 1(3) True by (simp add: take_Suc_conv_app_nth)
      with False True show ?thesis by (simp add: skip_end.simps [of v i j])
    qed (use False in \<open>simp add: skip_end.simps [of v i j]\<close>)
  qed
qed

lemma trimSpace_trim: "trimSpace v = trim_set {CHR '' '', CHR 0x09} v"
proof -
  let ?i = "skip_start v 0 (length v)"
  have i: "?i = length v - length (dropWhile blank v)" "?i \<le> length v"
    using skip_start_drop [of 0 v] by simp_all
  have "trimSpace v = rev (dropWhile blank (rev (take (length v - ?i) (drop ?i v))))"
    unfolding trimSpace_def Let_def using skip_end_take [of ?i "length v" v] i(2) by simp
  also have "take (length v - ?i) (drop ?i v) = dropWhile blank v"
    using i(1) drop_dropWhile [of v blank] length_dropWhile_le [of blank v] by simp
  finally show ?thesis
    by (simp add: trim_set_def trim_left_set_def trim_right_set_def blank_def [abs_def])
qed

section \<open>One bucket\<close>

text \<open>
  A bucket of the program: a capacity that is a whole number of tokens, a refill rate that is
  not negative, and between none and all of the tokens.
\<close>

definition bucket_ok :: "int \<Rightarrow> bucket \<Rightarrow> bool" where
  "bucket_ok c b \<longleftrightarrow> bkt_capacity b = of_int c \<and> 1 \<le> c \<and> c < 2 ^ 53 \<and> 0 \<le> bkt_refill b
     \<and> 0 \<le> bkt_tokens b \<and> bkt_tokens b \<le> bkt_capacity b"

lemma duration_nonneg: "p \<le> t \<Longrightarrow> 0 \<le> duration t p \<and> duration t p \<le> t - p"
  by (simp add: duration_def min_int64_def max_int64_def)

lemma duration_bound: "duration t p < 2 ^ 63"
  by (auto simp: duration_def min_int64_def max_int64_def)

lemma whole_seconds_bounds:
  assumes "0 \<le> d" and "d < 2 ^ 63"
  shows "of_int (d div 1000000000) \<le> whole_seconds d"
    and "whole_seconds d \<le> of_int d / 1000000000 * (1 + 1 / 2 ^ 53) ^ 2"
proof -
  let ?s = "d div 1000000000" and ?n = "d mod 1000000000" and ?u = "1 / 2 ^ 53 :: rat"
  have s: "0 \<le> ?s" "?s < 2 ^ 53" using assms by simp_all
  have n: "0 \<le> ?n" "?n < 2 ^ 53" by simp_all
  have fs: "fl (of_int ?s) = of_int ?s" "fl (of_int ?n) = of_int ?n"
    using s n by (simp_all add: fl_int)
  let ?f = "of_int ?n / 1000000000 :: rat"
  have f: "0 \<le> ?f" using n by simp
  have ff: "0 \<le> fl ?f" "fl ?f \<le> ?f * (1 + ?u)"
    using fl_nonneg [OF f] fl_upper(2) [OF f] by simp_all
  have sum: "of_int ?s \<le> of_int ?s + fl ?f" using ff by simp
  have w: "whole_seconds d = fl (of_int ?s + fl ?f)" by (simp add: whole_seconds_def fs)
  show "of_int ?s \<le> whole_seconds d"
    using fl_mono [OF sum] by (simp add: w fs)
  have e: "of_int d = (of_int ?s * 1000000000 + of_int ?n :: rat)"
    by (metis div_mult_mod_eq of_int_add of_int_mult of_int_numeral)
  have "of_int ?s + fl ?f \<le> of_int ?s * (1 + ?u) + ?f * (1 + ?u)"
    using ff(2) s by (simp add: algebra_simps)
  also have "\<dots> = of_int d / 1000000000 * (1 + ?u)" by (simp add: e field_simps)
  finally have x: "of_int ?s + fl ?f \<le> of_int d / 1000000000 * (1 + ?u)" .
  have x0: "0 \<le> of_int ?s + fl ?f" using ff(1) s by simp
  have "fl (of_int ?s + fl ?f) \<le> (of_int ?s + fl ?f) * (1 + ?u)"
    by (rule fl_upper(2) [OF x0])
  also have "\<dots> \<le> of_int d / 1000000000 * (1 + ?u) * (1 + ?u)" by (rule mult_right_mono [OF x]) simp
  finally show "whole_seconds d \<le> of_int d / 1000000000 * (1 + ?u) ^ 2"
    by (simp add: w power2_eq_square mult.assoc)
qed

text \<open>What refilling does to the tokens.\<close>

definition refilled :: "bucket \<Rightarrow> int \<Rightarrow> rat" where
  "refilled b now = minFloat (bkt_capacity b)
     (fl (bkt_tokens b + fl (seconds (duration now (bkt_last b)) * bkt_refill b)))"

lemma allow_refilled:
  "allow b now =
     (let tokens = refilled b now; b' = b\<lparr>bkt_last := now\<rparr> in
      if tokens < 1 then (False, b'\<lparr>bkt_tokens := tokens\<rparr>)
      else (True, b'\<lparr>bkt_tokens := fl (tokens - 1)\<rparr>))"
  by (simp add: allow_def refilled_def Let_def)

abbreviation rate_error :: rat where
  "rate_error \<equiv> (1 + 1 / 2 ^ 53) ^ 3"

lemma seconds_passed:
  assumes "bkt_last b \<le> now"
  shows "0 \<le> seconds (duration now (bkt_last b))"
    and "seconds (duration now (bkt_last b)) \<le> of_int (now - bkt_last b) / 1000000000 * (1 + 1 / 2 ^ 53) ^ 2"
proof -
  let ?d = "duration now (bkt_last b)" and ?u = "1 / 2 ^ 53 :: rat"
  have d: "0 \<le> ?d" "?d \<le> now - bkt_last b" "?d < 2 ^ 63"
    using duration_nonneg [OF assms] duration_bound by auto
  have "(0 :: rat) \<le> of_int (?d div 1000000000)" using d(1) by (simp add: pos_imp_zdiv_nonneg_iff)
  then have e: "0 \<le> seconds ?d" "seconds ?d \<le> of_int ?d / 1000000000 * (1 + ?u) ^ 2"
    using whole_seconds_bounds [OF d(1,3)] d(1) by (auto simp: seconds_def)
  have "of_int ?d / 1000000000 \<le> (of_int (now - bkt_last b) / 1000000000 :: rat)"
    using d(2) by (simp add: divide_right_mono del: of_int_diff)
  then have "of_int ?d / 1000000000 * (1 + ?u) ^ 2 \<le> of_int (now - bkt_last b) / 1000000000 * (1 + ?u) ^ 2"
    by (rule mult_right_mono) simp
  with e show "0 \<le> seconds ?d" "seconds ?d \<le> of_int (now - bkt_last b) / 1000000000 * (1 + ?u) ^ 2"
    by linarith+
qed

text \<open>Capping at the capacity bounds the rounding error of the sum.\<close>

lemma capped_sum:
  assumes "0 \<le> x" and "1 \<le> c"
  shows "minFloat (of_int c) (fl x) \<le> x + of_int c / 2 ^ 53"
proof (cases "x \<le> of_int c")
  case True
  then have "x / 2 ^ 53 \<le> of_int c / 2 ^ 53" by (simp add: divide_right_mono)
  then have "fl x \<le> x + of_int c / 2 ^ 53" using fl_upper(1) [OF assms(1)] by simp
  then show ?thesis by (simp add: minFloat_def)
next
  case False
  have "(0 :: rat) \<le> of_int c / 2 ^ 53" using assms(2) by simp
  with False show ?thesis by (simp add: minFloat_def)
qed

lemma refilled_bounds:
  assumes "bucket_ok c b" and "bkt_last b \<le> now"
  shows "bkt_tokens b \<ge> of_int k \<Longrightarrow> k \<le> c \<Longrightarrow> refilled b now \<ge> of_int k"
    and "0 \<le> refilled b now" and "refilled b now \<le> of_int c"
    and "refilled b now \<le> bkt_tokens b
      + bkt_refill b * (of_int (now - bkt_last b) / 1000000000) * rate_error + of_int c / 2 ^ 53"
proof -
  let ?e = "seconds (duration now (bkt_last b))" and ?r = "bkt_refill b" and ?x = "bkt_tokens b"
  let ?p = "fl (?e * ?r)" and ?u = "1 / 2 ^ 53 :: rat"
  have ok: "bkt_capacity b = of_int c" "1 \<le> c" "c < 2 ^ 53" "0 \<le> ?r" "0 \<le> ?x" "?x \<le> of_int c"
    using assms(1) by (auto simp: bucket_ok_def)
  note e = seconds_passed [OF assms(2)]
  have er: "0 \<le> ?e * ?r" using e(1) ok(4) by simp
  have p: "0 \<le> ?p" "?p \<le> ?e * ?r * (1 + ?u)"
    by (rule fl_nonneg [OF er], rule fl_upper(2) [OF er])
  have refill: "refilled b now = minFloat (of_int c) (fl (?x + ?p))"
    by (simp add: refilled_def ok(1))
  show "refilled b now \<ge> of_int k" if "?x \<ge> of_int k" "k \<le> c"
  proof -
    have m: "of_int (max k 0) \<le> ?x + ?p" using that p(1) ok(5) by (simp add: max_def)
    have "fl (of_int (max k 0)) = of_int (max k 0)" using that(2) ok(2,3) by (intro fl_int) simp
    then have "of_int (max k 0) \<le> fl (?x + ?p)" using fl_mono [OF m] by simp
    moreover have "of_int k \<le> (of_int (max k 0) :: rat)" "(of_int k :: rat) \<le> of_int c"
      using that by simp_all
    ultimately show ?thesis by (auto simp: refill minFloat_def)
  qed
  show "0 \<le> refilled b now"
    using fl_nonneg [of "?x + ?p"] p(1) ok by (simp add: refill minFloat_def)
  show "refilled b now \<le> of_int c" by (simp add: refill minFloat_def)
  have "?e * (?r * (1 + ?u)) \<le> of_int (now - bkt_last b) / 1000000000 * (1 + ?u) ^ 2 * (?r * (1 + ?u))"
    using e(2) ok(4) by (intro mult_right_mono) simp_all
  with p(2) have "?p \<le> ?r * (of_int (now - bkt_last b) / 1000000000) * rate_error"
    by (simp add: power2_eq_square power3_eq_cube mult.assoc mult.left_commute mult.commute)
  moreover have "refilled b now \<le> ?x + ?p + of_int c / 2 ^ 53"
    unfolding refill by (rule capped_sum) (use ok(2,5) p(1) in simp_all)
  ultimately show "refilled b now \<le> ?x + ?r * (of_int (now - bkt_last b) / 1000000000) * rate_error
      + of_int c / 2 ^ 53" by linarith
qed

lemma allow_step:
  assumes "bucket_ok c b" and "bkt_last b \<le> now" and "allow b now = (a, b')"
  shows "bucket_ok c b'" and "bkt_last b' = now" and "bkt_refill b' = bkt_refill b"
    and "of_int (k + 1) \<le> bkt_tokens b \<Longrightarrow> 0 \<le> k \<Longrightarrow> k < c \<Longrightarrow> a \<and> of_int k \<le> bkt_tokens b'"
    and "bkt_tokens b' + (if a then 1 else 0) \<le> bkt_tokens b
      + bkt_refill b * (of_int (now - bkt_last b) / 1000000000) * rate_error + of_int c / 2 ^ 52"
proof -
  let ?t = "refilled b now"
  note r = refilled_bounds [OF assms(1,2)]
  have ok: "bkt_capacity b = of_int c" "1 \<le> c" "c < 2 ^ 53" "0 \<le> bkt_refill b"
    using assms(1) by (auto simp: bucket_ok_def)
  from assms(3) have a: "a \<longleftrightarrow> 1 \<le> ?t"
    and b': "b' = b\<lparr>bkt_last := now, bkt_tokens := if 1 \<le> ?t then fl (?t - 1) else ?t\<rparr>"
    by (auto simp: allow_refilled Let_def split: if_splits)
  have tok: "0 \<le> fl (?t - 1) \<and> fl (?t - 1) \<le> of_int c" if "1 \<le> ?t"
  proof -
    have "fl (?t - 1) \<le> fl (of_int c)" using r(3) by (intro fl_mono) simp
    then show ?thesis using that fl_nonneg [of "?t - 1"] ok by (simp add: fl_int)
  qed
  show "bucket_ok c b'" using ok r(2,3) tok by (simp add: b' bucket_ok_def)
  show "bkt_last b' = now" "bkt_refill b' = bkt_refill b" by (simp_all add: b')
  show "a \<and> of_int k \<le> bkt_tokens b'" if "of_int (k + 1) \<le> bkt_tokens b" "0 \<le> k" "k < c"
  proof -
    have t: "of_int (k + 1) \<le> ?t" using r(1) [OF that(1)] that(3) by simp
    have "fl (of_int k) \<le> fl (?t - 1)" using t by (intro fl_mono) simp
    moreover have "fl (of_int k) = of_int k" using that ok by (intro fl_int) simp
    moreover have "1 \<le> ?t" using t that(2) by simp
    ultimately show ?thesis by (simp add: a b')
  qed
  have c: "of_int c / 2 ^ 52 = (of_int c / 2 ^ 53 + of_int c / 2 ^ 53 :: rat)" by simp
  have "bkt_tokens b' + (if a then 1 else 0) \<le> ?t + of_int c / 2 ^ 53"
  proof (cases "1 \<le> ?t")
    case True
    have "fl (?t - 1) \<le> (?t - 1) + (?t - 1) / 2 ^ 53" using True by (intro fl_upper(1)) simp
    also have "(?t - 1) / 2 ^ 53 \<le> of_int c / 2 ^ 53" using r(3) by (intro divide_right_mono) simp_all
    finally show ?thesis using True by (simp add: a b')
  next
    case False
    then show ?thesis using ok(2) by (simp add: a b')
  qed
  then show "bkt_tokens b' + (if a then 1 else 0) \<le> bkt_tokens b
      + bkt_refill b * (of_int (now - bkt_last b) / 1000000000) * rate_error + of_int c / 2 ^ 52"
    using r(4) unfolding c by linarith
qed

section \<open>A bucket over time\<close>

fun run_bucket :: "bucket \<Rightarrow> int list \<Rightarrow> bool list \<times> bucket" where
  "run_bucket b [] = ([], b)"
| "run_bucket b (t # ts) =
     (case allow b t of (a, b') \<Rightarrow> case run_bucket b' ts of (as, b'') \<Rightarrow> (a # as, b''))"

definition admitted :: "bool list \<Rightarrow> nat" where
  "admitted as = length (filter id as)"

lemma admitted_simps [simp]:
  "admitted [] = 0" "admitted (a # as) = (if a then 1 else 0) + admitted as"
  by (simp_all add: admitted_def)

lemma run_bucket_bound:
  assumes "bucket_ok c b" and "sorted (bkt_last b # ts)"
  shows "of_nat (admitted (fst (run_bucket b ts))) \<le> bkt_tokens b
    + bkt_refill b * (of_int (last (bkt_last b # ts) - bkt_last b) / 1000000000) * rate_error
    + of_nat (length ts) * (of_int c / 2 ^ 52)"
  using assms
proof (induction ts arbitrary: b)
  case Nil
  then show ?case by (simp add: bucket_ok_def)
next
  case (Cons t ts)
  obtain a b' where st: "allow b t = (a, b')" by fastforce
  note step = allow_step [OF Cons.prems(1) _ st]
  have le: "bkt_last b \<le> t" and srt: "sorted (bkt_last b' # ts)"
    using Cons.prems(2) step(2) by auto
  note IH = Cons.IH [OF step(1) [OF le] srt]
  let ?k = "bkt_refill b * rate_error / 1000000000" and ?l = "last (t # ts)"
  have r: "bkt_refill b * (of_int x / 1000000000) * rate_error = ?k * of_int x" for x
    by (simp add: field_simps)
  have split: "?k * of_int (?l - bkt_last b) = ?k * of_int (?l - t) + ?k * of_int (t - bkt_last b)"
  proof -
    have "?l - bkt_last b = (?l - t) + (t - bkt_last b)" by simp
    then show ?thesis by (simp only: of_int_add distrib_left)
  qed
  have len: "of_nat (length (t # ts)) * (of_int c / 2 ^ 52 :: rat) =
      of_int c / 2 ^ 52 + of_nat (length ts) * (of_int c / 2 ^ 52)"
    by (simp add: algebra_simps)
  have l: "last (bkt_last b # t # ts) = ?l" by simp
  have "(of_nat (admitted (fst (run_bucket b (t # ts)))) :: rat) =
      (if a then 1 else 0) + of_nat (admitted (fst (run_bucket b' ts)))"
    by (simp add: st split: prod.split)
  moreover have "of_nat (admitted (fst (run_bucket b' ts))) \<le> bkt_tokens b' + ?k * of_int (?l - t)
      + of_nat (length ts) * (of_int c / 2 ^ 52)"
    using IH le by (simp only: step(2,3) [OF le] r)
  moreover have "bkt_tokens b' + (if a then 1 else 0) \<le> bkt_tokens b + ?k * of_int (t - bkt_last b)
      + of_int c / 2 ^ 52"
    using step(5) [OF le] by (simp only: r)
  ultimately show ?case unfolding l r split len by linarith
qed

lemma run_bucket_burst:
  assumes "bucket_ok c b" and "sorted (bkt_last b # ts)" and "of_int k \<le> bkt_tokens b" and "0 \<le> k"
  shows "list_all id (take (nat k) (fst (run_bucket b ts)))"
  using assms
proof (induction ts arbitrary: b k)
  case (Cons t ts)
  obtain a b' where st: "allow b t = (a, b')" by fastforce
  note step = allow_step [OF Cons.prems(1) _ st]
  have le: "bkt_last b \<le> t" and srt: "sorted (bkt_last b' # ts)"
    using Cons.prems(2) step(2) by auto
  show ?case
  proof (cases "k = 0")
    case False
    then have k: "0 \<le> k - 1" "of_int (k - 1 + 1) \<le> bkt_tokens b" using Cons.prems(3,4) by simp_all
    have "(of_int k :: rat) \<le> of_int c" using Cons.prems(1,3) by (simp add: bucket_ok_def)
    then have "k - 1 < c" by simp
    from step(4) [OF le k(2) k(1) this] have a: "a" "of_int (k - 1) \<le> bkt_tokens b'" by auto
    have "nat k = Suc (nat (k - 1))" using k(1) by simp
    then show ?thesis
      using Cons.IH [OF step(1) [OF le] srt a(2) k(1)] a(1)
      by (cases "run_bucket b' ts") (simp add: st)
  qed simp
qed simp

section \<open>A limiter is a bucket for every key\<close>

text \<open>The requests of a client key among \<open>(key, time)\<close> pairs, and the limiter's run over all.\<close>

fun run_limiter :: "limiter \<Rightarrow> (string \<times> int) list \<Rightarrow> bool list \<times> limiter" where
  "run_limiter rl [] = ([], rl)"
| "run_limiter rl ((k, t) # rs) =
     (case Allow rl k t of (a, rl') \<Rightarrow> case run_limiter rl' rs of (as, rl'') \<Rightarrow> (a # as, rl''))"

definition times_of :: "string \<Rightarrow> (string \<times> int) list \<Rightarrow> int list" where
  "times_of k rs = map snd (filter (\<lambda>r. fst r = k) rs)"

definition answers_to :: "string \<Rightarrow> (string \<times> int) list \<Rightarrow> bool list \<Rightarrow> bool list" where
  "answers_to k rs as = map snd (filter (\<lambda>(r, a). fst r = k) (zip rs as))"

lemma times_of_simps [simp]:
  "times_of k [] = []" "times_of k ((l, t) # rs) = (if l = k then t # times_of k rs else times_of k rs)"
  by (simp_all add: times_of_def)

lemma answers_to_simps [simp]:
  "answers_to k [] as = []"
  "answers_to k ((l, t) # rs) (a # as) =
     (if l = k then a # answers_to k rs as else answers_to k rs as)"
  by (simp_all add: answers_to_def)

text \<open>A refill from empty to full takes at most the hour after which a bucket is dropped.\<close>

definition limiter_ok :: "int \<Rightarrow> limiter \<Rightarrow> bool" where
  "limiter_ok c rl \<longleftrightarrow> lim_capacity rl = of_int c \<and> 1 \<le> c \<and> c < 2 ^ 53 \<and> 0 \<le> lim_refill rl
     \<and> of_int c \<le> 3600 * lim_refill rl \<and> distinct (map fst (lim_buckets rl))"

text \<open>The bucket \<open>b\<close> of \<open>k\<close> is in the limiter, or was dropped after an idle hour.\<close>

definition tracks :: "limiter \<Rightarrow> string \<Rightarrow> bucket \<Rightarrow> int \<Rightarrow> bool" where
  "tracks rl k b now \<longleftrightarrow> bkt_capacity b = lim_capacity rl \<and> bkt_refill b = lim_refill rl
     \<and> bkt_last b \<le> now
     \<and> (map_of (lim_buckets rl) k = Some b
        \<or> map_of (lim_buckets rl) k = None \<and> now - bkt_last b > hour)"

lemma refilled_fresh:
  assumes "limiter_ok c rl"
  shows "refilled (fresh_bucket rl now) now = of_int c"
proof -
  have "fl (of_int c) = of_int c" using assms by (intro fl_int) (simp add: limiter_ok_def)
  then show ?thesis using assms
    by (simp add: refilled_def fresh_bucket_def limiter_ok_def minFloat_def duration_def
        min_int64_def max_int64_def seconds_def whole_seconds_def)
qed

lemma refilled_idle:
  assumes "limiter_ok c rl" and "bucket_ok c b" and "bkt_refill b = lim_refill rl"
    and "now - bkt_last b > hour"
  shows "refilled b now = of_int c"
proof -
  let ?d = "duration now (bkt_last b)"
  have d: "hour < ?d" using assms(4) by (simp add: duration_def hour_def min_int64_def max_int64_def)
  then have d0: "0 \<le> ?d" by (simp add: hour_def)
  have "3600 \<le> ?d div 1000000000" using d by (simp add: hour_def)
  then have "(3600 :: rat) \<le> of_int (?d div 1000000000)" by simp
  then have e: "3600 \<le> seconds ?d"
    using whole_seconds_bounds(1) [OF d0 duration_bound] d0 by (simp add: seconds_def)
  have r: "0 \<le> bkt_refill b" "of_int c \<le> 3600 * bkt_refill b" and c: "1 \<le> c" "c < 2 ^ 53"
    using assms(1,3) by (simp_all add: limiter_ok_def)
  have fc: "fl (of_int c) = of_int c" using c by (intro fl_int) simp
  have "of_int c \<le> seconds ?d * bkt_refill b"
    using mult_right_mono [OF e r(1)] r(2) by linarith
  then have "of_int c \<le> fl (seconds ?d * bkt_refill b)" using fl_mono fc by metis
  then have "of_int c \<le> bkt_tokens b + fl (seconds ?d * bkt_refill b)"
    using assms(2) by (simp add: bucket_ok_def)
  then have "of_int c \<le> fl (bkt_tokens b + fl (seconds ?d * bkt_refill b))" using fl_mono fc by metis
  then show ?thesis
    using assms(2) by (simp add: refilled_def minFloat_def bucket_ok_def)
qed

lemma Allow_own:
  assumes "limiter_ok c rl" and "bucket_ok c b" and "tracks rl k b now"
    and "allow b now = (a, b')"
  shows "\<exists>rl'. Allow rl k now = (a, rl') \<and> map_of (lim_buckets rl') k = Some b'
    \<and> lim_capacity rl' = lim_capacity rl \<and> lim_refill rl' = lim_refill rl"
proof (cases "map_of (lim_buckets rl) k")
  case (Some x)
  with assms(3) have "x = b" by (auto simp: tracks_def)
  with Some assms(4) show ?thesis by (simp add: Allow_def Let_def update_conv')
next
  case None
  with assms(3) have idle: "now - bkt_last b > hour" and p: "bkt_capacity b = lim_capacity rl"
    "bkt_refill b = lim_refill rl" by (auto simp: tracks_def)
  have "refilled (fresh_bucket rl now) now = refilled b now"
    using refilled_fresh [OF assms(1)] refilled_idle [OF assms(1,2) p(2) idle] by simp
  then have "allow (fresh_bucket rl now) now = allow b now"
    using p by (simp add: allow_refilled fresh_bucket_def Let_def)
  then show ?thesis using None assms(4)
    by (simp add: Allow_def Let_def update_conv' sweepLocked_def)
qed

lemma map_of_filter_distinct:
  "distinct (map fst xs) \<Longrightarrow>
   map_of (filter (\<lambda>(k, v). P v) xs) k = (case map_of xs k of Some v \<Rightarrow> if P v then Some v else None | None \<Rightarrow> None)"
proof (induction xs)
  case (Cons x xs)
  then show ?case
    by (cases x) (auto split: option.splits simp: map_of_eq_None_iff image_iff)
qed simp

lemma Allow_ok:
  assumes "limiter_ok c rl"
  shows "limiter_ok c (snd (Allow rl k now))"
proof -
  have "distinct (map fst (lim_buckets (sweepLocked rl now)))"
    using assms by (simp add: limiter_ok_def sweepLocked_def distinct_map_filter)
  then show ?thesis using assms
    by (auto simp: limiter_ok_def Allow_def Let_def sweepLocked_def distinct_update
        split: prod.split option.split)
qed

lemma Allow_other:
  assumes "limiter_ok c rl" and "tracks rl k b t" and "t \<le> now" and "l \<noteq> k"
  shows "tracks (snd (Allow rl l now)) k b now"
proof -
  have d: "duration now (bkt_last b) > hour \<longleftrightarrow> now - bkt_last b > hour"
    by (auto simp: duration_def hour_def min_int64_def max_int64_def)
  have sw: "map_of (lim_buckets (sweepLocked rl now)) k = (case map_of (lim_buckets rl) k of
      Some v \<Rightarrow> if \<not> duration now (bkt_last v) > hour then Some v else None | None \<Rightarrow> None)"
    using assms(1) by (simp add: sweepLocked_def limiter_ok_def map_of_filter_distinct)
  show ?thesis
    using assms d
    by (auto simp: tracks_def Allow_def Let_def update_conv' sw split: option.splits prod.splits)
      (simp_all add: sweepLocked_def)
qed

lemma run_limiter_tracked:
  assumes "limiter_ok c rl" and "bucket_ok c b" and "tracks rl k b t0" and "sorted (t0 # map snd rs)"
  shows "answers_to k rs (fst (run_limiter rl rs)) = fst (run_bucket b (times_of k rs))"
  using assms
proof (induction rs arbitrary: rl b t0)
  case (Cons r rs)
  obtain l t where r: "r = (l, t)" by fastforce
  have le: "t0 \<le> t" and srt: "sorted (t # map snd rs)" using Cons.prems(4) r by auto
  obtain a rl' where al: "Allow rl l t = (a, rl')" by fastforce
  have ok: "limiter_ok c rl'" using Allow_ok [OF Cons.prems(1), of l t] al by simp
  obtain as rl'' where rest: "run_limiter rl' rs = (as, rl'')" by fastforce
  show ?case
  proof (cases "l = k")
    case True
    obtain x b' where st: "allow b t = (x, b')" by fastforce
    have tr: "tracks rl k b t" and bl: "bkt_last b \<le> t"
      using Cons.prems(3) le by (auto simp: tracks_def)
    from Allow_own [OF Cons.prems(1,2) tr st] al True
    have own: "a = x" "map_of (lim_buckets rl') k = Some b'" "lim_capacity rl' = lim_capacity rl"
      "lim_refill rl' = lim_refill rl" by auto
    note step = allow_step [OF Cons.prems(2) bl st]
    have "tracks rl' k b' t"
      using own step(1,2,3) tr Cons.prems(2) by (auto simp: tracks_def bucket_ok_def)
    from Cons.IH [OF ok step(1) this srt] rest own(1) st al True show ?thesis
      by (cases "run_bucket b' (times_of k rs)") (simp add: r)
  next
    case False
    have "tracks rl' k b t" using Allow_other [OF Cons.prems(1,3) le False] al by simp
    from Cons.IH [OF ok Cons.prems(2) this srt] rest al False show ?thesis by (simp add: r)
  qed
qed simp

lemma Allow_unseen_other:
  assumes "map_of (lim_buckets rl) k = None" and "l \<noteq> k"
  shows "map_of (lim_buckets (snd (Allow rl l now))) k = None"
proof -
  have "map_of (lim_buckets (sweepLocked rl now)) k = None"
    using assms(1) by (auto simp: sweepLocked_def map_of_eq_None_iff)
  then show ?thesis
    using assms by (auto simp: Allow_def Let_def update_conv' split: prod.split option.split)
qed

lemma Allow_params:
  "lim_capacity (snd (Allow rl l now)) = lim_capacity rl" "lim_refill (snd (Allow rl l now)) = lim_refill rl"
  by (auto simp: Allow_def Let_def sweepLocked_def split: prod.split option.split)

lemma fresh_bucket_ok: "limiter_ok c rl \<Longrightarrow> bucket_ok c (fresh_bucket rl t)"
  by (simp add: limiter_ok_def bucket_ok_def fresh_bucket_def)

lemma run_limiter_unseen:
  assumes "limiter_ok c rl" and "map_of (lim_buckets rl) k = None" and "sorted (map snd rs)"
  shows "answers_to k rs (fst (run_limiter rl rs)) =
    fst (run_bucket (fresh_bucket rl (hd (times_of k rs))) (times_of k rs))"
  using assms
proof (induction rs arbitrary: rl)
  case (Cons r rs)
  obtain l t where r: "r = (l, t)" by fastforce
  obtain a rl' where al: "Allow rl l t = (a, rl')" by fastforce
  have ok: "limiter_ok c rl'" using Allow_ok [OF Cons.prems(1), of l t] al by simp
  obtain as rl'' where rest: "run_limiter rl' rs = (as, rl'')" by fastforce
  have par: "lim_capacity rl' = lim_capacity rl" "lim_refill rl' = lim_refill rl"
    using Allow_params [of rl l t] al by simp_all
  show ?case
  proof (cases "l = k")
    case True
    let ?b = "fresh_bucket rl t"
    obtain x b' where st: "allow ?b t = (x, b')" by fastforce
    have bl: "bkt_last ?b \<le> t" by (simp add: fresh_bucket_def)
    note step = allow_step [OF fresh_bucket_ok [OF Cons.prems(1)] bl st]
    have own: "a = x" "map_of (lim_buckets rl') k = Some b'"
      using al st Cons.prems(2) True by (auto simp: Allow_def Let_def update_conv' sweepLocked_def)
    have tr: "tracks rl' k b' t"
      using own step(1,2,3) par Cons.prems(1)
      by (simp add: tracks_def bucket_ok_def limiter_ok_def) (simp add: fresh_bucket_def)
    have srt: "sorted (t # map snd rs)" using Cons.prems(3) r by simp
    have "answers_to k rs as = fst (run_bucket b' (times_of k rs))"
      using run_limiter_tracked [OF ok step(1) tr srt] rest by simp
    then show ?thesis using rest own(1) st al True
      by (cases "run_bucket b' (times_of k rs)") (simp add: r)
  next
    case False
    have "map_of (lim_buckets rl') k = None"
      using Allow_unseen_other [OF Cons.prems(2) False, of t] al by simp
    from Cons.IH [OF ok this] Cons.prems(3) rest al False par show ?thesis
      by (simp add: r fresh_bucket_def)
  qed
qed simp

lemma NewRateLimiter_ok:
  "1 \<le> c \<Longrightarrow> c < 2 ^ 53 \<Longrightarrow> 0 \<le> refill \<Longrightarrow> of_int c \<le> 3600 * refill \<Longrightarrow>
   limiter_ok c (NewRateLimiter (of_int c) refill start)"
  by (simp add: limiter_ok_def NewRateLimiter_def)

text \<open>
  C35: Every client key has a bucket of its own. Whatever requests come in, in the order of the
  clock, the limiter answers those of a key exactly as one bucket would that was made full at
  the key's first request and sees no other key; in particular the lazy removal of idle
  buckets, which happens at ten thousand keys, is never noticed.
\<close>

theorem limiter_is_bucket_per_key:
  fixes start :: int and k :: string
  assumes "1 \<le> c" and "c < 2 ^ 53" and "0 \<le> refill" and "of_int c \<le> 3600 * refill"
    and "sorted (map snd rs)"
  defines "rl \<equiv> NewRateLimiter (of_int c) refill start"
  shows "answers_to k rs (fst (run_limiter rl rs)) =
    fst (run_bucket (fresh_bucket rl (hd (times_of k rs))) (times_of k rs))"
  unfolding rl_def
  by (rule run_limiter_unseen [OF NewRateLimiter_ok [OF assms(1-4)] _ assms(5)])
    (simp add: NewRateLimiter_def)

lemma sorted_times_of: "sorted (map snd rs) \<Longrightarrow> sorted (times_of k rs)"
  unfolding times_of_def by (induction rs) auto

text \<open>
  C34: The rate a key can reach. Of the requests of one key the first \<open>capacity\<close> are admitted
  however fast they come, and all in all at most the capacity plus the refill over the time
  between the key's first and last request, up to the rounding of the doubles: a relative
  error of \<open>3 \<cdot> 2 ^ - 53\<close> of the refill and \<open>capacity \<cdot> 2 ^ - 52\<close> tokens for each request made.
\<close>

theorem rate_limit_bounds:
  fixes start :: int and k :: string
  assumes "1 \<le> c" and "c < 2 ^ 53" and "0 \<le> refill" and "of_int c \<le> 3600 * refill"
    and "sorted (map snd rs)"
  defines "rl \<equiv> NewRateLimiter (of_int c) refill start"
  defines "answers \<equiv> answers_to k rs (fst (run_limiter rl rs))" and "ts \<equiv> times_of k rs"
  shows "list_all id (take (nat c) answers)
    \<and> of_nat (admitted answers) \<le> of_int c
      + refill * (of_int (last (hd ts # ts) - hd ts) / 1000000000) * (1 + 1 / 2 ^ 53) ^ 3
      + of_nat (length ts) * (of_int c / 2 ^ 52)"
proof -
  let ?b = "fresh_bucket rl (hd ts)"
  have ok: "limiter_ok c rl" unfolding rl_def by (rule NewRateLimiter_ok [OF assms(1-4)])
  have ans: "answers = fst (run_bucket ?b ts)"
    unfolding answers_def ts_def using run_limiter_unseen [OF ok _ assms(5)]
    by (simp add: rl_def NewRateLimiter_def)
  have b: "bkt_last ?b = hd ts" "bkt_tokens ?b = of_int c" "bkt_refill ?b = refill"
    by (simp_all add: fresh_bucket_def rl_def NewRateLimiter_def)
  have "sorted (hd ts # ts)"
    using sorted_times_of [OF assms(5), of k] unfolding ts_def by (cases "times_of k rs") auto
  then have srt: "sorted (bkt_last ?b # ts)" by (simp only: b)
  have "list_all id (take (nat c) answers)"
    unfolding ans
    by (rule run_bucket_burst [OF fresh_bucket_ok [OF ok] srt]) (use assms(1) b in simp_all)
  moreover have "of_nat (admitted answers) \<le> of_int c
      + refill * (of_int (last (hd ts # ts) - hd ts) / 1000000000) * (1 + 1 / 2 ^ 53) ^ 3
      + of_nat (length ts) * (of_int c / 2 ^ 52)"
    using run_bucket_bound [OF fresh_bucket_ok [OF ok] srt] unfolding ans by (simp only: b)
  ultimately show ?thesis ..
qed

theorem limiter_is_bucket_per_key_witness:
  "answers_to ''a'' [(''a'', 0), (''b'', 5), (''a'', 7)]
     (fst (run_limiter (NewRateLimiter 1 2 0) [(''a'', 0), (''b'', 5), (''a'', 7)])) =
   fst (run_bucket (fresh_bucket (NewRateLimiter 1 2 0) 0) [0, 7])"
  using limiter_is_bucket_per_key [of 1 2 "[(''a'', 0), (''b'', 5), (''a'', 7)]" "''a''" 0] by simp

theorem rate_limit_bounds_witness:
  "list_all id (take 120 (answers_to ''a'' [(''a'', 0), (''b'', 5), (''a'', 1000000000)]
     (fst (run_limiter (NewRateLimiter 120 2 0) [(''a'', 0), (''b'', 5), (''a'', 1000000000)]))))
   \<and> rat_of_nat (admitted (answers_to ''a'' [(''a'', 0), (''b'', 5), (''a'', 1000000000)]
     (fst (run_limiter (NewRateLimiter 120 2 0) [(''a'', 0), (''b'', 5), (''a'', 1000000000)])))) \<le> 123"
proof -
  let ?rs = "[(''a'', 0), (''b'', 5), (''a'', 1000000000)] :: (string \<times> int) list"
  have h: "(1 :: int) \<le> 120" "(120 :: int) < 2 ^ 53" "(0 :: rat) \<le> 2" "of_int 120 \<le> 3600 * (2 :: rat)"
    "sorted (map snd ?rs)" by simp_all
  have t: "times_of ''a'' ?rs = [0, 1000000000]" by simp
  show ?thesis
    using rate_limit_bounds [OF h, of "''a''" 0] unfolding t by (simp add: power3_eq_cube)
qed

end
