(* ===== verification/GitData.thy ===== *)
theory GitData
  imports Exec
begin

text \<open>
  Package \<open>internal/gitdata\<close>: reading repositories through git's plumbing commands. git is the
  command runner of theory Exec; the model is the commands the package runs and the parsing of
  what they print. Shown: the parsers recover the commits and the tree entries that git printed
  in its documented formats.
\<close>

section \<open>Running git (gitdata.go, command.go)\<close>

text \<open>\<open>Repo\<close> is the path of the bare repository.\<close>

definition git_command :: "string \<Rightarrow> string list \<Rightarrow> command" where
  "git_command repo args = plain_command (''git'' # ''--git-dir'' # repo # args)"

definition repo_run :: "'w runner \<Rightarrow> string \<Rightarrow> string list \<Rightarrow> ('w, goerr + string) st" where
  "repo_run run repo args =
     and_then (run (git_command repo args)) (\<lambda>out.
       case out_err out of
         Some err \<Rightarrow> fail (Wrap (''git '' @ join_str '' '' args @ '': '') err
           ('': '' @ trim_space (out_stderr out)))
       | None \<Rightarrow> ok (out_stdout out))"

text \<open>\<open>runBytes\<close> differs from \<open>run\<close> in the Go type of its result only.\<close>

definition runBytes :: "'w runner \<Rightarrow> string \<Rightarrow> string list \<Rightarrow> ('w, goerr + string) st" where
  "runBytes run repo args = repo_run run repo args"

definition error_mentions :: "goerr \<Rightarrow> string list \<Rightarrow> bool" where
  "error_mentions err ws \<longleftrightarrow> list_ex (contains_str (err_text err)) ws"

section \<open>References\<close>

record git_ref =
  ref_name :: string
  ref_hash :: string
  ref_is_tag :: bool

definition nul :: char where "nul = CHR 0x00"

definition parse_ref :: "string \<Rightarrow> git_ref list" where
  "parse_ref line =
     (if line = [] then []
      else case split_n nul 3 line of
        [full, hash, kind] \<Rightarrow>
          [\<lparr>ref_name = trim_prefix (trim_prefix full ''refs/heads/'') ''refs/tags/'', ref_hash = hash,
            ref_is_tag = has_prefix full ''refs/tags/''\<rparr>]
      | _ \<Rightarrow> [])"

definition ListRefs :: "'w runner \<Rightarrow> string \<Rightarrow> ('w, goerr + git_ref list \<times> string) st" where
  "ListRefs run repo =
     on_result (repo_run run repo
         [''for-each-ref'', ''--format=%(refname)%00%(objectname)%00%(objecttype)'', ''refs/heads'',
          ''refs/tags''])
       (\<lambda>err. fail err)
       (\<lambda>output.
         and_then (on_result (repo_run run repo [''symbolic-ref'', ''--short'', ''HEAD''])
             (\<lambda>_. ret []) (\<lambda>head. ret (trim_space head)))
           (\<lambda>headBranch. ok (concat (map parse_ref (split_char newline (trim_space output))), headBranch)))"

section \<open>Trees\<close>

record tree_entry =
  ent_mode :: string
  ent_type :: string
  ent_hash :: string
  ent_path :: string

definition parse_tree_record :: "string \<Rightarrow> tree_entry list" where
  "parse_tree_record record =
     (if record = [] then []
      else case cut (CHR 0x09) record of (meta, name, found) \<Rightarrow>
        if \<not> found then []
        else case go_fields meta of
          mode # kind # hash # _ \<Rightarrow>
            [\<lparr>ent_mode = mode, ent_type = kind, ent_hash = hash, ent_path = name\<rparr>]
        | _ \<Rightarrow> [])"

definition parse_tree :: "string \<Rightarrow> tree_entry list" where
  "parse_tree output = concat (map parse_tree_record (split_char nul output))"

definition ListTree ::
  "'w runner \<Rightarrow> string \<Rightarrow> string \<Rightarrow> string \<Rightarrow> ('w, goerr + tree_entry list) st" where
  "ListTree run repo revision dir =
     (let spec = (if dir \<noteq> [] then revision @ '':'' @ dir else revision) in
      on_result (repo_run run repo [''ls-tree'', ''-z'', spec])
        (\<lambda>err. if error_mentions err [''Not a valid object name'', ''does not exist'']
               then fail (Sentinel Gitdata_ErrNotFound) else fail err)
        (\<lambda>output. ok (parse_tree output)))"

section \<open>Blobs\<close>

text \<open>
  \<open>fmt.Sscanf(s, "%d", &size)\<close> on a trimmed text: an optional sign and the digits up to the first
  other character.
\<close>

definition scan_int64 :: "string \<Rightarrow> goerr + int" where
  "scan_int64 s =
     (case signed_digits s of (neg, t) \<Rightarrow>
       let ds = takeWhile is_digit t in
       if s = [] then Inl (ErrText ''unexpected EOF'')
       else if ds = [] then Inl (ErrText ''expected integer'')
       else case parse_int64 ((if neg then ''-'' else []) @ ds) of
          Inl _ \<Rightarrow> Inl (ErrText (''strconv.ParseInt: parsing '' @ go_quote ds @ '': value out of range''))
        | Inr i \<Rightarrow> Inr i)"

definition max_blob :: int where "max_blob = 1048576"

definition Blob ::
  "'w runner \<Rightarrow> string \<Rightarrow> string \<Rightarrow> string \<Rightarrow> ('w, goerr + string \<times> bool) st" where
  "Blob run repo revision path =
     (let spec = revision @ '':'' @ path in
      on_result (repo_run run repo [''cat-file'', ''-s'', spec])
        (\<lambda>err. if error_mentions err [''Not a valid object name'', ''does not exist'']
               then fail (Sentinel Gitdata_ErrNotFound) else fail err)
        (\<lambda>sizeOutput. case scan_int64 (trim_space sizeOutput) of
            Inl err \<Rightarrow> fail (wrap_err ''parse blob size'' err)
          | Inr n \<Rightarrow>
              if n > max_blob then ok ([], True)
              else on_result (runBytes run repo [''cat-file'', ''blob'', spec])
                (\<lambda>err. fail err)
                (\<lambda>data. ok (data, False))))"

section \<open>History (history.go)\<close>

record git_commit =
  cm_hash :: string
  cm_author :: string
  cm_email :: string
  cm_date :: string
  cm_message :: string
  cm_parents :: "string list"

definition commitFormat :: string where
  "commitFormat = ''%H%x00%an%x00%ae%x00%aI%x00%P%x00%B%x1e''"

definition record_sep :: char where "record_sep = CHR 0x1E"

definition parse_commit :: "string \<Rightarrow> git_commit list" where
  "parse_commit record =
     (let record = trim_left_set {newline} record in
      if trim_space record = [] then []
      else case split_n nul 6 record of
        [hash, author, email, date, parents, message] \<Rightarrow>
          [\<lparr>cm_hash = hash, cm_author = author, cm_email = email, cm_date = date,
            cm_message = trim_right_set {newline} message, cm_parents = go_fields parents\<rparr>]
      | _ \<Rightarrow> [])"

definition parseCommits :: "string \<Rightarrow> git_commit list" where
  "parseCommits output = concat (map parse_commit (split_char record_sep output))"

text \<open>The revision is not used.\<close>

definition ListCommits ::
  "'w runner \<Rightarrow> string \<Rightarrow> string \<Rightarrow> string \<Rightarrow> int \<Rightarrow> ('w, goerr + git_commit list) st" where
  "ListCommits run repo revision path limit =
     (let limit = (if limit \<le> 0 \<or> limit > 200 then 50 else limit);
          args = [''log'', ''--format='' @ commitFormat, ''-n'', int_str limit]
            @ (if path \<noteq> [] then [''--'', path] else []) in
      on_result (repo_run run repo args)
        (\<lambda>err. if error_mentions err [''unknown revision'', ''bad revision'', ''does not have any commits'']
               then fail (Sentinel Gitdata_ErrNotFound) else fail err)
        (\<lambda>output. ok (parseCommits output)))"

definition GetCommit ::
  "'w runner \<Rightarrow> string \<Rightarrow> string \<Rightarrow> ('w, goerr + git_commit \<times> string) st" where
  "GetCommit run repo hash =
     on_result (repo_run run repo [''show'', ''--format='' @ commitFormat, ''--patch'', ''--no-color'', hash])
       (\<lambda>err. if error_mentions err [''unknown revision'', ''bad revision'']
              then fail (Sentinel Gitdata_ErrNotFound) else fail err)
       (\<lambda>output. case cut record_sep output of (header, rest, found) \<Rightarrow>
         if \<not> found then fail (ErrText (''unexpected show output for '' @ hash))
         else case parseCommits (header @ [record_sep]) of
             [] \<Rightarrow> fail (ErrText (''could not parse commit '' @ hash))
           | c # _ \<Rightarrow> ok (c, trim_prefix rest [newline]))"

definition ResolveRev :: "'w runner \<Rightarrow> string \<Rightarrow> string \<Rightarrow> ('w, goerr + string) st" where
  "ResolveRev run repo revision =
     on_result (repo_run run repo [''rev-parse'', ''--verify'', revision @ ''^{commit}''])
       (\<lambda>_. fail (Sentinel Gitdata_ErrNotFound))
       (\<lambda>hash. ok (trim_space hash))"

definition stringsContains :: "string \<Rightarrow> string \<Rightarrow> bool" where
  "stringsContains haystack needle = contains_str haystack needle"

section \<open>What git prints\<close>

text \<open>
  A commit as git holds it, and the placeholders that \<open>git log --format\<close> documents for it, as far as
  the package's format needs them or could confuse them: hash \<open>%H\<close>, parents \<open>%P\<close>, message \<open>%B\<close>;
  author and committer \<open>%an\<close>, \<open>%ae\<close>, \<open>%aI\<close>, \<open>%cn\<close>, \<open>%ce\<close>, \<open>%cI\<close>; a byte \<open>%x00\<close>; a percent
  sign \<open>%%\<close>. \<open>None\<close>: a placeholder that is not among these.
\<close>

record signature =
  sig_name :: string
  sig_email :: string
  sig_date :: string

record git_object =
  obj_hash :: string
  obj_parents :: "string list"
  obj_author :: signature
  obj_committer :: signature
  obj_message :: string

fun expand :: "git_object \<Rightarrow> string \<Rightarrow> string option" where
  "expand c [] = Some []"
| "expand c (x # f) =
     (if x \<noteq> CHR ''%'' then map_option (Cons x) (expand c f)
      else case f of
        [] \<Rightarrow> None
      | k # f1 \<Rightarrow>
         if k = CHR ''H'' then map_option (append (obj_hash c)) (expand c f1)
         else if k = CHR ''P'' then map_option (append (join_str '' '' (obj_parents c))) (expand c f1)
         else if k = CHR ''B'' then map_option (append (obj_message c)) (expand c f1)
         else if k = CHR ''%'' then map_option (Cons k) (expand c f1)
         else (case f1 of
             d # f2 \<Rightarrow>
               if k = CHR ''a'' \<or> k = CHR ''c'' then
                 (let who = (if k = CHR ''a'' then obj_author c else obj_committer c) in
                  if d = CHR ''n'' then map_option (append (sig_name who)) (expand c f2)
                  else if d = CHR ''e'' then map_option (append (sig_email who)) (expand c f2)
                  else if d = CHR ''I'' then map_option (append (sig_date who)) (expand c f2)
                  else None)
               else if k = CHR ''x'' then
                 (case f2 of
                    e # f3 \<Rightarrow> (case (hex_value d, hex_value e) of
                        (Some m, Some n) \<Rightarrow> map_option (Cons (char_of (16 * m + n))) (expand c f3)
                      | _ \<Rightarrow> None)
                  | [] \<Rightarrow> None)
               else None
           | [] \<Rightarrow> None))"

text \<open>What the package is to make of a commit; the newlines that end its message are dropped.\<close>

definition summary :: "git_object \<Rightarrow> git_commit" where
  "summary c = \<lparr>cm_hash = obj_hash c, cm_author = sig_name (obj_author c), cm_email = sig_email (obj_author c),
     cm_date = sig_date (obj_author c), cm_message = trim_right_set {newline} (obj_message c),
     cm_parents = obj_parents c\<rparr>"

text \<open>The text of one commit in the package's format, without the separator that ends it.\<close>

definition log_fields :: "git_object \<Rightarrow> string list" where
  "log_fields c = [obj_hash c, sig_name (obj_author c), sig_email (obj_author c), sig_date (obj_author c),
     join_str '' '' (obj_parents c), obj_message c]"

lemma expand_commitFormat: "expand c commitFormat = Some (join_str [nul] (log_fields c) @ [record_sep])"
proof -
  have "char_of (0 :: nat) = CHR 0x00" "char_of (30 :: nat) = CHR 0x1E" by code_simp+
  then show ?thesis
    by (simp add: commitFormat_def log_fields_def nul_def record_sep_def is_digit_def digit_val_def less_eq_char_def)
qed

text \<open>\<open>--format\<close> ends every commit with a newline.\<close>

definition printed_log :: "string \<Rightarrow> git_object list \<Rightarrow> string" where
  "printed_log fmt cs = concat (map (\<lambda>c. the (expand c fmt) @ [newline]) cs)"

definition object_ok :: "git_object \<Rightarrow> bool" where
  "object_ok c \<longleftrightarrow>
     obj_hash c \<noteq> [] \<and> list_all visible_ascii (obj_hash c)
     \<and> list_all (\<lambda>p. p \<noteq> [] \<and> list_all visible_ascii p) (obj_parents c)
     \<and> list_all (\<lambda>f. nul \<notin> set f \<and> record_sep \<notin> set f)
         [sig_name (obj_author c), sig_email (obj_author c), sig_date (obj_author c)]
     \<and> record_sep \<notin> set (obj_message c)"

lemma visible_no_control:
  "list_all visible_ascii s \<Longrightarrow> c \<in> {nul, newline, record_sep} \<Longrightarrow> c \<notin> set s"
  by (auto simp: list_all_iff visible_ascii_def nul_def newline_def record_sep_def less_eq_char_def)

lemma visible_join_no_control:
  assumes "list_all (\<lambda>p. p \<noteq> [] \<and> list_all visible_ascii p) ps" and "c \<in> {nul, newline, record_sep}"
  shows "c \<notin> set (join_str '' '' ps)"
  using assms
proof (induction "'' ''" ps rule: join_str.induct)
  case (3 s t ss)
  then show ?case using visible_no_control [of s c]
    by (auto simp: nul_def newline_def record_sep_def)
qed (use visible_no_control in auto)

lemma trim_space_visible_prefix:
  assumes "visible_ascii c"
  shows "trim_space (c # s) \<noteq> []"
proof
  assume e: "trim_space (c # s) = []"
  have "dropWhile is_space_rune (runes (c # s)) = [c] # runes s"
    using assms by (simp add: visible_is_ascii visible_not_space)
  then have "concat (rev (dropWhile is_space_rune (rev (runes s) @ [[c]]))) = []"
    using e by (simp add: trim_space_def)
  moreover have "dropWhile is_space_rune (rev (runes s) @ [[c]]) =
      dropWhile is_space_rune (rev (runes s)) @ [[c]]"
    using visible_not_space [OF assms] by (simp add: dropWhile_append dropWhile_eq_Nil_conv) 
  ultimately show False by simp
qed

lemma parse_commit_print:
  assumes "object_ok c"
  shows "parse_commit (replicate k newline @ join_str [nul] (log_fields c)) = [summary c]"
proof -
  let ?fs = "log_fields c"
  have ok: "obj_hash c \<noteq> []" "list_all visible_ascii (obj_hash c)"
    "list_all (\<lambda>p. p \<noteq> [] \<and> list_all visible_ascii p) (obj_parents c)"
    "nul \<notin> set (sig_name (obj_author c))" "nul \<notin> set (sig_email (obj_author c))" "nul \<notin> set (sig_date (obj_author c))"
    using assms by (auto simp: object_ok_def)
  obtain h hs where h: "obj_hash c = h # hs" using ok(1) by (cases "obj_hash c") auto
  have vh: "visible_ascii h" using ok(2) h by simp
  have body: "join_str [nul] ?fs = h # (hs @ nul # join_str [nul] (tl ?fs))"
    by (simp add: h log_fields_def)
  have trim: "trim_left_set {newline} (replicate k newline @ join_str [nul] ?fs) = join_str [nul] ?fs"
  proof -
    have "h \<noteq> newline" using visible_no_control [OF ok(2), of newline] h by auto
    then have "trim_left_set {newline} (h # t) = h # t" for t by simp
    then show ?thesis unfolding body by (induction k) simp_all
  qed
  have ne: "trim_space (join_str [nul] ?fs) \<noteq> []"
    unfolding body by (rule trim_space_visible_prefix [OF vh])
  have split: "split_n nul 6 (join_str [nul] ?fs) = ?fs"
  proof -
    have "\<forall>p\<in>set (butlast ?fs). nul \<notin> set p"
      using ok visible_no_control [OF ok(2), of nul] visible_join_no_control [OF ok(3), of nul]
      by (simp add: log_fields_def)
    then have "split_n nul (Suc 5) (join_str [nul] ?fs) = ?fs" by (intro split_n_join) (simp_all add: log_fields_def)
    moreover have "6 = Suc 5" by simp
    ultimately show ?thesis by (simp only:)
  qed
  have "go_fields (join_str '' '' (obj_parents c)) = obj_parents c"
    using ok(3) by (intro go_fields_join) (auto simp: list_all_iff)
  then show ?thesis
    using ne unfolding parse_commit_def Let_def trim split
    by (simp add: log_fields_def summary_def)
qed

lemma parse_printed_log:
  assumes "list_all object_ok cs"
  shows "parseCommits (replicate k newline @ printed_log commitFormat cs) = map summary cs"
  using assms
proof (induction cs arbitrary: k)
  case Nil
  have "parse_commit (replicate k newline) = []"
    by (induction k) (simp_all add: parse_commit_def trim_left_set_def)
  moreover have "record_sep \<notin> set (replicate k newline)" by (simp add: record_sep_def newline_def)
  ultimately show ?case by (simp add: parseCommits_def printed_log_def split_char_no_sep)
next
  case (Cons c cs)
  let ?body = "join_str [nul] (log_fields c)" and ?rest = "printed_log commitFormat cs"
  have ok: "object_ok c" "list_all object_ok cs" using Cons.prems by simp_all
  have "record_sep \<notin> set (replicate k newline @ ?body)"
    using ok(1) visible_no_control [of "obj_hash c" record_sep]
      visible_join_no_control [of "obj_parents c" record_sep]
    by (auto simp: object_ok_def log_fields_def record_sep_def newline_def nul_def)
  then have "split_char record_sep ((replicate k newline @ ?body) @ record_sep # (replicate 1 newline @ ?rest))
      = (replicate k newline @ ?body) # split_char record_sep (replicate 1 newline @ ?rest)"
    by (rule split_char_append_sep)
  moreover have "replicate k newline @ printed_log commitFormat (c # cs) =
      (replicate k newline @ ?body) @ record_sep # (replicate 1 newline @ ?rest)"
    by (simp add: printed_log_def expand_commitFormat)
  ultimately show ?case
    using Cons.IH [OF ok(2), of 1] parse_commit_print [OF ok(1), of k]
    by (simp only: parseCommits_def list.map concat.simps append_Cons append_Nil)
qed


definition demo_object :: git_object where
  "demo_object = \<lparr>obj_hash = ''c0ffee'', obj_parents = [''ab'', ''cd''],
     obj_author = \<lparr>sig_name = ''Ann Lee'', sig_email = ''ann@x'', sig_date = ''2026-01-01T10:00:00Z''\<rparr>,
     obj_committer = \<lparr>sig_name = ''Bob'', sig_email = ''bob@x'', sig_date = ''2026-01-02T10:00:00Z''\<rparr>,
     obj_message = ''fix'' @ [newline, newline] @ ''body'' @ [newline]\<rparr>"

text \<open>A git with this one commit, which prints it in whatever format it is asked.\<close>

definition demo_log_run :: "unit runner" where
  "demo_log_run cmd s =
     (\<lparr>out_err = None, out_exit = Some 0, out_stdout = printed_log (drop 9 (cmd_args cmd ! 4)) [demo_object],
       out_stderr = [], out_combined = []\<rparr>, s)"


text \<open>\<open>git ls-tree -z\<close>.\<close>

definition print_entry :: "tree_entry \<Rightarrow> string" where
  "print_entry e = join_str '' '' [ent_mode e, ent_type e, ent_hash e] @ CHR 0x09 # ent_path e @ [nul]"

definition git_ls_tree :: "tree_entry list \<Rightarrow> string" where
  "git_ls_tree es = concat (map print_entry es)"

definition entry_ok :: "tree_entry \<Rightarrow> bool" where
  "entry_ok e \<longleftrightarrow> nul \<notin> set (ent_path e)
     \<and> list_all (\<lambda>f. f \<noteq> [] \<and> list_all visible_ascii f) [ent_mode e, ent_type e, ent_hash e]"

lemma tab_not_visible: "list_all visible_ascii s \<Longrightarrow> CHR 0x09 \<notin> set s"
  by (auto simp: list_all_iff visible_ascii_def less_eq_char_def)

lemma parse_tree_record_print:
  assumes "entry_ok e"
  shows "parse_tree_record (join_str '' '' [ent_mode e, ent_type e, ent_hash e] @ CHR 0x09 # ent_path e) = [e]"
    and "nul \<notin> set (join_str '' '' [ent_mode e, ent_type e, ent_hash e] @ CHR 0x09 # ent_path e)"
proof -
  let ?ws = "[ent_mode e, ent_type e, ent_hash e]"
  have ok: "\<forall>p\<in>set ?ws. p \<noteq> [] \<and> list_all visible_ascii p" "nul \<notin> set (ent_path e)"
    using assms by (auto simp: entry_ok_def)
  have tab: "CHR 0x09 \<notin> set (join_str '' '' ?ws)"
    using ok(1) tab_not_visible by simp
  show "parse_tree_record (join_str '' '' ?ws @ CHR 0x09 # ent_path e) = [e]"
    using go_fields_join [OF ok(1)] cut_found [OF tab, of "ent_path e"]
    by (simp add: parse_tree_record_def)
  show "nul \<notin> set (join_str '' '' ?ws @ CHR 0x09 # ent_path e)"
    using ok visible_no_control [of _ nul] by (auto simp: nul_def)
qed

text \<open>
  Tree listings survive git and the parser. Whatever bytes but NUL the file names hold, tabs
  and newlines included, parsing what \<open>git ls-tree -z\<close> prints returns exactly the entries of the
  tree, in order.
\<close>

theorem tree_round_trip:
  assumes "list_all entry_ok es"
  shows "parse_tree (git_ls_tree es) = es"
  using assms
proof (induction es)
  case (Cons e es)
  let ?r = "join_str '' '' [ent_mode e, ent_type e, ent_hash e] @ CHR 0x09 # ent_path e"
  have e: "entry_ok e" "list_all entry_ok es" using Cons.prems by simp_all
  have "git_ls_tree (e # es) = ?r @ nul # git_ls_tree es"
    by (simp add: git_ls_tree_def print_entry_def)
  then have "split_char nul (git_ls_tree (e # es)) = ?r # split_char nul (git_ls_tree es)"
    using split_char_append_sep [OF parse_tree_record_print(2) [OF e(1)]] by simp
  then show ?case
    using Cons.IH [OF e(2)] parse_tree_record_print(1) [OF e(1)]
    by (simp only: parse_tree_def list.map concat.simps append_Cons append_Nil)
qed (simp add: parse_tree_def git_ls_tree_def parse_tree_record_def)

theorem tree_round_trip_witness:
  "parse_tree (git_ls_tree [\<lparr>ent_mode = ''100644'', ent_type = ''blob'', ent_hash = ''ab'',
     ent_path = ''a'' @ [CHR 0x09, newline] @ ''b''\<rparr>]) =
   [\<lparr>ent_mode = ''100644'', ent_type = ''blob'', ent_hash = ''ab'', ent_path = ''a'' @ [CHR 0x09, newline] @ ''b''\<rparr>]"
  by (rule tree_round_trip)
    (simp add: entry_ok_def visible_ascii_def less_eq_char_def nul_def newline_def)

end
