(* ===== verification/Http.thy ===== *)
theory Http
  imports Auth Json
begin

text \<open>
  What the program uses of net/http: incoming requests, the response writer, and handlers that
  may panic. The state \<open>conn\<close> adds to \<open>net\<close> the response of the request being served. A
  request carries what the standard library parses out of it (query, cookies, basic
  authentication, path values, the first JSON value of the bounded body) and the two values the
  program keeps in its context.
\<close>

section \<open>Requests\<close>

record http_req =
  req_method :: string
  req_path :: string
  req_escaped :: string  \<comment> \<open>\<open>URL.EscapedPath()\<close>\<close>
  req_raw_query :: string
  req_query :: "(string \<times> string) list"
  req_header :: "(string \<times> string list) list"
  req_cookies :: "(string \<times> string) list"
  req_basic :: "(string \<times> string) option"
  req_values :: "(string \<times> string) list"
  req_remote :: string
  req_body :: string
  req_json :: "goerr + json"
  req_user :: "user option"
  req_id :: string

definition blank_req :: http_req where
  "blank_req = \<lparr>req_method = ''GET'', req_path = ''/'', req_escaped = ''/'', req_raw_query = [], req_query = [], req_header = [],
     req_cookies = [], req_basic = None, req_values = [], req_remote = ''192.0.2.1:1234'', req_body = [],
     req_json = Inl (ErrText ''EOF''), req_user = None, req_id = []\<rparr>"

definition lookup_text :: "(string \<times> string) list \<Rightarrow> string \<Rightarrow> string" where
  "lookup_text kvs k = (case map_of kvs k of None \<Rightarrow> [] | Some v \<Rightarrow> v)"

definition query_get :: "http_req \<Rightarrow> string \<Rightarrow> string" where
  "query_get r k = lookup_text (req_query r) k"

definition path_value :: "http_req \<Rightarrow> string \<Rightarrow> string" where
  "path_value r k = lookup_text (req_values r) k"

definition first_header :: "(string \<times> string list) list \<Rightarrow> string \<Rightarrow> string" where
  "first_header hs k = (case map_of hs k of Some (v # _) \<Rightarrow> v | _ \<Rightarrow> [])"

definition header_get :: "http_req \<Rightarrow> string \<Rightarrow> string" where
  "header_get r k = first_header (req_header r) k"

text \<open>\<open>net.SplitHostPort\<close>: the host, or \<open>None\<close> for an error.\<close>

definition find_char :: "char \<Rightarrow> string \<Rightarrow> nat option" where
  "find_char c s = (if c \<in> set s then Some (length (takeWhile (\<lambda>d. d \<noteq> c) s)) else None)"

definition split_host_port :: "string \<Rightarrow> (string \<times> string) option" where
  "split_host_port hostport =
     (if CHR '':'' \<notin> set hostport then None
      else
        let port = rev (takeWhile (\<lambda>c. c \<noteq> CHR '':'') (rev hostport));
            i = length hostport - length port - 1 in
        if take 1 hostport = ''['' then
          (case find_char (CHR '']'') hostport of
             None \<Rightarrow> None
           | Some e \<Rightarrow>
               let host = drop 1 (take e hostport) in
               if e + 1 \<noteq> i then None
               else if CHR ''['' \<in> set (drop 1 hostport) \<or> CHR '']'' \<in> set (drop (e + 1) hostport) then None
               else Some (host, port))
        else
          let host = take i hostport in
          if CHR '':'' \<in> set host then None
          else if CHR ''['' \<in> set hostport \<or> CHR '']'' \<in> set hostport then None
          else Some (host, port))"

text \<open>\<open>cleanPath\<close> of net/http: a request whose path is not of this form is redirected.\<close>

definition mux_clean_path :: "string \<Rightarrow> string" where
  "mux_clean_path p =
     (if p = [] then [slash]
      else let q = (if is_rooted p then p else slash # p); np = path_clean q in
        if has_suffix q [slash] \<and> np \<noteq> [slash] then np @ [slash] else np)"

lemma mux_clean_parts:
  assumes "mux_clean_path p = p"
  obtains cs trail where "\<forall>c\<in>set cs. plain_component c" "trail = [] \<or> trail = [slash] \<and> cs \<noteq> []"
    "p = slash # join_str [slash] cs @ trail"
proof -
  have "is_rooted p"
  proof (rule ccontr)
    assume "\<not> is_rooted p"
    moreover have "is_rooted (slash # p)" by (simp add: is_rooted_def has_prefix_def)
    ultimately have "is_rooted (mux_clean_path p)"
      by (simp add: mux_clean_path_def Let_def path_clean_rooted is_rooted_def has_prefix_def)
    then show False using \<open>\<not> is_rooted p\<close> assms by simp
  qed
  then have p: "path_clean p = slash # join_str [slash] (clean_components True p)" "p \<noteq> []"
    by (auto simp: path_clean_rooted is_rooted_def has_prefix_def)
  have plain: "\<forall>c\<in>set (clean_components True p). plain_component c"
    using clean_components_plain by blast
  show thesis
  proof (cases "has_suffix p [slash] \<and> path_clean p \<noteq> [slash]")
    case True
    with assms p \<open>is_rooted p\<close> have "p = slash # join_str [slash] (clean_components True p) @ [slash]"
      by (simp add: mux_clean_path_def Let_def)
    moreover have "clean_components True p \<noteq> []" using True p by auto
    ultimately show ?thesis using that plain by blast
  next
    case False
    with assms p \<open>is_rooted p\<close> have "p = slash # join_str [slash] (clean_components True p) @ []"
      by (simp add: mux_clean_path_def Let_def split: if_splits)
    then show ?thesis using that plain by blast
  qed
qed

section \<open>Responses\<close>

record conn = net +
  rw_header :: "(string \<times> string list) list"
  rw_status :: "int option"
  rw_sent :: "(string \<times> string list) list"
  rw_body :: string

datatype flow = Finished | Panicked

type_synonym 'w handler = "http_req \<Rightarrow> ('w, flow) st"

definition set_header :: "string \<Rightarrow> string \<Rightarrow> ('z conn_scheme, unit) st" where
  "set_header k v = modify_state (\<lambda>s. s\<lparr>rw_header := AList.update k [v] (rw_header s)\<rparr>)"

definition add_header :: "string \<Rightarrow> string \<Rightarrow> ('z conn_scheme, unit) st" where
  "add_header k v = modify_state (\<lambda>s. s\<lparr>rw_header := AList.update k
     ((case map_of (rw_header s) k of None \<Rightarrow> [] | Some vs \<Rightarrow> vs) @ [v]) (rw_header s)\<rparr>)"

definition del_header :: "string \<Rightarrow> ('z conn_scheme, unit) st" where
  "del_header k = modify_state (\<lambda>s. s\<lparr>rw_header := AList.delete k (rw_header s)\<rparr>)"

text \<open>
  \<open>WriteHeader\<close>: only the first final status counts, an informational one is sent apart, and a
  code that is no three-digit number panics.
\<close>

definition write_header :: "int \<Rightarrow> ('z conn_scheme, flow) st" where
  "write_header code = (\<lambda>s.
     if rw_status s \<noteq> None then (Finished, s)
     else if code < 100 \<or> code > 999 then (Panicked, s)
     else if code < 200 \<and> code \<noteq> 101 then (Finished, s)
     else (Finished, s\<lparr>rw_status := Some code, rw_sent := rw_header s\<rparr>))"

definition body_allowed :: "int \<Rightarrow> bool" where
  "body_allowed code \<longleftrightarrow> code \<ge> 200 \<and> code \<noteq> 204 \<and> code \<noteq> 304"

definition write_body :: "string \<Rightarrow> ('z conn_scheme, unit) st" where
  "write_body data = discard_result (write_header 200)
     (modify_state (\<lambda>s. case rw_status s of
        Some code \<Rightarrow> if body_allowed code then s\<lparr>rw_body := rw_body s @ data\<rparr> else s
      | None \<Rightarrow> s))"

text \<open>\<open>f\<close> and then \<open>k\<close>, unless \<open>f\<close> panicked.\<close>

definition unless_panic :: "('w, flow) st \<Rightarrow> ('w, flow) st \<Rightarrow> ('w, flow) st" where
  "unless_panic f k = and_then f (\<lambda>r. case r of Panicked \<Rightarrow> ret Panicked | Finished \<Rightarrow> k)"

definition respond :: "int \<Rightarrow> string \<Rightarrow> ('z conn_scheme, flow) st" where
  "respond code data = unless_panic (write_header code)
     (discard_result (write_body data) (ret Finished))"

definition http_error :: "string \<Rightarrow> int \<Rightarrow> ('z conn_scheme, flow) st" where
  "http_error msg code =
     discard_result (del_header ''Content-Length'')
       (discard_result (set_header ''Content-Type'' ''text/plain; charset=utf-8'')
         (discard_result (set_header ''X-Content-Type-Options'' ''nosniff'')
           (respond code (msg @ [CHR 0x0A]))))"

text \<open>The response of a request that was not answered yet.\<close>

definition unanswered :: "'z conn_scheme \<Rightarrow> bool" where
  "unanswered s \<longleftrightarrow> rw_header s = [] \<and> rw_status s = None \<and> rw_sent s = [] \<and> rw_body s = []"

definition empty_conn :: conn where
  "empty_conn = net.extend empty_net \<lparr>rw_header = [], rw_status = None, rw_sent = [], rw_body = []\<rparr>"

text \<open>The header as it was sent.\<close>

definition sent_header :: "'z conn_scheme \<Rightarrow> string \<Rightarrow> string" where
  "sent_header s k = first_header (rw_sent s) k"

section \<open>Steps of the response writer\<close>

lemma steps_modify: "(\<And>s. R s (f s)) \<Longrightarrow> steps R (modify_state f)"
  by (simp add: steps_def)

end
