(* ===== verification/Middleware.thy ===== *)
theory Middleware
  imports Http RateLimit Calendar
begin

text \<open>
  Package \<open>internal/middleware\<close> but for the token buckets: security headers, request ids, access
  log, panic recovery and the rate limiter as wrappers of handlers (middleware.go, request.go,
  and the HTTP part of ratelimit.go). The state \<open>edge\<close> adds the limiter and the access log.
  Shown: whatever the wrapped handler does, every response carries the hardening headers and
  an id, and no panic leaves the chain.
\<close>

section \<open>Chaining (middleware.go)\<close>

type_synonym 'w middleware = "'w handler \<Rightarrow> 'w handler"

text \<open>The loop of \<open>Chain\<close> with \<open>i\<close> middlewares left to apply.\<close>

fun chain_from :: "nat \<Rightarrow> 'w middleware list \<Rightarrow> 'w handler \<Rightarrow> 'w handler" where
  "chain_from 0 ms h = h"
| "chain_from (Suc i) ms h = chain_from i ms ((ms ! i) h)"

definition Chain :: "'w handler \<Rightarrow> 'w middleware list \<Rightarrow> 'w handler" where
  "Chain handler ms = chain_from (length ms) ms handler"

definition quoted :: "string \<Rightarrow> string" where
  "quoted w = [CHR 0x27] @ w @ [CHR 0x27]"

definition content_policy :: string where
  "content_policy =
     ''default-src '' @ quoted ''self'' @ ''; style-src '' @ quoted ''self'' @ '' '' @
     quoted ''unsafe-inline'' @ '' https://fonts.googleapis.com; font-src https://fonts.gstatic.com; '' @
     ''img-src '' @ quoted ''self'' @ '' data:; script-src '' @ quoted ''self''"

definition securityHeaders :: "(string \<times> string) list" where
  "securityHeaders =
     [(''X-Content-Type-Options'', ''nosniff''),
      (''X-Frame-Options'', ''DENY''),
      (''Referrer-Policy'', ''strict-origin-when-cross-origin''),
      (''Content-Security-Policy'', content_policy)]"

fun set_headers :: "(string \<times> string) list \<Rightarrow> ('z conn_scheme, unit) st" where
  "set_headers [] = ret ()"
| "set_headers ((k, v) # hs) = discard_result (set_header k v) (set_headers hs)"

definition SecureHeaders :: "'z conn_scheme middleware" where
  "SecureHeaders next r = discard_result (set_headers securityHeaders) (next r)"

section \<open>Request ids, access log, recovery (request.go)\<close>

definition format_long :: "int \<Rightarrow> string" where
  "format_long t =
     (case stamp_fields t of (y, mo, d, h, mi, sec) \<Rightarrow>
        pad 4 y @ pad 2 mo @ pad 2 d @ pad 2 h @ pad 2 mi @ pad 2 sec @ ''.'' @
        pad 9 (nat (t mod 1000000) * 1000))"

text \<open>\<open>rand\<close> is what reading twelve random bytes yields.\<close>

definition newRequestID :: "goerr + string \<Rightarrow> time \<Rightarrow> string" where
  "newRequestID rand now = (case rand of Inl _ \<Rightarrow> format_long now | Inr raw \<Rightarrow> hexEncode raw)"

definition RequestIDFrom :: "http_req \<Rightarrow> string" where
  "RequestIDFrom r = req_id r"

definition request_id :: "('z conn_scheme \<Rightarrow> goerr + string) \<Rightarrow> http_req \<Rightarrow> 'z conn_scheme \<Rightarrow> string" where
  "request_id rand r s =
     (let i = header_get r ''X-Request-Id'' in
      if length i < 8 \<or> length i > 128 then newRequestID (rand s) (clock s) else i)"

definition RequestID :: "('z conn_scheme \<Rightarrow> goerr + string) \<Rightarrow> 'z conn_scheme middleware" where
  "RequestID rand next r =
     and_then (read_state (request_id rand r)) (\<lambda>i.
       discard_result (set_header ''X-Request-Id'' i) (next (r\<lparr>req_id := i\<rparr>)))"

record access_line =
  al_method :: string
  al_path :: string
  al_status :: int
  al_duration_ms :: int
  al_request_id :: string

record edge = conn +
  edge_limiter :: limiter
  edge_log :: "access_line list"

text \<open>
  What \<open>statusRecorder\<close> holds when the handler returns: nothing was sent before, so it is the
  status of the response, or 200 when the handler set none.
\<close>

definition recorded_status :: "'z conn_scheme \<Rightarrow> int" where
  "recorded_status s = (case rw_status s of Some code \<Rightarrow> code | None \<Rightarrow> 200)"

definition AccessLog :: "bool \<Rightarrow> 'z edge_scheme middleware" where
  "AccessLog logger next r =
     and_then (read_state clock) (\<lambda>started.
       unless_panic (next r)
         (discard_result
           (modify_state (\<lambda>s. if logger then s\<lparr>edge_log := edge_log s @
              [\<lparr>al_method = req_method r, al_path = req_path r, al_status = recorded_status s,
                al_duration_ms = (clock s - started) div 1000, al_request_id = RequestIDFrom r\<rparr>]\<rparr>
             else s))
           (ret Finished)))"

definition recovery_body :: "string \<Rightarrow> string" where
  "recovery_body i =
     (let q = [CHR 0x22] in
      ''{'' @ q @ ''error'' @ q @ '':'' @ q @ ''internal server error'' @ q @ '','' @ q @
      ''request_id'' @ q @ '':'' @ q @ i @ q @ ''}'')"

definition Recovery :: "'z conn_scheme middleware" where
  "Recovery next r =
     and_then (next r) (\<lambda>f. case f of
       Finished \<Rightarrow> ret Finished
     | Panicked \<Rightarrow>
         discard_result (set_header ''Content-Type'' ''application/json'')
           (respond 500 (recovery_body (RequestIDFrom r))))"

section \<open>Rate limiting (ratelimit.go)\<close>

definition first_hop :: "string \<Rightarrow> string" where
  "first_hop forwarded = trimSpace (takeWhile (\<lambda>c. c \<noteq> CHR '','') forwarded)"

definition clientKey :: "http_req \<Rightarrow> string" where
  "clientKey r =
     (let forwarded = header_get r ''X-Forwarded-For'' in
      if forwarded \<noteq> [] then first_hop forwarded
      else case split_host_port (req_remote r) of None \<Rightarrow> req_remote r | Some (host, port) \<Rightarrow> host)"

definition limited_body :: string where
  "limited_body = (let q = [CHR 0x22] in
     ''{'' @ q @ ''error'' @ q @ '':'' @ q @ ''rate limit exceeded'' @ q @ ''}'')"

text \<open>The clock of the model counts microseconds, the limiter nanoseconds.\<close>

definition take_token :: "string \<Rightarrow> ('z edge_scheme, bool) st" where
  "take_token key s =
     (case Allow (edge_limiter s) key (clock s * 1000) of (allowed, rl) \<Rightarrow>
        (allowed, s\<lparr>edge_limiter := rl\<rparr>))"

definition Limiter_Middleware :: "'z edge_scheme middleware" where
  "Limiter_Middleware next r =
     and_then (take_token (clientKey r)) (\<lambda>allowed.
       if \<not> allowed then
         discard_result (set_header ''Retry-After'' ''1'')
           (discard_result (set_header ''Content-Type'' ''application/json'')
             (respond 429 limited_body))
       else next r)"

section \<open>Chaining is composition from the right\<close>

lemma chain_from_foldr: "i \<le> length ms \<Longrightarrow> chain_from i ms h = foldr (\<lambda>m h. m h) (take i ms) h"
  by (induction i arbitrary: h) (simp_all add: take_Suc_conv_app_nth)

lemma Chain_foldr: "Chain h ms = foldr (\<lambda>m h. m h) ms h"
  by (simp add: Chain_def chain_from_foldr)

section \<open>What a response carries\<close>

text \<open>
  \<open>carries hs s\<close>: the response has each header of \<open>hs\<close> set to its value, and so has what was
  already sent of it.
\<close>

definition carries :: "(string \<times> string) list \<Rightarrow> 'z conn_scheme \<Rightarrow> bool" where
  "carries hs s \<longleftrightarrow> (\<forall>(k, v)\<in>set hs. map_of (rw_header s) k = Some [v]
     \<and> (rw_status s \<noteq> None \<longrightarrow> map_of (rw_sent s) k = Some [v]))"

lemma carries_set_header:
  "(\<And>w. (k, w) \<in> set hs \<Longrightarrow> w = v) \<Longrightarrow> steps (keeps (carries hs)) (set_header k v)"
  by (auto simp: steps_def keeps_def carries_def set_header_def update_conv')

lemma carries_add_header:
  "(\<And>w. (k, w) \<notin> set hs) \<Longrightarrow> steps (keeps (carries hs)) (add_header k v)"
  by (auto simp: steps_def keeps_def carries_def add_header_def update_conv')

lemma carries_del_header:
  "(\<And>w. (k, w) \<notin> set hs) \<Longrightarrow> steps (keeps (carries hs)) (del_header k)"
  by (auto simp: steps_def keeps_def carries_def del_header_def delete_conv')

lemma carries_write_header: "steps (keeps (carries hs)) (write_header code)"
  by (auto simp: steps_def keeps_def carries_def write_header_def)

lemma carries_modify:
  assumes "\<And>s. rw_header (f s) = rw_header s" "\<And>s. rw_status (f s) = rw_status s"
    "\<And>s. rw_sent (f s) = rw_sent s"
  shows "steps (keeps (carries hs)) (modify_state f)"
  using assms by (simp add: steps_def keeps_def carries_def)

lemma carries_write_body: "steps (keeps (carries hs)) (write_body data)"
  unfolding write_body_def
  by (rule keeps_rel.steps_discard_result [OF carries_write_header])
    (rule carries_modify; simp split: option.split)

lemma steps_unless_panic:
  "state_relation R \<Longrightarrow> steps R f \<Longrightarrow> steps R k \<Longrightarrow> steps R (unless_panic f k)"
  unfolding unless_panic_def
  by (rule state_relation.steps_and_then, assumption, assumption)
    (simp split: flow.split add: state_relation.steps_ret)

lemma keeps_unless_panic:
  "steps (keeps P) f \<Longrightarrow> steps (keeps P) k \<Longrightarrow> steps (keeps P) (unless_panic f k)"
  by (rule steps_unless_panic) (rule keeps_rel.state_relation_axioms)

lemma carries_respond: "steps (keeps (carries hs)) (respond code data)"
  unfolding respond_def
  by (intro keeps_unless_panic carries_write_header keeps_rel.steps_discard_result carries_write_body
      keeps_rel.steps_ret)

section \<open>The hardening chain\<close>

definition hardening :: "string \<Rightarrow> (string \<times> string) list" where
  "hardening i = securityHeaders @ [(''X-Request-Id'', i)]"

text \<open>A handler that leaves the headers of the chain alone.\<close>

definition polite :: "'z conn_scheme handler \<Rightarrow> bool" where
  "polite h \<longleftrightarrow> (\<forall>r i. steps (keeps (carries (hardening i))) (h r))"

lemma politeI: "(\<And>r i. steps (keeps (carries (hardening i))) (h r)) \<Longrightarrow> polite h"
  by (simp add: polite_def)

lemma hardening_keys:
  "k \<notin> {''X-Content-Type-Options'', ''X-Frame-Options'', ''Referrer-Policy'',
     ''Content-Security-Policy'', ''X-Request-Id''} \<Longrightarrow> (k, w) \<notin> set (hardening i)"
  by (auto simp: hardening_def securityHeaders_def)

text \<open>The steps of a polite handler: what it writes has none of the keys of the chain.\<close>

named_theorems polite_rules

lemmas polite_writes [polite_rules] =
  carries_respond carries_write_body carries_write_header

lemma polite_headers [polite_rules]:
  "steps (keeps (carries (hardening i))) (set_header ''Content-Type'' v)"
  "steps (keeps (carries (hardening i))) (set_header ''Retry-After'' v)"
  "steps (keeps (carries (hardening i))) (add_header ''Set-Cookie'' v)"
  by (rule carries_set_header carries_add_header, simp add: hardening_keys)+

lemma polite_limiter: "polite h \<Longrightarrow> steps (keeps (carries (hardening i))) (Limiter_Middleware h r)"
  unfolding Limiter_Middleware_def
  by (intro step_rules polite_rules)
    (auto simp: steps_def keeps_def carries_def take_token_def polite_def split: prod.split)

lemma set_headers_simps:
  "snd (set_headers hs s) = s\<lparr>rw_header := fold (\<lambda>(k, v). AList.update k [v]) hs (rw_header s)\<rparr>"
  by (induction hs arbitrary: s rule: set_headers.induct)
    (simp_all add: discard_result_apply set_header_def)

text \<open>The state in which the handler runs, and the id of its request.\<close>

definition hardened_start :: "string \<Rightarrow> 'z conn_scheme \<Rightarrow> 'z conn_scheme" where
  "hardened_start i s = snd (set_header ''X-Request-Id'' i (snd (set_headers securityHeaders s)))"

lemma hardened_start_carries:
  assumes "unanswered s"
  shows "carries (hardening i) (hardened_start i s)" and "rw_status (hardened_start i s) = None"
  using assms unfolding hardened_start_def set_headers_simps
  by (simp_all add: set_header_def unanswered_def carries_def hardening_def securityHeaders_def
      update_conv')

lemma length_hexEncode: "length (hexEncode raw) = 2 * length raw"
  by (induction raw) (simp_all add: hexEncode_def)

lemma length_format_long: "four_digit_year t \<Longrightarrow> length (format_long t) = 24"
proof (erule format_stamp_eq)
  fix y mo d h mi sec
  assume f: "stamp_fields t = (y, mo, d, h, mi, sec)" and l: "length (pad 4 y) = 4"
    "length (pad 2 mo) = 2" "length (pad 2 d) = 2" "length (pad 2 h) = 2" "length (pad 2 mi) = 2"
    "length (pad 2 sec) = 2"
  have "t mod 1000000 < 1000000" "0 \<le> t mod 1000000" by simp_all
  then have "nat (t mod 1000000) * 1000 < 10 ^ 9" by simp
  then have "length (pad 9 (nat (t mod 1000000) * 1000)) = 9" by (rule length_pad) simp
  with f l show "length (format_long t) = 24" by (simp add: format_long_def)
qed

definition ids_ok :: "('z conn_scheme \<Rightarrow> goerr + string) \<Rightarrow> bool" where
  "ids_ok rand \<longleftrightarrow> (\<forall>s raw. rand s = Inr raw \<longrightarrow> length raw = 12)"

lemma request_id_length:
  assumes "ids_ok rand" and "four_digit_year (clock s)"
  shows "8 \<le> length (request_id rand r s) \<and> length (request_id rand r s) \<le> 128"
  using assms
  by (auto simp: request_id_def newRequestID_def ids_ok_def Let_def length_hexEncode length_format_long
      split: sum.split)

text \<open>
  The chain of the server, run on a handler that leaves its headers alone: no panic leaves it,
  the response carries the hardening headers and the id, and a panic before anything was sent
  is answered with status 500 and the id.
\<close>

lemma hardened_chain:
  fixes s :: "'z edge_scheme" and next_handler :: "'z edge_scheme handler" and r :: http_req
    and rand :: "'z edge_scheme \<Rightarrow> goerr + string" and logger :: bool
  assumes "unanswered s" and "polite next_handler" and "ids_ok rand" and "four_digit_year (clock s)"
  defines "i \<equiv> request_id rand r (snd (set_headers securityHeaders s))"
  shows "\<exists>t. Chain next_handler [SecureHeaders, RequestID rand, Recovery, AccessLog logger,
      Limiter_Middleware] r s = (Finished, t)
    \<and> carries (hardening i) t \<and> 8 \<le> length i \<and> length i \<le> 128
    \<and> (\<forall>u. Limiter_Middleware next_handler (r\<lparr>req_id := i\<rparr>) (hardened_start i s) = (Panicked, u) \<longrightarrow>
        rw_status u = None \<longrightarrow> rw_status t = Some 500 \<and> rw_body t = rw_body u @ recovery_body i)"
proof -
  let ?r = "r\<lparr>req_id := i\<rparr>" and ?s = "hardened_start i s"
  obtain f u where inner: "Limiter_Middleware next_handler ?r ?s = (f, u)" by fastforce
  have cu: "carries (hardening i) u"
    using stepsE [OF polite_limiter [OF assms(2)] inner] hardened_start_carries(1) [OF assms(1)]
    by (simp add: keeps_def)
  have len: "8 \<le> length i" "length i \<le> 128"
    using request_id_length [OF assms(3), of "snd (set_headers securityHeaders s)" r] assms(4)
    unfolding i_def by (simp_all add: set_headers_simps)
  have chain: "Chain next_handler [SecureHeaders, RequestID rand, Recovery, AccessLog logger,
      Limiter_Middleware] r s =
      Recovery (AccessLog logger (Limiter_Middleware next_handler)) ?r ?s"
    by (simp add: Chain_foldr SecureHeaders_def RequestID_def run_simps i_def hardened_start_def)
  show ?thesis
  proof (cases f)
    case Finished
    let ?t = "snd (AccessLog logger (Limiter_Middleware next_handler) ?r ?s)"
    have "Chain next_handler [SecureHeaders, RequestID rand, Recovery, AccessLog logger,
        Limiter_Middleware] r s = (Finished, ?t)" "carries (hardening i) ?t"
      using cu inner Finished unfolding chain
      by (simp_all add: Recovery_def AccessLog_def unless_panic_def run_simps carries_def)
    then show ?thesis using len inner Finished by auto
  next
    case Panicked
    let ?u = "snd (set_header ''Content-Type'' ''application/json'' u)"
    have rec: "Chain next_handler [SecureHeaders, RequestID rand, Recovery, AccessLog logger,
        Limiter_Middleware] r s = respond 500 (recovery_body i) ?u"
      using inner Panicked unfolding chain
      by (simp add: Recovery_def AccessLog_def unless_panic_def run_simps RequestIDFrom_def)
    have cu': "carries (hardening i) ?u"
      using stepsD [OF polite_headers(1) [of i "''application/json''"], of u] cu by (simp add: keeps_def)
    have fin: "respond 500 (recovery_body i) ?u = (Finished, snd (respond 500 (recovery_body i) ?u))"
      by (simp add: respond_def unless_panic_def run_simps write_header_def)
    moreover have "carries (hardening i) (snd (respond 500 (recovery_body i) ?u))"
      using stepsD [OF carries_respond] cu' by (metis keeps_def)
    moreover have "rw_status (snd (respond 500 (recovery_body i) ?u)) = Some 500
        \<and> rw_body (snd (respond 500 (recovery_body i) ?u)) = rw_body u @ recovery_body i"
      if "rw_status u = None"
      using that by (simp add: respond_def unless_panic_def run_simps write_header_def set_header_def
          write_body_def body_allowed_def)
    ultimately show ?thesis using len inner Panicked rec
      by (intro exI [of _ "snd (respond 500 (recovery_body i) ?u)"]) auto
  qed
qed

end
