(* ===== verification/GitServe.thy ===== *)
theory GitServe
  imports Http Exec
begin

text \<open>
  Package \<open>internal/gitserve\<close>: the authentication wrapper of the git endpoints (auth.go, bridge.go)
  and the handler that runs \<open>git http-backend\<close> as a CGI program (handler.go, cgi.go). What the
  program answers is a parameter. Shown: the repository a request reaches is the one the access
  check was asked about, and a CGI answer arrives unchanged.
\<close>

section \<open>The wrapper (auth.go, bridge.go)\<close>

datatype access = AccessRead | AccessWrite

record 'w authorizer =
  az_authenticate :: "string \<Rightarrow> string \<Rightarrow> ('w, goerr + int) st"
  az_check_access :: "int \<Rightarrow> string \<Rightarrow> string \<Rightarrow> access \<Rightarrow> ('w, goerr + unit) st"

definition wantsWrite :: "http_req \<Rightarrow> bool" where
  "wantsWrite r =
     (if req_method r \<noteq> ''POST'' then False
      else query_get r ''service'' = ''git-receive-pack'')"

definition parseOwnerRepo :: "string \<Rightarrow> string \<times> string" where
  "parseOwnerRepo p =
     (let parts = split_char slash (trim_set {slash} p) in
      if length parts < 3 \<or> parts ! 0 = [] then ([], [])
      else (parts ! 1, trim_suffix (parts ! 2) ''.git''))"

definition realm :: string where
  "realm = ''Basic realm='' @ [CHR 0x22] @ ''GitCastle'' @ [CHR 0x22]"

definition challenge :: "string \<Rightarrow> ('z conn_scheme, flow) st" where
  "challenge msg = discard_result (set_header ''Www-Authenticate'' realm) (http_error msg 401)"

definition AuthHandler_ServeHTTP ::
  "'z conn_scheme authorizer \<Rightarrow> 'z conn_scheme handler \<Rightarrow> 'z conn_scheme handler" where
  "AuthHandler_ServeHTTP az backend r =
     (case req_basic r of
        None \<Rightarrow> challenge ''authentication required''
      | Some (username, password) \<Rightarrow>
          if username = [] then challenge ''authentication required''
          else
            on_result (az_authenticate az username password)
              (\<lambda>_. challenge ''invalid credentials'')
              (\<lambda>uid.
                let access = (if wantsWrite r then AccessWrite else AccessRead) in
                case parseOwnerRepo (req_path r) of (owner, repo) \<Rightarrow>
                  if owner \<noteq> [] then
                    on_result (az_check_access az uid owner repo access)
                      (\<lambda>_. http_error ''forbidden'' 403)
                      (\<lambda>_. backend r)
                  else backend r))"

section \<open>Reading a CGI response (cgi.go)\<close>

text \<open>
  \<open>http.Header.Add\<close> with its canonical keys: a key of token characters gets a capital at the
  start and after each dash, any other key is kept as it is. The order in which distinct keys
  stand in the header is of no meaning in Go.
\<close>

definition token_char :: "char \<Rightarrow> bool" where
  "token_char c \<longleftrightarrow> is_digit c \<or> char_range (CHR ''a'') (CHR ''z'') c \<or> char_range (CHR ''A'') (CHR ''Z'') c
     \<or> c \<in> set ''!#$%&*+-.^_|~'' \<or> c = CHR 0x27 \<or> c = CHR 0x60"

fun canonical_from :: "bool \<Rightarrow> string \<Rightarrow> string" where
  "canonical_from upper [] = []"
| "canonical_from upper (c # s) =
     (if upper then upper_char c else lower_char c) # canonical_from (c = CHR ''-'') s"

definition canonical_key :: "string \<Rightarrow> string" where
  "canonical_key k = (if list_all token_char k then canonical_from True k else k)"

definition header_add ::
  "string \<Rightarrow> string \<Rightarrow> (string \<times> string list) list \<Rightarrow> (string \<times> string list) list" where
  "header_add k v hs = AList.update (canonical_key k)
     ((case map_of hs (canonical_key k) of None \<Rightarrow> [] | Some vs \<Rightarrow> vs) @ [v]) hs"

text \<open>The loop over the header lines: \<open>None\<close> when the output ends before the empty line.\<close>

function cgi_head ::
  "string \<Rightarrow> string \<Rightarrow> (string \<times> string list) list \<Rightarrow> (string \<times> (string \<times> string list) list \<times> string) option"
where
  "cgi_head out status headers =
     (case cut newline out of (before, rest, complete) \<Rightarrow>
        if \<not> complete then None
        else let line = trim_right_set {CHR 0x0D, CHR 0x0A} before in
          if line = [] then Some (status, headers, rest)
          else case cut (CHR '':'') line of (key, value, found) \<Rightarrow>
            if \<not> found then cgi_head rest status headers
            else let key = trim_space key in
              if equal_fold key ''Status'' then cgi_head rest (trim_space value) headers
              else cgi_head rest status (header_add key (trim_space value) headers))"
  by pat_completeness auto
termination
  by (relation "measure (\<lambda>(out, _, _). length out)") (auto dest!: cut_parts [OF sym])

declare cgi_head.simps [simp del]

definition cgi_code :: "string \<Rightarrow> int" where
  "cgi_code status =
     (case go_fields status of
        [] \<Rightarrow> 200
      | f # _ \<Rightarrow> (case parse_int64 f of Inr parsed \<Rightarrow> parsed | Inl _ \<Rightarrow> 200))"

fun add_values :: "(string \<times> string list) list \<Rightarrow> (string \<times> string list) list \<Rightarrow>
    (string \<times> string list) list" where
  "add_values [] hs = hs"
| "add_values ((k, vs) # kvs) hs = add_values kvs (fold (header_add k) vs hs)"

definition parseCGIResponse :: "string \<Rightarrow> ('z conn_scheme, flow) st" where
  "parseCGIResponse out =
     (case cgi_head out [] [] of
        None \<Rightarrow> http_error ''git backend returned no response'' 502
      | Some (status, headers, body) \<Rightarrow>
          discard_result (modify_state (\<lambda>s. s\<lparr>rw_header := add_values headers (rw_header s)\<rparr>))
            (respond (if status \<noteq> [] then cgi_code status else 200) body))"

section \<open>The backend (handler.go)\<close>

definition normalize_path :: "string \<Rightarrow> string \<Rightarrow> string" where
  "normalize_path pre p =
     (let pathInfo = trim_left_set {slash} (trim_prefix p pre) in
      if \<not> contains_str pathInfo ''.git/'' \<and> \<not> has_suffix pathInfo ''.git'' then
        let parts = split_n slash 3 pathInfo in
        if length parts \<ge> 2 then join_str [slash] (parts[1 := parts ! 1 @ ''.git'']) else pathInfo
      else pathInfo)"

text \<open>\<open>environ\<close> is the environment of the server process.\<close>

definition environ_key :: "string \<Rightarrow> string" where
  "environ_key entry = hd (split_n (CHR ''='') 2 entry)"

definition systemEnviron :: "string list \<Rightarrow> string list" where
  "systemEnviron environ =
     filter (\<lambda>entry. environ_key entry \<in> {''PATH'', ''HOME'', ''TMPDIR'', ''LANG'', ''LC_ALL''}) environ"

definition optional_entry :: "string \<Rightarrow> string \<Rightarrow> string list" where
  "optional_entry name value = (if value \<noteq> [] then [name @ ''='' @ value] else [])"

definition backend_environ :: "string list \<Rightarrow> string \<Rightarrow> string \<Rightarrow> http_req \<Rightarrow> string list" where
  "backend_environ environ root pathInfo r =
     systemEnviron environ @
     [''GIT_PROJECT_ROOT='' @ root,
      ''GIT_HTTP_EXPORT_ALL=1'',
      ''PATH_INFO=/'' @ pathInfo,
      ''REQUEST_METHOD='' @ req_method r,
      ''QUERY_STRING='' @ req_raw_query r,
      ''REMOTE_ADDR='' @ req_remote r] @
     optional_entry ''CONTENT_TYPE'' (header_get r ''Content-Type'') @
     optional_entry ''HTTP_CONTENT_ENCODING'' (header_get r ''Content-Encoding'') @
     optional_entry ''CONTENT_LENGTH'' (header_get r ''Content-Length'') @
     (case req_basic r of None \<Rightarrow> [] | Some (user, _) \<Rightarrow> [''REMOTE_USER='' @ user])"

text \<open>
  Running the program: a pipe or the start may fail; otherwise it writes its whole output, and
  feeding it the request body may have failed.
\<close>

datatype backend_run = Pipe_failed | Start_failed goerr | Ran string "goerr option"

record 'w git_backend =
  gb_root :: string
  gb_prefix :: string
  gb_environ :: "string list"
  gb_spawn :: "command \<Rightarrow> ('w, backend_run) st"

definition backend_command :: "'w git_backend \<Rightarrow> string \<Rightarrow> http_req \<Rightarrow> command" where
  "backend_command h pathInfo r =
     \<lparr>cmd_args = [''git'', ''http-backend''], cmd_dir = [],
      cmd_env = Some (backend_environ (gb_environ h) (gb_root h) pathInfo r),
      cmd_stdin = req_body r\<rparr>"

definition Handler_ServeHTTP :: "'z conn_scheme git_backend \<Rightarrow> 'z conn_scheme handler" where
  "Handler_ServeHTTP h r =
     (let pathInfo = normalize_path (gb_prefix h) (req_path r) in
      if contains_str pathInfo ''..'' then http_error ''invalid path'' 400
      else
        and_then (gb_spawn h (backend_command h pathInfo r)) (\<lambda>run.
          case run of
            Pipe_failed \<Rightarrow> http_error ''backend unavailable'' 500
          | Start_failed err \<Rightarrow> http_error (''start git http-backend: '' @ err_text err) 500
          | Ran out write_err \<Rightarrow>
              unless_panic (parseCGIResponse out)
                (discard_result
                  (if write_err \<noteq> None then set_header ''Connection'' ''close'' else ret ())
                  (ret Finished))))"

section \<open>The repository that is served\<close>

lemma trim_prefix_git: "trim_prefix (''/git/'' @ q) ''/git'' = slash # q"
  using trim_prefix_append [of "''/git''" "slash # q"] by (simp add: slash_def)

lemma plain_hd: "plain_component c \<Longrightarrow> c \<noteq> [] \<and> hd c \<noteq> slash"
  by (cases c) (auto simp: plain_component_def)

lemma plain_last: "plain_component c \<Longrightarrow> c \<noteq> [] \<and> last c \<noteq> slash"
  by (metis last_in_set plain_component_def)

lemma trim_left_set_id: "s = [] \<or> hd s \<notin> cs \<Longrightarrow> trim_left_set cs s = s"
  by (cases s) (auto simp: trim_left_set_def)

lemma trim_right_set_id: "s = [] \<or> last s \<notin> cs \<Longrightarrow> trim_right_set cs s = s"
  by (cases s rule: rev_cases) (auto simp: trim_right_set_def)

lemma join_plain_ends:
  assumes "\<forall>c\<in>set cs. plain_component c" and "cs \<noteq> []"
  shows "join_str [slash] cs \<noteq> []" "hd (join_str [slash] cs) \<noteq> slash" "last (join_str [slash] cs) \<noteq> slash"
proof -
  have h: "hd cs \<noteq> []" "hd (hd cs) \<noteq> slash" using assms plain_hd by (metis hd_in_set)+
  then show "join_str [slash] cs \<noteq> []" "hd (join_str [slash] cs) \<noteq> slash"
    using assms(2) by (simp_all add: join_str_ne hd_join_str)
  show "last (join_str [slash] cs) \<noteq> slash"
    using assms
  proof (induction "[slash]" cs rule: join_str.induct)
    case (2 c)
    then show ?case using plain_last by simp
  next
    case (3 c d cs)
    then show ?case by (auto simp: join_str_ne plain_hd)
  qed simp
qed

text \<open>The two readings of a clean path below the prefix.\<close>

lemma parse_clean:
  assumes "\<forall>c\<in>set cs. plain_component c" and "trail = [] \<or> trail = [slash]"
  shows "parseOwnerRepo (slash # join_str [slash] (''git'' # cs) @ trail) =
    (case cs of ow # n # _ \<Rightarrow> (ow, trim_suffix n ''.git'') | _ \<Rightarrow> ([], []))"
proof -
  let ?j = "join_str [slash] (''git'' # cs)"
  have plain: "\<forall>c\<in>set (''git'' # cs). plain_component c"
    using assms(1) by (simp add: plain_component_def slash_def)
  note ends = join_plain_ends [OF plain]
  have "trim_set {slash} (slash # ?j @ trail) = ?j"
  proof -
    have "trim_right_set {slash} (?j @ trail) = ?j"
      using ends(3) assms(2) trim_right_set_snoc_in [of slash "{slash}" ?j]
      by (auto simp: trim_right_set_id)
    moreover have "trim_left_set {slash} (?j @ trail) = ?j @ trail"
      using ends(1,2) by (intro trim_left_set_id) simp
    ultimately show ?thesis by (simp add: trim_set_def)
  qed
  moreover have "split_char slash ?j = ''git'' # cs"
    using plain by (intro split_char_join) (auto simp: plain_component_def)
  ultimately show ?thesis by (simp add: parseOwnerRepo_def Let_def split: list.split)
qed

text \<open>
  A path with an owner, a second component and perhaps more: how it is split at its first two
  slashes, that the second component has no suffix when the path shows none, and what the path
  reads as once the suffix is added.
\<close>

definition two_components :: "string \<Rightarrow> string \<Rightarrow> string list \<Rightarrow> string \<Rightarrow> bool" where
  "two_components c d r q \<longleftrightarrow> slash \<notin> set c \<and> slash \<notin> set d \<and>
     (q = c @ slash # d \<and> r = [] \<or> (\<exists>t. q = c @ slash # d @ slash # t \<and> r = [t]))"

lemma two_components_split: "two_components c d r q \<Longrightarrow> split_n slash 3 q = c # d # r"
  by (auto simp: two_components_def eval_nat_numeral cut_no_sep)

lemma two_components_plain:
  assumes "two_components c d r q" and "\<not> contains_str q ''.git/''" and "\<not> has_suffix q ''.git''"
  shows "\<not> has_suffix d ''.git''"
proof
  assume "has_suffix d ''.git''"
  then obtain e where "d = e @ ''.git''" by (auto simp: has_suffix_def suffix_def)
  then have "q = (c @ slash # e) @ ''.git'' \<or> (\<exists>t. q = (c @ slash # e) @ ''.git/'' @ t)"
    using assms(1) by (auto simp: two_components_def slash_def)
  with assms(2,3) show False
    unfolding contains_str_def has_suffix_def by (metis sublist_appendI suffixI)
qed

lemma two_components_suffixed:
  assumes "two_components c d r q"
    and "split_char slash (join_str [slash] (c # (d @ ''.git'') # r)) = owner # part # parts"
  shows "owner = c" and "part = d @ ''.git''"
proof -
  have "slash \<notin> set (d @ ''.git'')" using assms(1) by (simp add: two_components_def slash_def)
  then show "owner = c" "part = d @ ''.git''"
    using assms split_char_append_sep [of slash "d @ ''.git''"] split_char_no_sep [of slash "d @ ''.git''"]
    by (auto simp: two_components_def)
qed

lemma normalize_below_prefix:
  assumes "\<forall>c\<in>set cs. plain_component c" and "trail = [] \<or> trail = [slash] \<and> cs \<noteq> []"
  defines "q \<equiv> join_str [slash] cs @ trail"
  shows "normalize_path ''/git'' (''/git/'' @ q) =
      (if \<not> contains_str q ''.git/'' \<and> \<not> has_suffix q ''.git'' then
         let ps = split_n slash 3 q in
         if length ps \<ge> 2 then join_str [slash] (ps[1 := ps ! 1 @ ''.git'']) else q
       else q)"
proof -
  have "trim_left_set {slash} (slash # q) = q"
    using assms(1,2) join_plain_ends(1,2) [of cs]
    by (cases "cs = []") (auto simp: trim_left_set_id q_def)
  then show ?thesis by (simp only: normalize_path_def trim_prefix_git Let_def)
qed

lemma normalize_clean:
  assumes "\<forall>c\<in>set cs. plain_component c" and "trail = [] \<or> trail = [slash] \<and> cs \<noteq> []"
    and "split_char slash (normalize_path ''/git'' (''/git/'' @ join_str [slash] cs @ trail)) =
      owner # part # parts"
    and "trim_suffix part ''.git'' \<noteq> []"
  shows "\<exists>n rest. cs = owner # n # rest \<and> trim_suffix n ''.git'' = trim_suffix part ''.git''"
proof -
  let ?q = "join_str [slash] cs @ trail"
  have sep: "\<forall>c\<in>set cs. slash \<notin> set c" using assms(1) by (auto simp: plain_component_def)
  note norm = normalize_below_prefix [OF assms(1,2)]
  have split_q: "split_char slash ?q = (if trail = [] then if cs = [] then [[]] else cs else cs @ [[]])"
    using assms(2) sep
    by (auto simp: split_char_join split_char_append [where t = "[]", simplified])
  show ?thesis
  proof (cases "normalize_path ''/git'' (''/git/'' @ ?q) = ?q")
    case True
    with assms(3) split_q have "(if trail = [] then if cs = [] then [[]] else cs else cs @ [[]]) = owner # part # parts"
      by simp
    moreover have "part \<noteq> []" using assms(4) by (auto simp: trim_suffix_def)
    ultimately show ?thesis
      by (cases cs rule: remdups_adj.cases) (auto split: if_splits)
  next
    case False
    with norm have ng: "\<not> contains_str ?q ''.git/''" "\<not> has_suffix ?q ''.git''"
      and two: "2 \<le> length (split_n slash 3 ?q)"
      and n: "normalize_path ''/git'' (''/git/'' @ ?q) =
        join_str [slash] ((split_n slash 3 ?q)[1 := split_n slash 3 ?q ! 1 @ ''.git''])"
      by (auto simp: Let_def split: if_splits)
    show ?thesis
    proof (cases cs rule: remdups_adj.cases)
      case 1
      with two assms(2) show ?thesis by (simp add: eval_nat_numeral)
    next
      case (2 c)
      then have c: "slash \<notin> set c" "cut slash c = (c, [], False)" using sep cut_no_sep by auto
      from 2 two c assms(2) have "trail = [slash]" by (auto simp: eval_nat_numeral)
      with 2 c n have "normalize_path ''/git'' (''/git/'' @ ?q) = c @ slash # ''.git''"
        by (simp add: eval_nat_numeral)
      with assms(3) c have "part = ''.git''" by (auto simp: slash_def)
      with assms(4) show ?thesis by (simp add: trim_suffix_def has_suffix_def)
    next
      case (3 c d rest)
      obtain r where q: "two_components c d r ?q"
        using 3 assms(2) sep by (cases rest) (auto simp: two_components_def)
      with n have "normalize_path ''/git'' (''/git/'' @ ?q) = join_str [slash] (c # (d @ ''.git'') # r)"
        by (simp add: two_components_split)
      with two_components_suffixed [OF q] assms(3) have "owner = c" "part = d @ ''.git''" by simp_all
      then show ?thesis
        using 3 two_components_plain [OF q ng] by (simp add: trim_suffix_id trim_suffix_append)
    qed
  qed
qed

lemma split_clean_head:
  assumes "\<forall>c\<in>set cs. plain_component c" and "trail = [] \<or> trail = [slash] \<and> cs \<noteq> []"
    and "join_str [slash] cs @ trail = h @ slash # q" and "slash \<notin> set h" and "q \<noteq> []"
  obtains ds where "cs = h # ds" "q = join_str [slash] ds @ trail"
    "trail = [] \<or> trail = [slash] \<and> ds \<noteq> []"
proof -
  have sep: "\<forall>c\<in>set cs. slash \<notin> set c" using assms(1) by (auto simp: plain_component_def)
  have ne: "cs \<noteq> []" using assms(2,3) by auto
  then have sp: "split_char slash (join_str [slash] cs) = cs" using sep by (rule split_char_join)
  have "split_char slash (join_str [slash] cs @ trail) = h # split_char slash q"
    using assms(3,4) by simp
  then have hq: "(if trail = [] then cs else cs @ [[]]) = h # split_char slash q"
    using assms(2) sp split_char_append [of slash "join_str [slash] cs" "[]"] by auto
  then obtain ds where ds: "cs = h # ds" using ne by (cases cs) (auto split: if_splits)
  with hq have sq: "split_char slash q = (if trail = [] then ds else ds @ [[]])" by (auto split: if_splits)
  have q: "q = join_str [slash] (if trail = [] then ds else ds @ [[]])"
    using join_split_char [of slash q] sq by simp
  show thesis
  proof (cases "trail = []")
    case True
    with that ds q show ?thesis by simp
  next
    case False
    with q assms(5) have "ds \<noteq> []" by auto
    with that ds q False assms(2) show ?thesis by (auto simp: join_str_snoc)
  qed
qed

definition refused :: "('z conn_scheme authorizer) \<Rightarrow> http_req \<Rightarrow> 'z conn_scheme \<Rightarrow> bool" where
  "refused az r s \<longleftrightarrow>
     (\<exists>answer t. answer \<in> {challenge ''authentication required'', challenge ''invalid credentials'',
          http_error ''forbidden'' 403} \<and>
        (\<forall>backend. AuthHandler_ServeHTTP az backend r s = answer t))"

definition authorised ::
  "'z conn_scheme authorizer \<Rightarrow> http_req \<Rightarrow> string \<Rightarrow> string \<Rightarrow> access \<Rightarrow> 'z conn_scheme \<Rightarrow> bool" where
  "authorised az r owner repo access s \<longleftrightarrow>
     (\<exists>username password uid t u. req_basic r = Some (username, password) \<and> username \<noteq> [] \<and>
        az_authenticate az username password s = (Inr uid, t) \<and>
        az_check_access az uid owner repo access t = (Inr (), u) \<and>
        (\<forall>backend. AuthHandler_ServeHTTP az backend r s = backend r u))"

lemma refused_or_authorised:
  assumes "parseOwnerRepo (req_path r) = (owner, repo)" and "owner \<noteq> []"
  shows "refused az r s \<or> authorised az r owner repo (if wantsWrite r then AccessWrite else AccessRead) s"
proof (cases "req_basic r")
  case None
  then have "refused az r s"
    unfolding refused_def AuthHandler_ServeHTTP_def
    by (intro exI [of _ "challenge ''authentication required''"] exI [of _ s]) simp
  then show ?thesis ..
next
  case (Some up)
  obtain username password where up: "up = (username, password)" by (cases up)
  show ?thesis
  proof (cases "username = []")
    case True
    then have "refused az r s"
      unfolding refused_def AuthHandler_ServeHTTP_def using Some up
      by (intro exI [of _ "challenge ''authentication required''"] exI [of _ s]) simp
    then show ?thesis ..
  next
    case False
    note here = Some up False assms
    obtain res t where au: "az_authenticate az username password s = (res, t)" by fastforce
    show ?thesis
    proof (cases res)
      case (Inl e)
      then have "refused az r s"
        unfolding refused_def AuthHandler_ServeHTTP_def using here au
        by (intro exI [of _ "challenge ''invalid credentials''"] exI [of _ t]) (simp add: run_simps)
      then show ?thesis ..
    next
      case (Inr uid)
      let ?a = "if wantsWrite r then AccessWrite else AccessRead"
      obtain res' u where ch: "az_check_access az uid owner repo ?a t = (res', u)" by fastforce
      show ?thesis
      proof (cases res')
        case (Inl e)
        then have "refused az r s"
          unfolding refused_def AuthHandler_ServeHTTP_def using here au ch \<open>res = Inr uid\<close>
          by (intro exI [of _ "http_error ''forbidden'' 403"] exI [of _ u]) (simp add: run_simps)
        then show ?thesis ..
      next
        case (Inr x)
        then have "authorised az r owner repo ?a s"
          unfolding authorised_def AuthHandler_ServeHTTP_def using here au ch \<open>res = Inr uid\<close>
          by (auto simp: run_simps)
        then show ?thesis ..
      qed
    qed
  qed
qed

text \<open>
  C26: The repository a git request reaches is the one it was authorised for, when its decoded path
  is clean. (The outer router cleans only the path as it was sent; a path that becomes clean or
  unclean by decoding is not covered here, and can pass the check.) Let \<open>owner / part\<close> be the directory below the
  repository root that \<open>PATH_INFO\<close> names. Then either the request is refused with a challenge or
  as forbidden without the backend having run, or the credentials authenticated a user for whom
  the access check on exactly this owner and this repository succeeded, and the backend runs in
  the state that check left.
\<close>

theorem served_repository_is_authorised:
  assumes "mux_clean_path (req_path r) = req_path r" and "has_prefix (req_path r) ''/git/''"
    and "split_char slash (normalize_path ''/git'' (req_path r)) = owner # part # parts"
    and "trim_suffix part ''.git'' \<noteq> []"
  shows "refused az r s \<or> authorised az r owner (trim_suffix part ''.git'')
    (if wantsWrite r then AccessWrite else AccessRead) s"
proof -
  obtain cs trail where cs: "\<forall>c\<in>set cs. plain_component c"
    and trail: "trail = [] \<or> trail = [slash] \<and> cs \<noteq> []"
    and p: "req_path r = slash # join_str [slash] cs @ trail"
    by (rule mux_clean_parts [OF assms(1)]) blast
  obtain q where q: "req_path r = ''/git/'' @ q" using assms(2) by (auto simp: has_prefix_def prefix_def)
  have "q \<noteq> []"
    using assms(3) by (auto simp: q normalize_path_def trim_prefix_git [of "[]", simplified] trim_left_set_def
        contains_str_def has_suffix_def eval_nat_numeral split: if_splits)
  have pq: "join_str [slash] cs @ trail = ''git'' @ slash # q" using p q by (simp add: slash_def)
  obtain ds where ds: "cs = ''git'' # ds" and q': "q = join_str [slash] ds @ trail"
    and trail': "trail = [] \<or> trail = [slash] \<and> ds \<noteq> []"
    by (rule split_clean_head [OF cs trail pq]) (use \<open>q \<noteq> []\<close> in \<open>auto simp: slash_def\<close>)
  have plain: "\<forall>c\<in>set ds. plain_component c" using cs ds by simp
  obtain n rest where n: "ds = owner # n # rest" "trim_suffix n ''.git'' = trim_suffix part ''.git''"
    using normalize_clean [OF plain trail' _ assms(4)] assms(3) q q' by auto
  have "parseOwnerRepo (req_path r) = (owner, trim_suffix part ''.git'')"
    using parse_clean [OF plain, of trail] trail n p ds by auto
  moreover have "owner \<noteq> []" using plain n by (simp add: plain_component_def)
  ultimately show ?thesis by (rule refused_or_authorised)
qed

definition demo_authorizer :: "conn authorizer" where
  "demo_authorizer = \<lparr>
     az_authenticate = (\<lambda>username password s.
        if password = ''secret12'' then (Inr 7, s) else (Inl (ErrText ''invalid credentials''), s)),
     az_check_access = (\<lambda>uid owner repo access s.
        if uid = 7 \<and> owner = ''alice'' \<and> repo = ''castle'' then (Inr (), s)
        else (Inl (ErrText ''access denied''), s))\<rparr>"

definition demo_fetch :: http_req where
  "demo_fetch = blank_req\<lparr>req_path := ''/git/alice/castle/info/refs'',
     req_basic := Some (''bob'', ''secret12'')\<rparr>"

theorem served_repository_is_authorised_witness:
  "refused demo_authorizer demo_fetch empty_conn \<or>
   authorised demo_authorizer demo_fetch ''alice'' ''castle'' AccessRead empty_conn"
proof -
  have path: "req_path demo_fetch = ''/git/alice/castle/info/refs''"
    by (simp add: demo_fetch_def)
  have "mux_clean_path (req_path demo_fetch) = req_path demo_fetch"
    unfolding path by code_simp
  moreover have "has_prefix (req_path demo_fetch) ''/git/''" unfolding path by code_simp
  moreover have "split_char slash (normalize_path ''/git'' (req_path demo_fetch)) =
      ''alice'' # ''castle.git'' # [''info'', ''refs'']" unfolding path by code_simp
  moreover have "trim_suffix ''castle.git'' ''.git'' = ''castle''" by code_simp
  moreover have "\<not> wantsWrite demo_fetch" by (simp add: wantsWrite_def demo_fetch_def blank_req_def)
  ultimately show ?thesis
    using served_repository_is_authorised [of demo_fetch "''alice''" "''castle.git''" "[''info'', ''refs'']"
        demo_authorizer empty_conn]
    by simp
qed

section \<open>A CGI answer arrives unchanged\<close>

definition cgi_line :: "string \<times> string \<Rightarrow> string" where
  "cgi_line kv = fst kv @ '': '' @ snd kv @ [CHR 0x0D, newline]"

definition cgi_text :: "(string \<times> string) list \<Rightarrow> string \<Rightarrow> string" where
  "cgi_text kvs body = concat (map cgi_line kvs) @ [CHR 0x0D, newline] @ body"

text \<open>Header values without surrounding blanks and line ends.\<close>

definition tidy :: "string \<Rightarrow> bool" where
  "tidy s \<longleftrightarrow> list_all ascii s \<and> newline \<notin> set s \<and> (s = [] \<or> visible_ascii (hd s) \<and> visible_ascii (last s))"

definition cgi_field :: "string \<times> string \<Rightarrow> bool" where
  "cgi_field kv \<longleftrightarrow> fst kv \<noteq> [] \<and> list_all visible_ascii (fst kv) \<and> CHR '':'' \<notin> set (fst kv) \<and> tidy (snd kv)"

lemma trim_space_ascii:
  assumes "list_all ascii s"
  shows "trim_space s = trim_set {c. is_space_rune [c]} s"
proof -
  have dw: "dropWhile is_space_rune (map (\<lambda>c. [c]) t) = map (\<lambda>c. [c]) (dropWhile (\<lambda>c. is_space_rune [c]) t)" for t
    by (induction t) auto
  have "rev (map (\<lambda>c. [c]) t) = map (\<lambda>c. [c]) (rev t)" for t :: string by (simp add: rev_map)
  with assms show ?thesis
    by (simp add: trim_space_def trim_set_def trim_left_set_def trim_right_set_def runes_ascii dw rev_map)
qed

lemma trim_space_tidy: "tidy s \<Longrightarrow> trim_space ('' '' @ s) = s"
proof -
  assume t: "tidy s"
  then have "trim_space (CHR '' '' # s) = trim_set {c. is_space_rune [c]} (CHR '' '' # s)"
    by (intro trim_space_ascii) (simp add: tidy_def ascii_def less_char_def)
  also have "\<dots> = s"
    using t visible_not_space
    by (auto simp: trim_set_def tidy_def trim_left_set_id trim_right_set_id)
  finally show ?thesis by simp
qed

lemma cgi_head_line:
  assumes "cgi_field (k, v)"
  shows "cgi_head (cgi_line (k, v) @ out) status headers =
    (if equal_fold k ''Status'' then cgi_head out v headers
     else cgi_head out status (header_add k v headers))"
proof -
  have k: "list_all visible_ascii k" "k \<noteq> []" "CHR '':'' \<notin> set k" "newline \<notin> set k" and v: "tidy v" "newline \<notin> set v"
    using assms by (auto simp: cgi_field_def tidy_def newline_def list_all_iff visible_ascii_def less_eq_char_def)
  have "cut newline (cgi_line (k, v) @ out) = (k @ '': '' @ v @ [CHR 0x0D], out, True)"
    using cut_found [of newline "k @ '': '' @ v @ [CHR 0x0D]" out] k v by (simp add: cgi_line_def newline_def)
  moreover have "trim_right_set {CHR 0x0D, CHR 0x0A} (k @ '': '' @ v @ [CHR 0x0D]) = k @ '': '' @ v"
  proof -
    have "last (k @ '': '' @ v) \<notin> {CHR 0x0D, CHR 0x0A}"
      using v by (cases v rule: rev_cases)
        (auto simp: tidy_def visible_ascii_def less_eq_char_def)
    then have "trim_right_set {CHR 0x0D, CHR 0x0A} (k @ '': '' @ v) = k @ '': '' @ v"
      by (intro trim_right_set_id) simp
    then show ?thesis
      using trim_right_set_snoc_in [of "CHR 0x0D" "{CHR 0x0D, CHR 0x0A}" "k @ '': '' @ v"] by simp
  qed
  moreover have "cut (CHR '':'') (k @ '': '' @ v) = (k, '' '' @ v, True)"
    using k cut_found [of "CHR '':''" k "'' '' @ v"] by simp
  moreover have "trim_space ('' '' @ v) = v" "trim_space k = k"
    using v k trim_space_tidy trim_space_visible by blast+
  ultimately show ?thesis
    by (subst cgi_head.simps) (simp add: Let_def)
qed

definition plain_field :: "string \<times> string \<Rightarrow> bool" where
  "plain_field kv \<longleftrightarrow> cgi_field kv \<and> \<not> equal_fold (fst kv) ''Status''"

lemma cgi_head_fields:
  assumes "list_all plain_field kvs"
  shows "cgi_head (cgi_text kvs body) status headers =
    Some (status, fold (\<lambda>(k, v). header_add k v) kvs headers, body)"
  using assms
proof (induction kvs arbitrary: headers)
  case Nil
  have "cut newline (CHR 0x0D # newline # body) = ([CHR 0x0D], body, True)"
    using cut_found [of newline "[CHR 0x0D]" body] by (simp add: newline_def)
  then show ?case by (simp add: cgi_text_def cgi_head.simps trim_right_set_def)
next
  case (Cons kv kvs)
  obtain k v where kv: "kv = (k, v)" by (cases kv)
  have "cgi_text (kv # kvs) body = cgi_line (k, v) @ cgi_text kvs body" by (simp add: cgi_text_def kv)
  with Cons kv show ?case by (simp add: cgi_head_line plain_field_def)
qed

lemma status_field: "tidy v \<Longrightarrow> cgi_field (''Status'', v)"
  by (simp add: cgi_field_def visible_ascii_def less_eq_char_def)

definition status_text :: "nat \<Rightarrow> string list \<Rightarrow> string" where
  "status_text code words = join_str '' '' (nat_str code # words)"

text \<open>The values given for a key, in order.\<close>

definition values_for :: "(string \<times> string) list \<Rightarrow> string \<Rightarrow> string list" where
  "values_for kvs k = map snd (filter (\<lambda>kv. canonical_key (fst kv) = k) kvs)"

definition all_values :: "(string \<times> string list) list \<Rightarrow> string \<Rightarrow> string list" where
  "all_values hs k = (case map_of hs k of None \<Rightarrow> [] | Some vs \<Rightarrow> vs)"

lemma all_values_add:
  "all_values (header_add k v hs) k' = all_values hs k' @ (if canonical_key k = k' then [v] else [])"
  by (simp add: all_values_def header_add_def update_conv' split: option.split)

lemma all_values_fold:
  "all_values (fold (\<lambda>(k, v). header_add k v) kvs hs) k' = all_values hs k' @ values_for kvs k'"
  by (induction kvs arbitrary: hs) (auto simp: all_values_add values_for_def)

lemma upper_char_cases: "upper_char c = c \<or> char_range (CHR ''A'') (CHR ''Z'') (upper_char c)"
  by (auto simp: upper_char_def less_eq_char_def of_char_char_of_small)

lemma lower_char_cases: "lower_char c = c \<or> char_range (CHR ''a'') (CHR ''z'') (lower_char c)"
  by (auto simp: lower_char_def less_eq_char_def of_char_char_of_small)

lemma case_idem: "upper_char (upper_char c) = upper_char c" "lower_char (lower_char c) = lower_char c"
  by (auto simp: upper_char_def lower_char_def less_eq_char_def of_char_char_of_small)

lemma case_dash: "upper_char c = CHR ''-'' \<longleftrightarrow> c = CHR ''-''" "lower_char c = CHR ''-'' \<longleftrightarrow> c = CHR ''-''"
proof -
  have "\<not> char_range (CHR ''A'') (CHR ''Z'') (CHR ''-'')" "\<not> char_range (CHR ''a'') (CHR ''z'') (CHR ''-'')"
    "upper_char (CHR ''-'') = CHR ''-''" "lower_char (CHR ''-'') = CHR ''-''"
    by (simp_all add: less_eq_char_def upper_char_def lower_char_def)
  then show "upper_char c = CHR ''-'' \<longleftrightarrow> c = CHR ''-''" "lower_char c = CHR ''-'' \<longleftrightarrow> c = CHR ''-''"
    by (metis upper_char_cases, metis lower_char_cases)
qed

lemma token_case: "token_char c \<Longrightarrow> token_char (upper_char c) \<and> token_char (lower_char c)"
  by (metis token_char_def upper_char_cases lower_char_cases)

lemma canonical_from_token: "list_all token_char s \<Longrightarrow> list_all token_char (canonical_from upper s)"
  by (induction s arbitrary: upper) (simp_all add: token_case)

lemma canonical_from_idem: "canonical_from upper (canonical_from upper s) = canonical_from upper s"
  by (induction s arbitrary: upper) (auto simp: case_idem case_dash)

lemma canonical_key_idem [simp]: "canonical_key (canonical_key k) = canonical_key k"
  by (auto simp: canonical_key_def canonical_from_token canonical_from_idem)

text \<open>Headers with canonical, distinct keys: what \<open>header_add\<close> builds.\<close>

definition canonical_headers :: "(string \<times> string list) list \<Rightarrow> bool" where
  "canonical_headers hs \<longleftrightarrow> distinct (map fst hs) \<and> (\<forall>k\<in>fst ` set hs. canonical_key k = k)"

lemma canonical_header_add: "canonical_headers hs \<Longrightarrow> canonical_headers (header_add k v hs)"
  unfolding canonical_headers_def header_add_def
  by (simp add: dom_update distinct_update)

lemma canonical_fold: "canonical_headers hs \<Longrightarrow> canonical_headers (fold (\<lambda>(k, v). header_add k v) kvs hs)"
  by (induction kvs arbitrary: hs) (auto simp: canonical_header_add)

lemma all_values_add_list:
  "all_values (fold (header_add k) vs hs) k' = all_values hs k' @ (if canonical_key k = k' then vs else [])"
  by (induction vs arbitrary: hs) (auto simp: all_values_add)

lemma all_values_add_values:
  "canonical_headers gs \<Longrightarrow> all_values (add_values gs hs) k = all_values hs k @ all_values gs k"
proof (induction gs hs rule: add_values.induct)
  case (2 k' vs kvs hs)
  then have "canonical_headers kvs" "canonical_key k' = k'" "k' \<notin> fst ` set kvs"
    by (simp_all add: canonical_headers_def)
  moreover from this(3) have "all_values kvs k' = []"
    by (simp add: all_values_def map_of_eq_None_iff [THEN iffD2])
  moreover have "all_values ((k', vs) # kvs) k = (if k = k' then vs else all_values kvs k)"
    by (simp add: all_values_def)
  ultimately show ?case using "2.IH" by (simp add: all_values_add_list)
qed (simp add: all_values_def)

lemma tidy_visible:
  assumes "list_all visible_ascii w"
  shows "tidy w"
proof -
  have "\<not> visible_ascii newline" by (simp add: newline_def visible_ascii_def less_eq_char_def)
  then have "newline \<notin> set w" using assms by (auto simp: list_all_iff)
  moreover have "w = [] \<or> visible_ascii (hd w) \<and> visible_ascii (last w)"
    using assms by (auto simp: list_all_iff)
  ultimately show ?thesis using assms by (simp add: tidy_def visible_list_ascii)
qed

lemma tidy_status:
  assumes "list_all (\<lambda>w. w \<noteq> [] \<and> list_all visible_ascii w) words" and "words \<noteq> []"
  shows "tidy (join_str '' '' words)"
  using assms
proof (induction "'' ''" words rule: join_str.induct)
  case (2 w)
  then show ?case by (simp add: tidy_visible)
next
  case (3 w v ws)
  then have w: "tidy w" "w \<noteq> []" and r: "tidy (join_str '' '' (v # ws))" "join_str '' '' (v # ws) \<noteq> []"
    by (simp_all add: tidy_visible join_str_ne)
  then show ?case by (simp add: tidy_def ascii_def less_char_def newline_def)
qed simp

lemma nat_str_visible: "list_all visible_ascii (nat_str n)"
  using nat_str_digits [of n]
  by (rule list.pred_mono_strong) (auto simp: is_digit_def visible_ascii_def less_eq_char_def)

lemma cgi_code_status:
  assumes "list_all (\<lambda>w. w \<noteq> [] \<and> list_all visible_ascii w) words" and "code \<le> 999"
  shows "cgi_code (status_text code words) = int code" and "tidy (status_text code words)"
    and "status_text code words \<noteq> []"
proof -
  have "go_fields (status_text code words) = nat_str code # words"
    unfolding status_text_def by (rule go_fields_join) (use assms(1) nat_str_visible in \<open>auto simp: list_all_iff\<close>)
  moreover have "parse_int64 (nat_str code) = Inr (int code)"
    using parse_int64_int_str [of "int code"] assms(2)
    by (simp add: int_str_def min_int64_def max_int64_def)
  ultimately show "cgi_code (status_text code words) = int code" by (simp add: cgi_code_def)
  show "tidy (status_text code words)"
    unfolding status_text_def using assms(1) nat_str_visible by (intro tidy_status) auto
  show "status_text code words \<noteq> []" by (simp add: status_text_def join_str_ne)
qed

lemma cgi_head_cut_off:
  assumes "list_all plain_field kvs" and "newline \<notin> set cut_off"
  shows "cgi_head (concat (map cgi_line kvs) @ cut_off) status headers = None"
  using assms(1)
proof (induction kvs arbitrary: headers)
  case Nil
  then show ?case using assms(2) by (simp add: cgi_head.simps cut_no_sep)
next
  case (Cons kv kvs)
  then show ?case by (cases kv) (simp add: cgi_head_line plain_field_def)
qed

lemma respond_unanswered:
  assumes "rw_status s = None" and "rw_body s = []" and "200 \<le> code" and "code \<le> 999" and "body_allowed code"
  shows "respond code body s =
    (Finished, s\<lparr>rw_status := Some code, rw_sent := rw_header s, rw_body := body\<rparr>)"
  using assms by (simp add: respond_def unless_panic_def run_simps write_header_def write_body_def)

text \<open>
  C31: The response of the git program arrives unchanged. If its output consists of a status
  line, header lines and a body, the client receives exactly this status, for every header name
  exactly the values given for it in their order, and exactly this body, whatever bytes the body
  holds; an output that breaks off before the empty line is answered with status 502.
\<close>

theorem cgi_round_trip:
  assumes "unanswered s" and "list_all plain_field kvs" and "200 \<le> code" and "code \<le> 999"
    and "body_allowed (int code)" and "list_all (\<lambda>w. w \<noteq> [] \<and> list_all visible_ascii w) words"
    and "newline \<notin> set cut_off"
  shows "(\<exists>t. parseCGIResponse (cgi_text ((''Status'', status_text code words) # kvs) body) s = (Finished, t)
      \<and> rw_status t = Some (int code) \<and> rw_body t = body
      \<and> all_values (rw_sent t) = values_for kvs)
    \<and> parseCGIResponse (concat (map cgi_line kvs) @ cut_off) s =
        http_error ''git backend returned no response'' 502 s"
proof -
  let ?out = "cgi_text ((''Status'', status_text code words) # kvs) body"
  let ?hs = "fold (\<lambda>(k, v). header_add k v) kvs []"
  note status = cgi_code_status [OF assms(6,4)]
  have "?out = cgi_line (''Status'', status_text code words) @ cgi_text kvs body"
    by (simp add: cgi_text_def)
  then have head: "cgi_head ?out [] [] = Some (status_text code words, ?hs, body)"
    by (simp add: cgi_head_line [OF status_field [OF status(2)]] cgi_head_fields [OF assms(2)] equal_fold_def)
  have "canonical_headers ?hs" by (rule canonical_fold) (simp add: canonical_headers_def)
  then have vals: "all_values (add_values ?hs []) k = values_for kvs k" for k
    by (simp add: all_values_add_values all_values_fold) (simp add: all_values_def)
  have "parseCGIResponse ?out s = (Finished, s\<lparr>rw_header := add_values ?hs [], rw_status := Some (int code),
      rw_sent := add_values ?hs [], rw_body := body\<rparr>)"
    using assms(1,3,4,5) status
    by (simp add: parseCGIResponse_def head run_simps respond_unanswered unanswered_def)
  moreover have "parseCGIResponse (concat (map cgi_line kvs) @ cut_off) s =
      http_error ''git backend returned no response'' 502 s"
    by (simp add: parseCGIResponse_def cgi_head_cut_off [OF assms(2,7)])
  ultimately show ?thesis using vals by auto
qed

theorem cgi_round_trip_witness:
  "\<exists>t. parseCGIResponse (cgi_text [(''Status'', ''404 Not Found''), (''content-type'', ''text/plain'')] ''gone'')
      empty_conn = (Finished, t)
    \<and> rw_status t = Some 404 \<and> rw_body t = ''gone'' \<and> all_values (rw_sent t) ''Content-Type'' = [''text/plain'']"
proof -
  have "status_text 404 [''Not'', ''Found''] = ''404 Not Found''" by code_simp
  moreover have "values_for [(''content-type'', ''text/plain'')] ''Content-Type'' = [''text/plain'']"
    by code_simp
  moreover have "list_all plain_field [(''content-type'', ''text/plain'')]" by code_simp
  moreover have "unanswered empty_conn" by (simp add: unanswered_def empty_conn_def net.defs)
  ultimately show ?thesis
    using cgi_round_trip [of empty_conn "[(''content-type'', ''text/plain'')]" 404 "[''Not'', ''Found'']" "[]" "''gone''"]
    by (simp add: body_allowed_def visible_ascii_def less_eq_char_def) metis
qed

end
