(* ===== verification/HttpApi.thy ===== *)
theory HttpApi
  imports Middleware GitServe Repos Collab Automation AuditLog Secrets Backup GitData
begin

text \<open>
  The ground of package \<open>internal/httpapi\<close>: the interfaces the handler is given, the JSON it
  reads and writes, the mapping of errors to responses, and sessions in cookies (handler.go,
  auth.go, and the helpers of the other files). The routes are in the theories \<open>ApiRoutes\<close> and
  \<open>ApiCollab\<close>. Log lines are left out. The state \<open>site\<close> adds the goroutines started so far.
\<close>

section \<open>Interfaces\<close>

record 'w repositories_api =
  ra_create :: "create_input \<Rightarrow> ('w, goerr + repository) st"
  ra_get :: "string \<Rightarrow> string \<Rightarrow> ('w, goerr + repository) st"
  ra_list :: "('w, goerr + repository list) st"

record 'w authenticator =
  au_create_user :: "string \<Rightarrow> string \<Rightarrow> ('w, goerr + user) st"
  au_authenticate :: "string \<Rightarrow> string \<Rightarrow> ('w, goerr + user) st"
  au_start_session :: "int \<Rightarrow> ('w, goerr + string \<times> time) st"
  au_user_for_token :: "string \<Rightarrow> ('w, goerr + user) st"
  au_end_session :: "string \<Rightarrow> ('w, goerr + unit) st"

record 'w permission_granter =
  pg_grant :: "int \<Rightarrow> string \<Rightarrow> string \<Rightarrow> ('w, goerr + unit) st"
  pg_role_for :: "int \<Rightarrow> string \<Rightarrow> ('w, goerr + string) st"

record 'w collaboration =
  co_create_issue :: "int \<Rightarrow> string \<Rightarrow> string \<Rightarrow> string \<Rightarrow> ('w, goerr + issue) st"
  co_list_issues :: "int \<Rightarrow> string \<Rightarrow> ('w, goerr + issue list) st"
  co_get_issue :: "int \<Rightarrow> int \<Rightarrow> ('w, goerr + issue) st"
  co_set_issue_state :: "int \<Rightarrow> int \<Rightarrow> string \<Rightarrow> ('w, goerr + issue) st"
  co_add_comment :: "int \<Rightarrow> string \<Rightarrow> int \<Rightarrow> string \<Rightarrow> string \<Rightarrow> ('w, goerr + comment) st"
  co_list_comments :: "int \<Rightarrow> string \<Rightarrow> int \<Rightarrow> ('w, goerr + comment list) st"
  co_create_pull :: "int \<Rightarrow> string \<Rightarrow> string \<Rightarrow> string \<Rightarrow> string \<Rightarrow> string \<Rightarrow> ('w, goerr + pull_request) st"
  co_get_pull :: "int \<Rightarrow> int \<Rightarrow> ('w, goerr + pull_request) st"
  co_list_pulls :: "int \<Rightarrow> string \<Rightarrow> ('w, goerr + pull_request list) st"
  co_set_pull_state :: "int \<Rightarrow> int \<Rightarrow> string \<Rightarrow> string \<Rightarrow> ('w, goerr + pull_request) st"
  co_upsert_review :: "int \<Rightarrow> int \<Rightarrow> string \<Rightarrow> string \<Rightarrow> string \<Rightarrow> ('w, goerr + review) st"
  co_list_reviews :: "int \<Rightarrow> int \<Rightarrow> ('w, goerr + review list) st"
  co_set_protection :: "int \<Rightarrow> branch_protection \<Rightarrow> ('w, goerr + unit) st"
  co_get_protection :: "int \<Rightarrow> string \<Rightarrow> ('w, goerr + branch_protection) st"
  co_delete_protection :: "int \<Rightarrow> string \<Rightarrow> ('w, goerr + unit) st"
  co_evaluate_merge :: "int \<Rightarrow> int \<Rightarrow> ('w, goerr + merge_check) st"

text \<open>\<open>Merger\<close>: owner, name, number, source branch, target branch, who merges.\<close>

type_synonym 'w merger =
  "string \<Rightarrow> string \<Rightarrow> int \<Rightarrow> string \<Rightarrow> string \<Rightarrow> string \<Rightarrow> ('w, goerr + string) st"

record api_merge_event =
  am_repository :: int
  am_owner :: string
  am_name :: string
  am_number :: int
  am_actor :: string
  am_merge_commit :: string
  am_source_branch :: string
  am_target_branch :: string

record api_push_event =
  ap_repository :: int
  ap_owner :: string
  ap_name :: string
  ap_branch :: string
  ap_old_hash :: string
  ap_new_hash :: string

record 'w webhook_manager =
  wm_create :: "int \<Rightarrow> string \<Rightarrow> string \<Rightarrow> string list \<Rightarrow> ('w, goerr + hook) st"
  wm_list :: "int \<Rightarrow> ('w, goerr + hook list) st"
  wm_delete :: "int \<Rightarrow> int \<Rightarrow> ('w, goerr + unit) st"
  wm_deliveries :: "int \<Rightarrow> ('w, goerr + delivery list) st"

record 'w secret_manager =
  sm_set :: "int \<Rightarrow> string \<Rightarrow> string \<Rightarrow> ('w, goerr + unit) st"
  sm_list :: "int \<Rightarrow> ('w, goerr + secret_info list) st"
  sm_delete :: "int \<Rightarrow> string \<Rightarrow> ('w, goerr + unit) st"

record 'w auditor =
  ad_record :: "string \<Rightarrow> string \<Rightarrow> string \<Rightarrow> (string \<times> json) list option \<Rightarrow> string \<Rightarrow> ('w, goerr + unit) st"
  ad_list :: "string \<Rightarrow> string \<Rightarrow> int \<Rightarrow> ('w, goerr + audit_entry list) st"

record 'w profile_manager =
  pm_get :: "string \<Rightarrow> ('w, goerr + profile) st"
  pm_update :: "string \<Rightarrow> profile \<Rightarrow> ('w, goerr + profile) st"

record backup_object =
  bo_key :: string
  bo_size :: int
  bo_modified :: time

record 'w backups_api =
  ba_backup :: "string \<Rightarrow> string \<Rightarrow> ('w, goerr + string) st"
  ba_list :: "string \<Rightarrow> string \<Rightarrow> ('w, goerr + backup_object list) st"

text \<open>
  \<open>Handler\<close>; \<open>None\<close> is a nil interface. Beside the fields of the code: the runner of git, the text
  of an instant in the server's time zone (\<open>time.Time.MarshalJSON\<close>), and the compaction
  that \<open>json.Marshal\<close> applies to a raw message.
\<close>

record 'w api =
  api_repositories :: "'w repositories_api"
  api_auth :: "'w authenticator"
  api_permissions :: "'w permission_granter option"
  api_content :: "string \<Rightarrow> string \<Rightarrow> ('w, goerr + string) st"
  api_collab :: "'w collaboration option"
  api_merger :: "'w merger option"
  api_automation :: "(api_merge_event \<Rightarrow> ('w, unit) st) option"
  api_webhooks :: "'w webhook_manager option"
  api_jobs :: "(int \<Rightarrow> int \<Rightarrow> ('w, goerr + job list) st) option"
  api_secrets :: "'w secret_manager option"
  api_pushes :: "(api_push_event \<Rightarrow> ('w, unit) st) option"
  api_audit :: "'w auditor option"
  api_profiles :: "'w profile_manager option"
  api_backups :: "'w backups_api option"
  api_internal_token :: string
  api_run :: "'w runner"
  api_time :: "time \<Rightarrow> string"
  api_compact :: "string \<Rightarrow> string"

text \<open>
  A goroutine the handler starts is recorded with its argument; running it is a step of its own.
\<close>

record site = edge +
  site_merges :: "api_merge_event list"
  site_builds :: "spawned list"

section \<open>What is written\<close>

definition jtime :: "'w api \<Rightarrow> time \<Rightarrow> json" where
  "jtime h t = JStr (api_time h t)"

definition jopt :: "('a \<Rightarrow> json) \<Rightarrow> 'a option \<Rightarrow> json" where
  "jopt f x = (case x of None \<Rightarrow> JNull | Some v \<Rightarrow> f v)"

definition jtexts :: "string list \<Rightarrow> json" where
  "jtexts ss = JArr (map JStr ss)"

definition user_json :: "'w api \<Rightarrow> user \<Rightarrow> json" where
  "user_json h u = JObj [(''id'', JInt (user_id u)), (''username'', JStr (user_name u)),
     (''created_at'', jtime h (user_created u))]"

definition repository_json :: "'w api \<Rightarrow> repository \<Rightarrow> json" where
  "repository_json h r = JObj [(''id'', JInt (repo_id r)), (''owner'', JStr (repo_owner r)),
     (''name'', JStr (repo_name r)), (''path'', JStr (repo_path r)),
     (''created_at'', jtime h (repo_created r))]"

definition issue_json :: "'w api \<Rightarrow> issue \<Rightarrow> json" where
  "issue_json h i = JObj [(''number'', JInt (issue_number i)), (''title'', JStr (issue_title i)),
     (''body'', JStr (issue_body i)), (''author'', JStr (issue_author i)),
     (''state'', JStr (issue_state i)), (''created_at'', jtime h (issue_created i)),
     (''updated_at'', jtime h (issue_updated i))]"

definition comment_json :: "'w api \<Rightarrow> comment \<Rightarrow> json" where
  "comment_json h c = JObj [(''id'', JInt (cmt_id c)), (''author'', JStr (cmt_author c)),
     (''body'', JStr (cmt_body c)), (''created_at'', jtime h (cmt_created c))]"

definition pull_json :: "'w api \<Rightarrow> pull_request \<Rightarrow> json" where
  "pull_json h p = JObj ([(''number'', JInt (pr_number p)), (''title'', JStr (pr_title p)),
     (''body'', JStr (pr_body p)), (''author'', JStr (pr_author p)), (''state'', JStr (pr_state p)),
     (''source_branch'', JStr (pr_source p)), (''target_branch'', JStr (pr_target p))] @
     (case pr_merge_commit p of None \<Rightarrow> [] | Some c \<Rightarrow> [(''merge_commit'', JStr c)]) @
     [(''created_at'', jtime h (pr_created p)), (''updated_at'', jtime h (pr_updated p))])"

definition review_json :: "'w api \<Rightarrow> review \<Rightarrow> json" where
  "review_json h v = JObj [(''reviewer'', JStr (rev_reviewer v)), (''verdict'', JStr (rev_verdict v)),
     (''body'', JStr (rev_body v)), (''created_at'', jtime h (rev_created v))]"

definition protection_json :: "branch_protection \<Rightarrow> json" where
  "protection_json b = JObj [(''branch'', JStr (bp_branch b)),
     (''required_approvals'', JInt (bp_required_approvals b)),
     (''allow_force_push'', JBool (bp_allow_force_push b))]"

definition check_json :: "merge_check \<Rightarrow> json" where
  "check_json c = JObj [(''mergable'', JBool (mc_mergable c)), (''blockers'', jtexts (mc_blockers c)),
     (''required_approvals'', JInt (mc_required c)), (''current_approvals'', JInt (mc_current c))]"

text \<open>\<open>Hook\<close> and \<open>Delivery\<close> have no field tags: their Go names are the keys.\<close>

definition hook_json :: "hook \<Rightarrow> json" where
  "hook_json k = JObj [(''ID'', JInt (hook_id k)), (''URL'', JStr (hook_url k)),
     (''Secret'', JStr (hook_secret k)), (''Events'', jtexts (hook_events k))]"

definition delivery_json :: "'w api \<Rightarrow> delivery \<Rightarrow> json" where
  "delivery_json h d = JObj [(''ID'', JInt (dlv_id d)), (''WebhookID'', JInt (dlv_webhook d)),
     (''EventType'', JStr (dlv_event d)), (''Payload'', JRaw (api_compact h (dlv_payload d))),
     (''Status'', JInt (dlv_status d)), (''Attempts'', JInt (dlv_attempts d)),
     (''Delivered'', JBool (dlv_delivered d))]"

definition job_json :: "'w api \<Rightarrow> job \<Rightarrow> json" where
  "job_json h j = JObj [(''id'', JInt (job_id j)), (''commit_hash'', JStr (job_commit j)),
     (''branch'', JStr (job_branch j)), (''trigger_kind'', JStr (job_trigger_kind j)),
     (''trigger_ref'', JStr (job_trigger_ref j)), (''status'', JStr (job_status j)),
     (''output'', JStr (job_output j)), (''exit_code'', jopt JInt (job_exit_code j)),
     (''created_at'', jtime h (job_created j)), (''started_at'', jopt (jtime h) (job_started j)),
     (''finished_at'', jopt (jtime h) (job_finished j))]"

definition secret_json :: "'w api \<Rightarrow> secret_info \<Rightarrow> json" where
  "secret_json h x = JObj [(''name'', JStr (si_name x)), (''created_at'', jtime h (si_created x))]"

text \<open>\<open>omitempty\<close> leaves out an empty map and an empty text.\<close>

definition entry_json :: "'w api \<Rightarrow> audit_entry \<Rightarrow> json" where
  "entry_json h e = JObj ([(''id'', JInt (ent_id e)), (''time'', jtime h (ent_time e)),
     (''actor'', JStr (ent_actor e)), (''action'', JStr (ent_action e)), (''target'', JStr (ent_target e))] @
     (case ent_details e of Some (JObj (kv # kvs)) \<Rightarrow> [(''details'', json_map (kv # kvs))] | _ \<Rightarrow> []) @
     (if ent_remote_ip e = [] then [] else [(''remote_ip'', JStr (ent_remote_ip e))]))"

definition profile_json :: "'w api \<Rightarrow> profile \<Rightarrow> json" where
  "profile_json h p = JObj [(''username'', JStr (prof_username p)), (''display_name'', JStr (prof_display p)),
     (''bio'', JStr (prof_bio p)), (''location'', JStr (prof_location p)),
     (''website'', JStr (prof_website p)), (''joined_at'', jtime h (prof_joined p))]"

definition backup_json :: "'w api \<Rightarrow> backup_object \<Rightarrow> json" where
  "backup_json h b = JObj [(''key'', JStr (bo_key b)), (''size'', JInt (bo_size b)),
     (''modified'', jtime h (bo_modified b))]"

definition ref_json :: "git_ref \<Rightarrow> json" where
  "ref_json x = JObj [(''name'', JStr (ref_name x)), (''hash'', JStr (ref_hash x)),
     (''is_tag'', JBool (ref_is_tag x))]"

definition tree_entry_json :: "tree_entry \<Rightarrow> json" where
  "tree_entry_json e = JObj [(''mode'', JStr (ent_mode e)), (''type'', JStr (ent_type e)),
     (''hash'', JStr (ent_hash e)), (''path'', JStr (ent_path e))]"

definition commit_json :: "git_commit \<Rightarrow> json" where
  "commit_json c = JObj [(''hash'', JStr (cm_hash c)), (''author'', JStr (cm_author c)),
     (''email'', JStr (cm_email c)), (''date'', JStr (cm_date c)), (''message'', JStr (cm_message c)),
     (''parents'', jtexts (cm_parents c))]"

definition writeJSON :: "int \<Rightarrow> json \<Rightarrow> ('z conn_scheme, flow) st" where
  "writeJSON status value =
     discard_result (set_header ''Content-Type'' ''application/json'')
       (respond status (json_text value @ [newline]))"

definition error_json :: "string \<Rightarrow> json" where
  "error_json message = json_map [(''error'', JStr message)]"

definition listed :: "string \<Rightarrow> ('a \<Rightarrow> json) \<Rightarrow> 'a list \<Rightarrow> json" where
  "listed key f xs = json_map [(key, JArr (map f xs))]"

section \<open>Errors\<close>

definition error_response :: "goerr \<Rightarrow> int \<times> string" where
  "error_response err =
     (if err_is err Repos_ErrAlreadyExists then (409, ''repository already exists'')
      else if err_is err Repos_ErrNotFound then (404, ''repository not found'')
      else if err_is err Gitdata_ErrNotFound then (404, ''revision or path not found'')
      else if err_is err Collab_ErrNotFound then (404, ''not found'')
      else if err_is err Collab_ErrInvalidState then (400, err_text err)
      else if err_is err Collab_ErrNotMergeable \<or> err_is err Collab_ErrReviewRequired
      then (422, err_text err)
      else if err_is err Collab_ErrProtected then (403, ''branch is protected'')
      else if err_is err Auth_ErrUserExists then (409, ''user already exists'')
      else if err_is err Auth_ErrInvalidUsername
      then (400, ''invalid username: use 1-40 letters, numbers, dashes, or underscores'')
      else if err_is err Auth_ErrWeakPassword then (400, err_text err)
      else if err_is err Auth_ErrBadCredentials then (401, ''invalid username or password'')
      else if err_is err Auth_ErrNoSession then (401, ''authentication required'')
      else if has_prefix (err_text err) ''invalid '' then (400, err_text err)
      else (500, ''internal server error''))"

definition writeError :: "goerr \<Rightarrow> ('z conn_scheme, flow) st" where
  "writeError err = (case error_response err of (status, message) \<Rightarrow> writeJSON status (error_json message))"

text \<open>\<^verbatim>\<open>x, err := m(); if err != nil { h.writeError(w, err); return }\<close>\<close>

definition or_error :: "('z conn_scheme, goerr + 'a) st \<Rightarrow> ('a \<Rightarrow> ('z conn_scheme, flow) st) \<Rightarrow> ('z conn_scheme, flow) st" where
  "or_error m k = on_result m writeError k"

section \<open>What is read\<close>

text \<open>
  \<open>Decode\<close> into a struct with \<open>DisallowUnknownFields\<close>: a key names the field it equals up to
  case; null leaves a field as it is but empties a slice; the last value given for a field wins;
  anything else, and a key without a field, is an error.
\<close>

datatype field = FText string | FInt int | FBool bool | FTexts "string list"

fun assign_texts :: "string list \<Rightarrow> json list \<Rightarrow> string list option" where
  "assign_texts old [] = Some []"
| "assign_texts old (j # js) =
     (case (case j of JStr s \<Rightarrow> Some s | JNull \<Rightarrow> Some (if old = [] then [] else hd old) | _ \<Rightarrow> None) of
        None \<Rightarrow> None
      | Some s \<Rightarrow> map_option (\<lambda>ss. s # ss) (assign_texts (tl old) js))"

fun assign :: "field \<Rightarrow> json \<Rightarrow> field option" where
  "assign (FText old) (JStr s) = Some (FText s)"
| "assign (FInt old) (JInt i) = (if min_int64 \<le> i \<and> i \<le> max_int64 then Some (FInt i) else None)"
| "assign (FBool old) (JBool b) = Some (FBool b)"
| "assign (FTexts old) (JArr js) = map_option FTexts (assign_texts old js)"
| "assign (FTexts old) JNull = Some (FTexts [])"
| "assign f JNull = Some f"
| "assign f j = None"

fun set_field :: "string \<Rightarrow> json \<Rightarrow> (string \<times> field) list \<Rightarrow> (string \<times> field) list option" where
  "set_field k j [] = None"
| "set_field k j ((name, f) # fs) =
     (if equal_fold k name then map_option (\<lambda>f'. (name, f') # fs) (assign f j)
      else map_option (\<lambda>fs'. (name, f) # fs') (set_field k j fs))"

fun decode_fields :: "(string \<times> field) list \<Rightarrow> (string \<times> json) list \<Rightarrow> (string \<times> field) list option" where
  "decode_fields fs [] = Some fs"
| "decode_fields fs ((k, j) # kvs) =
     (case set_field k j fs of None \<Rightarrow> None | Some fs' \<Rightarrow> decode_fields fs' kvs)"

fun decode_struct :: "(string \<times> field) list \<Rightarrow> json \<Rightarrow> (string \<times> field) list option" where
  "decode_struct fs (JObj kvs) = decode_fields fs kvs"
| "decode_struct fs JNull = Some fs"
| "decode_struct fs j = None"

definition text_of :: "(string \<times> field) list \<Rightarrow> string \<Rightarrow> string" where
  "text_of fs k = (case map_of fs k of Some (FText s) \<Rightarrow> s | _ \<Rightarrow> [])"

definition texts_of :: "(string \<times> field) list \<Rightarrow> string \<Rightarrow> string list" where
  "texts_of fs k = (case map_of fs k of Some (FTexts ss) \<Rightarrow> ss | _ \<Rightarrow> [])"

definition int_of_field :: "(string \<times> field) list \<Rightarrow> string \<Rightarrow> int" where
  "int_of_field fs k = (case map_of fs k of Some (FInt i) \<Rightarrow> i | _ \<Rightarrow> 0)"

definition bool_of_field :: "(string \<times> field) list \<Rightarrow> string \<Rightarrow> bool" where
  "bool_of_field fs k = (case map_of fs k of Some (FBool b) \<Rightarrow> b | _ \<Rightarrow> False)"

definition texts_struct :: "string list \<Rightarrow> (string \<times> field) list" where
  "texts_struct names = map (\<lambda>n. (n, FText [])) names"

definition decodeJSON ::
  "http_req \<Rightarrow> (string \<times> field) list \<Rightarrow> ((string \<times> field) list \<Rightarrow> ('z conn_scheme, flow) st) \<Rightarrow> ('z conn_scheme, flow) st" where
  "decodeJSON r target k =
     (case (case req_json r of Inl _ \<Rightarrow> None | Inr j \<Rightarrow> decode_struct target j) of
        None \<Rightarrow> writeJSON 400 (error_json ''invalid JSON body'')
      | Some input \<Rightarrow> k input)"

definition trimSpaces :: "string \<Rightarrow> string" where
  "trimSpaces v =
     (let i = skip_start v 0 (length v); j = skip_end v i (length v) in take (j - i) (drop i v))"

definition remoteIP :: "http_req \<Rightarrow> string" where
  "remoteIP r =
     (let forwarded = header_get r ''X-Forwarded-For'' in
      if forwarded \<noteq> [] then trimSpaces (takeWhile (\<lambda>c. c \<noteq> CHR '','') forwarded)
      else req_remote r)"

definition positive_id :: "string \<Rightarrow> int option" where
  "positive_id text = (case parse_int64 text of Inr n \<Rightarrow> if n > 0 then Some n else None | Inl _ \<Rightarrow> None)"

definition parseNumber :: "http_req \<Rightarrow> int option" where
  "parseNumber r = positive_id (path_value r ''number'')"

definition parseID :: "http_req \<Rightarrow> int option" where
  "parseID r = positive_id (path_value r ''id'')"

definition badNumber :: "('z conn_scheme, flow) st" where
  "badNumber = writeJSON 400 (error_json ''invalid number'')"

section \<open>Sessions in cookies (auth.go)\<close>

definition sessionCookie :: string where "sessionCookie = ''gitcastle_session''"

text \<open>\<open>http.TimeFormat\<close>.\<close>

definition http_date :: "time \<Rightarrow> string" where
  "http_date t =
     (case stamp_fields t of (y, mo, d, h, mi, sec) \<Rightarrow>
        [''Thu'', ''Fri'', ''Sat'', ''Sun'', ''Mon'', ''Tue'', ''Wed''] ! (nat (t div 86400000000) mod 7) @
        '', '' @ pad 2 d @ '' '' @
        [''Jan'', ''Feb'', ''Mar'', ''Apr'', ''May'', ''Jun'', ''Jul'', ''Aug'', ''Sep'', ''Oct'', ''Nov'', ''Dec''] ! (mo - 1) @
        '' '' @ pad 4 y @ '' '' @ pad 2 h @ '':'' @ pad 2 mi @ '':'' @ pad 2 sec @ '' GMT'')"

definition cookie_byte :: "char \<Rightarrow> bool" where
  "cookie_byte c \<longleftrightarrow> char_range (CHR '' '') (CHR ''~'') c \<and> c \<notin> {CHR 0x22, CHR '';'', CHR 0x5C}"

definition cookie_value :: "string \<Rightarrow> string" where
  "cookie_value v =
     (let v' = filter cookie_byte v in
      if CHR '' '' \<in> set v' \<or> CHR '','' \<in> set v' then [CHR 0x22] @ v' @ [CHR 0x22] else v')"

definition session_cookie_text :: "string \<Rightarrow> time \<Rightarrow> string" where
  "session_cookie_text token expires =
     sessionCookie @ ''='' @ cookie_value token @ ''; Path=/; Expires='' @ http_date expires @
     ''; HttpOnly; SameSite=Lax''"

definition setSessionCookie :: "string \<Rightarrow> time \<Rightarrow> ('z conn_scheme, unit) st" where
  "setSessionCookie token expires = add_header ''Set-Cookie'' (session_cookie_text token expires)"

definition clearSessionCookie :: "('z conn_scheme, unit) st" where
  "clearSessionCookie = add_header ''Set-Cookie'' (session_cookie_text [] 0)"

definition request_cookie :: "http_req \<Rightarrow> string option" where
  "request_cookie r =
     (case map_of (req_cookies r) sessionCookie of
        None \<Rightarrow> None
      | Some v \<Rightarrow> if v = [] then None else Some v)"

definition currentUser :: "'w api \<Rightarrow> http_req \<Rightarrow> ('w, goerr + user) st" where
  "currentUser h r =
     (case request_cookie r of
        None \<Rightarrow> fail (Sentinel Auth_ErrNoSession)
      | Some token \<Rightarrow> au_user_for_token (api_auth h) token)"

definition WithUser :: "user \<Rightarrow> http_req \<Rightarrow> http_req" where
  "WithUser u r = r\<lparr>req_user := Some u\<rparr>"

text \<open>\<open>user, _ := UserFrom(ctx)\<close>: the zero user when there is none.\<close>

definition UserFrom :: "http_req \<Rightarrow> user" where
  "UserFrom r = (case req_user r of Some u \<Rightarrow> u
     | None \<Rightarrow> \<lparr>user_id = 0, user_name = [], user_created = - 62135596800000000\<rparr>)"

definition requireUser :: "'z conn_scheme api \<Rightarrow> 'z conn_scheme handler \<Rightarrow> 'z conn_scheme handler" where
  "requireUser h next_handler r =
     or_error (currentUser h r) (\<lambda>u. next_handler (WithUser u r))"

definition authenticateRequest :: "'w api \<Rightarrow> http_req \<Rightarrow> ('w, goerr + user) st" where
  "authenticateRequest h r =
     (case req_basic r of
        Some (username, password) \<Rightarrow> au_authenticate (api_auth h) username password
      | None \<Rightarrow> currentUser h r)"

text \<open>Recording in the audit log, whose errors are dropped.\<close>

definition audited ::
  "'w api \<Rightarrow> string \<Rightarrow> string \<Rightarrow> string \<Rightarrow> (string \<times> json) list option \<Rightarrow> http_req \<Rightarrow> ('w, flow) st \<Rightarrow> ('w, flow) st" where
  "audited h actor action target details r k =
     (case api_audit h of
        None \<Rightarrow> k
      | Some a \<Rightarrow> discard_result (ad_record a actor action target details (remoteIP r)) k)"

definition resolveRepo ::
  "'z conn_scheme api \<Rightarrow> http_req \<Rightarrow> (repository \<Rightarrow> ('z conn_scheme, flow) st) \<Rightarrow> ('z conn_scheme, flow) st" where
  "resolveRepo h r k =
     or_error (ra_get (api_repositories h) (path_value r ''owner'') (path_value r ''name'')) k"

end
