(* ===== verification/ApiRoutes.thy ===== *)
theory ApiRoutes
  imports HttpApi
begin

text \<open>
  The routes of package \<open>internal/httpapi\<close> for accounts, repositories, repository content,
  automation, profiles, the audit log and backups (handler.go, auth.go, content.go,
  automation.go, hardening.go).
\<close>

section \<open>Accounts (auth.go)\<close>

definition credentials :: "(string \<times> field) list" where
  "credentials = texts_struct [''username'', ''password'']"

definition register :: "'z conn_scheme api \<Rightarrow> 'z conn_scheme handler" where
  "register h r =
     decodeJSON r credentials (\<lambda>input.
       or_error (au_create_user (api_auth h) (text_of input ''username'') (text_of input ''password''))
         (\<lambda>user. writeJSON 201 (user_json h user)))"

definition login :: "'z conn_scheme api \<Rightarrow> 'z conn_scheme handler" where
  "login h r =
     decodeJSON r credentials (\<lambda>input.
       on_result (au_authenticate (api_auth h) (text_of input ''username'') (text_of input ''password''))
         (\<lambda>err. audited h (text_of input ''username'') ''login_failed'' (text_of input ''username'') None r
            (writeError err))
         (\<lambda>user. audited h (user_name user) ''login'' (user_name user) None r
            (or_error (au_start_session (api_auth h) (user_id user)) (\<lambda>(token, expires).
              discard_result (setSessionCookie token expires)
                (writeJSON 200 (user_json h user))))))"

definition status_json :: "string \<Rightarrow> json" where
  "status_json s = json_map [(''status'', JStr s)]"

definition finish_logout :: "('z conn_scheme, flow) st" where
  "finish_logout = discard_result clearSessionCookie (writeJSON 200 (status_json ''logged out''))"

definition logout :: "'z conn_scheme api \<Rightarrow> 'z conn_scheme handler" where
  "logout h r =
     (let rest =
        (case request_cookie r of
           Some token \<Rightarrow> or_error (au_end_session (api_auth h) token) (\<lambda>_. finish_logout)
         | None \<Rightarrow> finish_logout) in
      case req_user r of
        Some user \<Rightarrow> audited h (user_name user) ''logout'' (user_name user) None r rest
      | None \<Rightarrow> rest)"

definition me :: "'z conn_scheme api \<Rightarrow> 'z conn_scheme handler" where
  "me h r =
     (case req_user r of
        None \<Rightarrow> writeJSON 401 (error_json ''not logged in'')
      | Some user \<Rightarrow> writeJSON 200 (user_json h user))"

section \<open>Repositories (handler.go)\<close>

definition health :: "'z conn_scheme handler" where
  "health r = writeJSON 200 (status_json ''ok'')"

definition listRepositories :: "'z conn_scheme api \<Rightarrow> 'z conn_scheme handler" where
  "listRepositories h r =
     or_error (ra_list (api_repositories h)) (\<lambda>repositories.
       writeJSON 200 (listed ''repositories'' (repository_json h) repositories))"

definition createRepository :: "'z conn_scheme api \<Rightarrow> 'z conn_scheme handler" where
  "createRepository h r =
     (let user = UserFrom r in
      decodeJSON r (texts_struct [''owner'', ''name'']) (\<lambda>input.
        let owner = (if text_of input ''owner'' = [] then user_name user else text_of input ''owner'') in
        or_error (ra_create (api_repositories h) \<lparr>inp_owner = owner, inp_name = text_of input ''name''\<rparr>)
          (\<lambda>repository.
            audited h (user_name user) ''repository_created''
              (repo_owner repository @ ''/'' @ repo_name repository) None r
              (case api_permissions h of
                 None \<Rightarrow> writeJSON 201 (repository_json h repository)
               | Some p \<Rightarrow>
                   or_error (pg_grant p (repo_id repository) (user_name user) RoleAdmin)
                     (\<lambda>_. writeJSON 201 (repository_json h repository))))))"

definition getRepository :: "'z conn_scheme api \<Rightarrow> 'z conn_scheme handler" where
  "getRepository h r = resolveRepo h r (\<lambda>repository. writeJSON 200 (repository_json h repository))"

section \<open>Content (content.go)\<close>

definition DiskContent_Repo ::
  "'w repositories_api \<Rightarrow> string \<Rightarrow> string \<Rightarrow> ('w, goerr + string) st" where
  "DiskContent_Repo repositories owner name =
     on_result (ra_get repositories owner name) fail (\<lambda>repository. ok (repo_path repository))"

definition openRepo ::
  "'z conn_scheme api \<Rightarrow> http_req \<Rightarrow> (string \<Rightarrow> ('z conn_scheme, flow) st) \<Rightarrow> ('z conn_scheme, flow) st" where
  "openRepo h r k = or_error (api_content h (path_value r ''owner'') (path_value r ''name'')) k"

definition listRefsRoute :: "'z conn_scheme api \<Rightarrow> 'z conn_scheme handler" where
  "listRefsRoute h r =
     openRepo h r (\<lambda>repo.
       or_error (ListRefs (api_run h) repo) (\<lambda>(refs, head).
         writeJSON 200 (json_map [(''refs'', JArr (map ref_json refs)), (''head'', JStr head)])))"

definition listTreeRoute :: "'z conn_scheme api \<Rightarrow> 'z conn_scheme handler" where
  "listTreeRoute h r =
     openRepo h r (\<lambda>repo.
       or_error (ListTree (api_run h) repo (path_value r ''rev'') (query_get r ''path'')) (\<lambda>entries.
         writeJSON 200 (listed ''entries'' tree_entry_json entries)))"

definition getBlobRoute :: "'z conn_scheme api \<Rightarrow> 'z conn_scheme handler" where
  "getBlobRoute h r =
     openRepo h r (\<lambda>repo.
       or_error (Blob (api_run h) repo (path_value r ''rev'') (query_get r ''path''))
         (\<lambda>(content, too_large).
           if too_large then writeJSON 200 (json_map [(''too_large'', JBool True)])
           else writeJSON 200 (json_map [(''content'', JStr content), (''too_large'', JBool False)])))"

definition listCommitsRoute :: "'z conn_scheme api \<Rightarrow> 'z conn_scheme handler" where
  "listCommitsRoute h r =
     openRepo h r (\<lambda>repo.
       or_error (ListCommits (api_run h) repo (path_value r ''rev'') [] 50) (\<lambda>commits.
         writeJSON 200 (listed ''commits'' commit_json commits)))"

definition getCommitRoute :: "'z conn_scheme api \<Rightarrow> 'z conn_scheme handler" where
  "getCommitRoute h r =
     openRepo h r (\<lambda>repo.
       or_error (GetCommit (api_run h) repo (path_value r ''hash'')) (\<lambda>(commit, patch).
         writeJSON 200 (json_map [(''commit'', commit_json commit), (''patch'', JStr patch)])))"

section \<open>Automation (automation.go)\<close>

text \<open>
  A call through a nil interface panics. The webhook routes are only mounted with a manager; the
  job and secret routes are mounted with them, whether or not there is a store behind them.
\<close>

definition calling :: "'a option \<Rightarrow> ('a \<Rightarrow> ('z conn_scheme, flow) st) \<Rightarrow> ('z conn_scheme, flow) st" where
  "calling i k = (case i of None \<Rightarrow> ret flow.Panicked | Some x \<Rightarrow> k x)"

definition listWebhooksRoute :: "'z conn_scheme api \<Rightarrow> 'z conn_scheme handler" where
  "listWebhooksRoute h r =
     resolveRepo h r (\<lambda>repository.
       calling (api_webhooks h) (\<lambda>m. or_error (wm_list m (repo_id repository)) (\<lambda>hooks.
         writeJSON 200 (listed ''webhooks'' hook_json hooks))))"

definition createWebhookRoute :: "'z conn_scheme api \<Rightarrow> 'z conn_scheme handler" where
  "createWebhookRoute h r =
     resolveRepo h r (\<lambda>repository.
       decodeJSON r [(''url'', FText []), (''secret'', FText []), (''events'', FTexts [])] (\<lambda>input.
         let events = (if texts_of input ''events'' = [] then [''push'', ''pull_request'']
                       else texts_of input ''events'') in
         calling (api_webhooks h) (\<lambda>m.
           or_error (wm_create m (repo_id repository) (text_of input ''url'') (text_of input ''secret'') events)
             (\<lambda>hook. writeJSON 201 (hook_json hook)))))"

definition deleteWebhookRoute :: "'z conn_scheme api \<Rightarrow> 'z conn_scheme handler" where
  "deleteWebhookRoute h r =
     resolveRepo h r (\<lambda>repository.
       case parseID r of
         None \<Rightarrow> badNumber
       | Some i \<Rightarrow> calling (api_webhooks h) (\<lambda>m. or_error (wm_delete m (repo_id repository) i) (\<lambda>_.
           writeJSON 200 (status_json ''deleted''))))"

definition listDeliveriesRoute :: "'z conn_scheme api \<Rightarrow> 'z conn_scheme handler" where
  "listDeliveriesRoute h r =
     resolveRepo h r (\<lambda>repository.
       calling (api_webhooks h) (\<lambda>m. or_error (wm_deliveries m (repo_id repository)) (\<lambda>deliveries.
         writeJSON 200 (listed ''deliveries'' (delivery_json h) deliveries))))"

definition listJobsRoute :: "'z conn_scheme api \<Rightarrow> 'z conn_scheme handler" where
  "listJobsRoute h r =
     resolveRepo h r (\<lambda>repository.
       calling (api_jobs h) (\<lambda>list_jobs. or_error (list_jobs (repo_id repository) 20) (\<lambda>jobs.
         writeJSON 200 (listed ''jobs'' (job_json h) jobs))))"

definition listSecretsRoute :: "'z conn_scheme api \<Rightarrow> 'z conn_scheme handler" where
  "listSecretsRoute h r =
     resolveRepo h r (\<lambda>repository.
       calling (api_secrets h) (\<lambda>m. or_error (sm_list m (repo_id repository)) (\<lambda>secrets.
         writeJSON 200 (listed ''secrets'' (secret_json h) secrets))))"

definition putSecretRoute :: "'z conn_scheme api \<Rightarrow> 'z conn_scheme handler" where
  "putSecretRoute h r =
     resolveRepo h r (\<lambda>repository.
       let name = path_value r ''secretName'' in
       if name = [] then badNumber
       else decodeJSON r (texts_struct [''value'']) (\<lambda>input.
         calling (api_secrets h) (\<lambda>m.
           or_error (sm_set m (repo_id repository) name (text_of input ''value'')) (\<lambda>_.
             writeJSON 201 (json_map [(''name'', JStr name)])))))"

definition deleteSecretRoute :: "'z conn_scheme api \<Rightarrow> 'z conn_scheme handler" where
  "deleteSecretRoute h r =
     resolveRepo h r (\<lambda>repository.
       calling (api_secrets h) (\<lambda>m.
         or_error (sm_delete m (repo_id repository) (path_value r ''secretName'')) (\<lambda>_.
           writeJSON 200 (status_json ''deleted''))))"

definition notifyPushRoute :: "'z conn_scheme api \<Rightarrow> 'z conn_scheme handler" where
  "notifyPushRoute h r =
     (case api_pushes h of
        None \<Rightarrow> writeJSON 404 (error_json ''push notifications disabled'')
      | Some notify \<Rightarrow>
          if api_internal_token h = [] then writeJSON 404 (error_json ''push notifications disabled'')
          else if header_get r ''X-Gitcastle-Internal-Token'' \<noteq> api_internal_token h
          then writeJSON 401 (error_json ''invalid token'')
          else decodeJSON r (texts_struct [''owner'', ''name'', ''branch'', ''old_hash'', ''new_hash'']) (\<lambda>input.
            if text_of input ''owner'' = [] \<or> text_of input ''name'' = [] \<or> text_of input ''branch'' = []
            then writeJSON 400 (error_json ''owner, name, branch required'')
            else
              or_error (ra_get (api_repositories h) (text_of input ''owner'') (text_of input ''name''))
                (\<lambda>repository.
                  discard_result
                    (notify \<lparr>ap_repository = repo_id repository, ap_owner = text_of input ''owner'',
                       ap_name = text_of input ''name'', ap_branch = text_of input ''branch'',
                       ap_old_hash = text_of input ''old_hash'', ap_new_hash = text_of input ''new_hash''\<rparr>)
                    (writeJSON 200 (status_json ''notified'')))))"

section \<open>Profiles, audit log, backups (hardening.go)\<close>

definition getProfileRoute :: "'z conn_scheme api \<Rightarrow> 'z conn_scheme handler" where
  "getProfileRoute h r =
     (case api_profiles h of
        None \<Rightarrow> writeJSON 501 (error_json ''profiles disabled'')
      | Some m \<Rightarrow> or_error (pm_get m (path_value r ''username'')) (\<lambda>profile.
          writeJSON 200 (profile_json h profile)))"

definition profile_input :: "(string \<times> field) list \<Rightarrow> profile" where
  "profile_input input =
     \<lparr>prof_username = [], prof_display = text_of input ''display_name'', prof_bio = text_of input ''bio'',
      prof_location = text_of input ''location'', prof_website = text_of input ''website'',
      prof_joined = - 62135596800000000\<rparr>"

definition updateProfileRoute :: "'z conn_scheme api \<Rightarrow> 'z conn_scheme handler" where
  "updateProfileRoute h r =
     (let user = UserFrom r in
      if user_name user \<noteq> path_value r ''username''
      then writeJSON 403 (error_json ''may only edit your own profile'')
      else decodeJSON r (texts_struct [''display_name'', ''bio'', ''location'', ''website'']) (\<lambda>input.
        calling (api_profiles h) (\<lambda>m.
          or_error (pm_update m (user_name user) (profile_input input)) (\<lambda>profile.
            writeJSON 200 (profile_json h profile)))))"

text \<open>\<open>limit, _ := strconv.Atoi(...)\<close>: the value beside an error is used too.\<close>

definition atoi_value :: "string \<Rightarrow> int" where
  "atoi_value s = (case parse_int64 s of Inl i \<Rightarrow> i | Inr i \<Rightarrow> i)"

definition listAuditRoute :: "'z conn_scheme api \<Rightarrow> 'z conn_scheme handler" where
  "listAuditRoute h r =
     calling (api_audit h) (\<lambda>a.
       or_error (ad_list a (query_get r ''actor'') (query_get r ''action'') (atoi_value (query_get r ''limit'')))
         (\<lambda>entries. writeJSON 200 (listed ''entries'' (entry_json h) entries)))"

definition createBackupRoute :: "'z conn_scheme api \<Rightarrow> 'z conn_scheme handler" where
  "createBackupRoute h r =
     resolveRepo h r (\<lambda>repository.
       let user = UserFrom r in
       calling (api_backups h) (\<lambda>m.
         or_error (ba_backup m (repo_owner repository) (repo_name repository)) (\<lambda>key.
           audited h (user_name user) ''repository_backed_up''
             (repo_owner repository @ ''/'' @ repo_name repository) (Some [(''key'', JStr key)]) r
             (writeJSON 201 (json_map [(''key'', JStr key)])))))"

definition listBackupsRoute :: "'z conn_scheme api \<Rightarrow> 'z conn_scheme handler" where
  "listBackupsRoute h r =
     resolveRepo h r (\<lambda>repository.
       calling (api_backups h) (\<lambda>m.
         or_error (ba_list m (repo_owner repository) (repo_name repository)) (\<lambda>objects.
           writeJSON 200 (listed ''backups'' (backup_json h) objects))))"

end
