(* ===== verification/ApiCollab.thy ===== *)
theory ApiCollab
  imports ApiRoutes
begin

text \<open>
  The collaboration routes of package \<open>internal/httpapi\<close>: issues, comments, pull requests and
  their merge, reviews, branch protection (collab.go). \<open>with_collab\<close> stands for the calls
  through the interface, which panic when it is nil; the routes are only mounted when it is not.
\<close>

definition with_collab ::
  "'z conn_scheme api \<Rightarrow> ('z conn_scheme collaboration \<Rightarrow> ('z conn_scheme, flow) st) \<Rightarrow> ('z conn_scheme, flow) st" where
  "with_collab h k = calling (api_collab h) k"

text \<open>The number in the path, or the answer \<open>badNumber\<close>.\<close>

definition with_number :: "http_req \<Rightarrow> (int \<Rightarrow> ('z conn_scheme, flow) st) \<Rightarrow> ('z conn_scheme, flow) st" where
  "with_number r k = (case parseNumber r of None \<Rightarrow> badNumber | Some n \<Rightarrow> k n)"

section \<open>Issues and comments\<close>

definition createIssueRoute :: "'z conn_scheme api \<Rightarrow> 'z conn_scheme handler" where
  "createIssueRoute h r =
     resolveRepo h r (\<lambda>repository.
       let user = UserFrom r in
       decodeJSON r (texts_struct [''title'', ''body'']) (\<lambda>input.
         with_collab h (\<lambda>c.
           or_error (co_create_issue c (repo_id repository) (user_name user) (text_of input ''title'') (text_of input ''body''))
             (\<lambda>issue. writeJSON 201 (issue_json h issue)))))"

definition listIssuesRoute :: "'z conn_scheme api \<Rightarrow> 'z conn_scheme handler" where
  "listIssuesRoute h r =
     resolveRepo h r (\<lambda>repository.
       with_collab h (\<lambda>c. or_error (co_list_issues c (repo_id repository) (query_get r ''state'')) (\<lambda>issues.
         writeJSON 200 (listed ''issues'' (issue_json h) issues))))"

definition getIssueRoute :: "'z conn_scheme api \<Rightarrow> 'z conn_scheme handler" where
  "getIssueRoute h r =
     resolveRepo h r (\<lambda>repository. with_number r (\<lambda>number.
       with_collab h (\<lambda>c. or_error (co_get_issue c (repo_id repository) number) (\<lambda>issue.
         writeJSON 200 (issue_json h issue)))))"

definition patchIssueRoute :: "'z conn_scheme api \<Rightarrow> 'z conn_scheme handler" where
  "patchIssueRoute h r =
     resolveRepo h r (\<lambda>repository. with_number r (\<lambda>number.
       decodeJSON r (texts_struct [''state'']) (\<lambda>input.
         with_collab h (\<lambda>c.
           or_error (co_set_issue_state c (repo_id repository) number (text_of input ''state'')) (\<lambda>issue.
             writeJSON 200 (issue_json h issue))))))"

definition addComment :: "'z conn_scheme api \<Rightarrow> string \<Rightarrow> 'z conn_scheme handler" where
  "addComment h subject_type r =
     resolveRepo h r (\<lambda>repository. with_number r (\<lambda>number.
       let user = UserFrom r in
       decodeJSON r (texts_struct [''body'']) (\<lambda>input.
         with_collab h (\<lambda>c.
           or_error (co_add_comment c (repo_id repository) subject_type number (user_name user) (text_of input ''body''))
             (\<lambda>comment. writeJSON 201 (comment_json h comment))))))"

definition listComments :: "'z conn_scheme api \<Rightarrow> string \<Rightarrow> 'z conn_scheme handler" where
  "listComments h subject_type r =
     resolveRepo h r (\<lambda>repository. with_number r (\<lambda>number.
       with_collab h (\<lambda>c. or_error (co_list_comments c (repo_id repository) subject_type number) (\<lambda>comments.
         writeJSON 200 (listed ''comments'' (comment_json h) comments)))))"

definition addIssueCommentRoute :: "'z conn_scheme api \<Rightarrow> 'z conn_scheme handler" where
  "addIssueCommentRoute h = addComment h ''issue''"

definition listCommentsRoute :: "'z conn_scheme api \<Rightarrow> 'z conn_scheme handler" where
  "listCommentsRoute h = listComments h ''issue''"

definition addPRCommentRoute :: "'z conn_scheme api \<Rightarrow> 'z conn_scheme handler" where
  "addPRCommentRoute h = addComment h ''pull_request''"

definition listPRCommentsRoute :: "'z conn_scheme api \<Rightarrow> 'z conn_scheme handler" where
  "listPRCommentsRoute h = listComments h ''pull_request''"

section \<open>Pull requests\<close>

definition createPullRequestRoute :: "'z conn_scheme api \<Rightarrow> 'z conn_scheme handler" where
  "createPullRequestRoute h r =
     resolveRepo h r (\<lambda>repository.
       let user = UserFrom r in
       decodeJSON r (texts_struct [''title'', ''body'', ''source_branch'', ''target_branch'']) (\<lambda>input.
         with_collab h (\<lambda>c.
           or_error (co_create_pull c (repo_id repository) (user_name user) (text_of input ''title'')
               (text_of input ''body'') (text_of input ''source_branch'') (text_of input ''target_branch''))
             (\<lambda>pr. writeJSON 201 (pull_json h pr)))))"

definition listPullRequestsRoute :: "'z conn_scheme api \<Rightarrow> 'z conn_scheme handler" where
  "listPullRequestsRoute h r =
     resolveRepo h r (\<lambda>repository.
       with_collab h (\<lambda>c. or_error (co_list_pulls c (repo_id repository) (query_get r ''state'')) (\<lambda>prs.
         writeJSON 200 (listed ''pull_requests'' (pull_json h) prs))))"

definition getPullRequestRoute :: "'z conn_scheme api \<Rightarrow> 'z conn_scheme handler" where
  "getPullRequestRoute h r =
     resolveRepo h r (\<lambda>repository. with_number r (\<lambda>number.
       with_collab h (\<lambda>c.
         or_error (co_get_pull c (repo_id repository) number) (\<lambda>pr.
           or_error (co_evaluate_merge c (repo_id repository) number) (\<lambda>check.
             writeJSON 200 (json_map [(''pull_request'', pull_json h pr), (''merge_check'', check_json check)]))))))"

definition blocked_json :: "merge_check \<Rightarrow> json" where
  "blocked_json check =
     json_map [(''error'', JStr ''merge blocked''), (''blockers'', jtexts (mc_blockers check))]"

text \<open>\<open>go h.Automation.PullRequestMerged(event)\<close>.\<close>

definition start_automation ::
  "'z site_scheme api \<Rightarrow> api_merge_event \<Rightarrow> ('z site_scheme, unit) st" where
  "start_automation h event =
     (case api_automation h of
        None \<Rightarrow> ret ()
      | Some _ \<Rightarrow> modify_state (\<lambda>s. s\<lparr>site_merges := site_merges s @ [event]\<rparr>))"

text \<open>The end of the route, from the hash of the merge commit on.\<close>

definition record_merge ::
  "'z site_scheme api \<Rightarrow> 'z site_scheme collaboration \<Rightarrow> repository \<Rightarrow> int \<Rightarrow> user \<Rightarrow> string \<Rightarrow> ('z site_scheme, flow) st" where
  "record_merge h c repository number user merge_commit =
     or_error (co_set_pull_state c (repo_id repository) number ''merged'' merge_commit) (\<lambda>pr.
       discard_result
         (start_automation h
           \<lparr>am_repository = repo_id repository, am_owner = repo_owner repository,
            am_name = repo_name repository, am_number = number, am_actor = user_name user,
            am_merge_commit = merge_commit, am_source_branch = pr_source pr,
            am_target_branch = pr_target pr\<rparr>)
         (writeJSON 200 (pull_json h pr)))"

definition mergePullRequestRoute :: "'z site_scheme api \<Rightarrow> 'z site_scheme handler" where
  "mergePullRequestRoute h r =
     resolveRepo h r (\<lambda>repository. with_number r (\<lambda>number.
       with_collab h (\<lambda>c.
         or_error (co_evaluate_merge c (repo_id repository) number) (\<lambda>check.
           if \<not> mc_mergable check then writeJSON 422 (blocked_json check)
           else
             let user = UserFrom r in
             case api_merger h of
               None \<Rightarrow> record_merge h c repository number user []
             | Some merge \<Rightarrow>
                 or_error (co_get_pull c (repo_id repository) number) (\<lambda>pr.
                   on_result (merge (repo_owner repository) (repo_name repository) number
                       (pr_source pr) (pr_target pr) (user_name user))
                     (\<lambda>err. writeJSON 409 (error_json (''git merge failed: '' @ err_text err)))
                     (\<lambda>hash. record_merge h c repository number user hash))))))"

section \<open>Reviews and branch protection\<close>

definition putReviewRoute :: "'z conn_scheme api \<Rightarrow> 'z conn_scheme handler" where
  "putReviewRoute h r =
     resolveRepo h r (\<lambda>repository. with_number r (\<lambda>number.
       let user = UserFrom r in
       decodeJSON r (texts_struct [''verdict'', ''body'']) (\<lambda>input.
         with_collab h (\<lambda>c.
           or_error (co_upsert_review c (repo_id repository) number (user_name user)
               (text_of input ''verdict'') (text_of input ''body''))
             (\<lambda>review. writeJSON 201 (review_json h review))))))"

definition listReviewsRoute :: "'z conn_scheme api \<Rightarrow> 'z conn_scheme handler" where
  "listReviewsRoute h r =
     resolveRepo h r (\<lambda>repository. with_number r (\<lambda>number.
       with_collab h (\<lambda>c. or_error (co_list_reviews c (repo_id repository) number) (\<lambda>reviews.
         writeJSON 200 (listed ''reviews'' (review_json h) reviews)))))"

definition getProtectionRoute :: "'z conn_scheme api \<Rightarrow> 'z conn_scheme handler" where
  "getProtectionRoute h r =
     resolveRepo h r (\<lambda>repository.
       with_collab h (\<lambda>c. or_error (co_get_protection c (repo_id repository) (path_value r ''branch''))
         (\<lambda>protection. writeJSON 200 (protection_json protection))))"

definition putProtectionRoute :: "'z conn_scheme api \<Rightarrow> 'z conn_scheme handler" where
  "putProtectionRoute h r =
     resolveRepo h r (\<lambda>repository.
       decodeJSON r [(''required_approvals'', FInt 0), (''allow_force_push'', FBool False)] (\<lambda>input.
         let protection = \<lparr>bp_branch = path_value r ''branch'',
               bp_required_approvals = int_of_field input ''required_approvals'',
               bp_allow_force_push = bool_of_field input ''allow_force_push''\<rparr> in
         with_collab h (\<lambda>c. or_error (co_set_protection c (repo_id repository) protection) (\<lambda>_.
           writeJSON 200 (protection_json protection)))))"

definition deleteProtectionRoute :: "'z conn_scheme api \<Rightarrow> 'z conn_scheme handler" where
  "deleteProtectionRoute h r =
     resolveRepo h r (\<lambda>repository.
       with_collab h (\<lambda>c. or_error (co_delete_protection c (repo_id repository) (path_value r ''branch''))
         (\<lambda>_. writeJSON 200 (status_json ''deleted''))))"

end
