(* ===== verification/ApiRouter.thy ===== *)
theory ApiRouter
  imports ApiCollab
begin

text \<open>
  The router of net/http for patterns without a host, and the handler that
  \<open>NewHandler\<close> builds with it (handler.go, and the \<open>register\<close> functions of the other files).
  Shown: which routes are open to requests without a session, that the others refuse them, and
  that the routes do not get in each other's way.
\<close>

section \<open>Patterns\<close>

text \<open>\<open>url.PathUnescape\<close>.\<close>

fun unescape :: "string \<Rightarrow> string option" where
  "unescape [] = Some []"
| "unescape (c # s) =
     (if c \<noteq> CHR ''%'' then map_option (\<lambda>t. c # t) (unescape s)
      else case s of
        a # b # rest \<Rightarrow>
          (case (hex_value a, hex_value b) of
             (Some x, Some y) \<Rightarrow> map_option (\<lambda>t. char_of (16 * x + y) # t) (unescape rest)
           | _ \<Rightarrow> None)
      | _ \<Rightarrow> None)"

definition path_unescape :: "string \<Rightarrow> string" where
  "path_unescape s = (case unescape s of None \<Rightarrow> s | Some t \<Rightarrow> t)"

text \<open>
  A pattern \<open>METHOD /a/{x}\<close>. A segment in braces matches any segment and binds its unescaped
  text, but for the slash: a trailing one, or a segment whose unescaped text is a slash, which
  net/http takes for one; any other segment of a pattern matches the text it is.
\<close>

definition pattern_method :: "string \<Rightarrow> string" where
  "pattern_method p = fst (cut (CHR '' '') p)"

definition pattern_segments :: "string \<Rightarrow> string list" where
  "pattern_segments p = tl (split_char slash (fst (snd (cut (CHR '' '') p))))"

definition wildcard :: "string \<Rightarrow> string option" where
  "wildcard seg = (if has_prefix seg ''{'' then Some (drop 1 (butlast seg)) else None)"

fun match_segments :: "string list \<Rightarrow> string list \<Rightarrow> (string \<times> string) list option" where
  "match_segments [] [] = Some []"
| "match_segments (p # ps) (x # xs) =
     (case wildcard p of
        None \<Rightarrow> if path_unescape x = p then match_segments ps xs else None
      | Some name \<Rightarrow> if x = [] \<and> xs = [] \<or> path_unescape x = ''/'' then None
          else map_option (\<lambda>vs. (name, path_unescape x) # vs) (match_segments ps xs))"
| "match_segments _ _ = None"

definition request_segments :: "string \<Rightarrow> string list" where
  "request_segments p = tl (split_char slash p)"

record 'w route =
  rt_pattern :: string
  rt_handler :: "'w handler"

text \<open>A pattern for \<open>GET\<close> matches \<open>HEAD\<close> too.\<close>

definition method_matches :: "string \<Rightarrow> string \<Rightarrow> bool" where
  "method_matches m method \<longleftrightarrow> m = method \<or> m = ''GET'' \<and> method = ''HEAD''"

definition route_match :: "string \<Rightarrow> string \<Rightarrow> 'w route \<Rightarrow> (string \<times> string) list option" where
  "route_match method p rt =
     (if method_matches (pattern_method (rt_pattern rt)) method
      then match_segments (pattern_segments (rt_pattern rt)) (request_segments p) else None)"

fun find_route :: "'w route list \<Rightarrow> string \<Rightarrow> string \<Rightarrow> ('w route \<times> (string \<times> string) list) option" where
  "find_route [] method p = None"
| "find_route (rt # rts) method p =
     (case route_match method p rt of Some vs \<Rightarrow> Some (rt, vs) | None \<Rightarrow> find_route rts method p)"

text \<open>The methods for which some pattern matches the path, in order, for the \<open>Allow\<close> header.\<close>

definition allowed_methods :: "'w route list \<Rightarrow> string \<Rightarrow> string list" where
  "allowed_methods rts p =
     filter (\<lambda>m. list_ex (\<lambda>rt. route_match m p rt \<noteq> None) rts)
       [''DELETE'', ''GET'', ''HEAD'', ''PATCH'', ''POST'', ''PUT'']"

text \<open>
  Serving: an unclean path is redirected (\<open>moved\<close> gives the location and the body net/http writes
  for it), an unknown one is not found. Paths that differ from a pattern in a trailing slash are
  not redirected, since no pattern of this router ends in one.
\<close>

definition redirect_to :: "string \<times> string \<Rightarrow> http_req \<Rightarrow> ('z conn_scheme, flow) st" where
  "redirect_to target r =
     discard_result (set_header ''Location'' (fst target))
       (if req_method r = ''GET'' \<or> req_method r = ''HEAD'' then
          discard_result (set_header ''Content-Type'' ''text/html; charset=utf-8'')
            (if req_method r = ''GET'' then respond 301 (snd target) else write_header 301)
        else write_header 301)"

definition serve_routes ::
  "(string \<Rightarrow> string \<Rightarrow> string \<times> string) \<Rightarrow> 'z conn_scheme route list \<Rightarrow> 'z conn_scheme handler" where
  "serve_routes moved rts r =
     (let p = req_escaped r in
      if req_method r \<noteq> ''CONNECT'' \<and> mux_clean_path p \<noteq> p
      then redirect_to (moved (mux_clean_path p) (req_raw_query r)) r
      else case find_route rts (req_method r) p of
        Some (rt, vs) \<Rightarrow> rt_handler rt (r\<lparr>req_values := vs\<rparr>)
      | None \<Rightarrow>
          if allowed_methods rts p \<noteq> [] then
            discard_result (set_header ''Allow'' (join_str '', '' (allowed_methods rts p)))
              (http_error ''Method Not Allowed'' 405)
          else http_error ''404 page not found'' 404)"

section \<open>The routes\<close>

definition route :: "string \<Rightarrow> 'w handler \<Rightarrow> 'w route" where
  "route p f = \<lparr>rt_pattern = p, rt_handler = f\<rparr>"

definition repository_base :: string where
  "repository_base = ''/api/v1/repositories/{owner}/{name}''"

definition account_routes :: "'z conn_scheme api \<Rightarrow> 'z conn_scheme route list" where
  "account_routes h =
     [route ''GET /healthz'' health,
      route ''POST /api/v1/register'' (register h),
      route ''POST /api/v1/login'' (login h),
      route ''POST /api/v1/logout'' (logout h),
      route ''GET /api/v1/me'' (requireUser h (me h)),
      route ''GET /api/v1/repositories'' (requireUser h (listRepositories h)),
      route ''POST /api/v1/repositories'' (requireUser h (createRepository h)),
      route ''GET /api/v1/repositories/{owner}/{name}'' (requireUser h (getRepository h))]"

definition registerContentRoutes :: "'z conn_scheme api \<Rightarrow> 'z conn_scheme route list" where
  "registerContentRoutes h =
     [route (''GET '' @ repository_base @ ''/refs'') (requireUser h (listRefsRoute h)),
      route (''GET '' @ repository_base @ ''/tree/{rev}'') (requireUser h (listTreeRoute h)),
      route (''GET '' @ repository_base @ ''/blob/{rev}'') (requireUser h (getBlobRoute h)),
      route (''GET '' @ repository_base @ ''/commits/{rev}'') (requireUser h (listCommitsRoute h)),
      route (''GET '' @ repository_base @ ''/commit/{hash}'') (requireUser h (getCommitRoute h))]"

definition registerCollabRoutes :: "'z site_scheme api \<Rightarrow> 'z site_scheme route list" where
  "registerCollabRoutes h =
     (let issue = repository_base @ ''/issues''; pr = repository_base @ ''/pulls'';
          protection = repository_base @ ''/branches/{branch}/protection'' in
     [route (''GET '' @ issue) (requireUser h (listIssuesRoute h)),
      route (''POST '' @ issue) (requireUser h (createIssueRoute h)),
      route (''GET '' @ issue @ ''/{number}'') (requireUser h (getIssueRoute h)),
      route (''PATCH '' @ issue @ ''/{number}'') (requireUser h (patchIssueRoute h)),
      route (''GET '' @ issue @ ''/{number}/comments'') (requireUser h (listCommentsRoute h)),
      route (''POST '' @ issue @ ''/{number}/comments'') (requireUser h (addIssueCommentRoute h)),
      route (''GET '' @ pr) (requireUser h (listPullRequestsRoute h)),
      route (''POST '' @ pr) (requireUser h (createPullRequestRoute h)),
      route (''GET '' @ pr @ ''/{number}'') (requireUser h (getPullRequestRoute h)),
      route (''POST '' @ pr @ ''/{number}/merge'') (requireUser h (mergePullRequestRoute h)),
      route (''GET '' @ pr @ ''/{number}/comments'') (requireUser h (listPRCommentsRoute h)),
      route (''POST '' @ pr @ ''/{number}/comments'') (requireUser h (addPRCommentRoute h)),
      route (''PUT '' @ pr @ ''/{number}/review'') (requireUser h (putReviewRoute h)),
      route (''GET '' @ pr @ ''/{number}/reviews'') (requireUser h (listReviewsRoute h)),
      route (''GET '' @ protection) (requireUser h (getProtectionRoute h)),
      route (''PUT '' @ protection) (requireUser h (putProtectionRoute h)),
      route (''DELETE '' @ protection) (requireUser h (deleteProtectionRoute h))])"

definition registerAutomationRoutes :: "'z conn_scheme api \<Rightarrow> 'z conn_scheme route list" where
  "registerAutomationRoutes h =
     [route ''POST /api/v1/internal/notify-push'' (notifyPushRoute h),
      route (''GET '' @ repository_base @ ''/webhooks'') (requireUser h (listWebhooksRoute h)),
      route (''POST '' @ repository_base @ ''/webhooks'') (requireUser h (createWebhookRoute h)),
      route (''DELETE '' @ repository_base @ ''/webhooks/{id}'') (requireUser h (deleteWebhookRoute h)),
      route (''GET '' @ repository_base @ ''/webhooks/deliveries'') (requireUser h (listDeliveriesRoute h)),
      route (''GET '' @ repository_base @ ''/jobs'') (requireUser h (listJobsRoute h)),
      route (''GET '' @ repository_base @ ''/secrets'') (requireUser h (listSecretsRoute h)),
      route (''PUT '' @ repository_base @ ''/secrets/{secretName}'') (requireUser h (putSecretRoute h)),
      route (''DELETE '' @ repository_base @ ''/secrets/{secretName}'') (requireUser h (deleteSecretRoute h))]"

definition registerHardeningRoutes :: "'z conn_scheme api \<Rightarrow> 'z conn_scheme route list" where
  "registerHardeningRoutes h =
     [route ''GET /api/v1/users/{username}/profile'' (getProfileRoute h),
      route ''PUT /api/v1/users/{username}/profile'' (requireUser h (updateProfileRoute h))] @
     (if api_audit h \<noteq> None
      then [route ''GET /api/v1/admin/audit'' (requireUser h (listAuditRoute h))] else []) @
     (if api_backups h \<noteq> None
      then [route (''POST '' @ repository_base @ ''/backups'') (requireUser h (createBackupRoute h)),
            route (''GET '' @ repository_base @ ''/backups'') (requireUser h (listBackupsRoute h))]
      else [])"

definition api_routes :: "'z site_scheme api \<Rightarrow> 'z site_scheme route list" where
  "api_routes h =
     account_routes h @ registerContentRoutes h @
     (if api_collab h \<noteq> None then registerCollabRoutes h else []) @
     (if api_webhooks h \<noteq> None then registerAutomationRoutes h else []) @
     registerHardeningRoutes h"

text \<open>\<open>loggingMiddleware\<close> only adds a log line.\<close>

definition loggingMiddleware :: "'w handler \<Rightarrow> 'w handler" where
  "loggingMiddleware next_handler r = next_handler r"

record 'w options =
  opt_content :: "(string \<Rightarrow> string \<Rightarrow> ('w, goerr + string) st) option"
  opt_collab :: "'w collaboration option"
  opt_merger :: "'w merger option"
  opt_automation :: "(api_merge_event \<Rightarrow> ('w, unit) st) option"
  opt_webhooks :: "'w webhook_manager option"
  opt_jobs :: "(int \<Rightarrow> int \<Rightarrow> ('w, goerr + job list) st) option"
  opt_secrets :: "'w secret_manager option"
  opt_pushes :: "(api_push_event \<Rightarrow> ('w, unit) st) option"
  opt_audit :: "'w auditor option"
  opt_profiles :: "'w profile_manager option"
  opt_backups :: "'w backups_api option"
  opt_internal_token :: string

text \<open>What the handler needs beside its services: the runner, the two texts, the redirect.\<close>

record 'w surroundings =
  env_run :: "'w runner"
  env_time :: "time \<Rightarrow> string"
  env_compact :: "string \<Rightarrow> string"
  env_moved :: "string \<Rightarrow> string \<Rightarrow> string \<times> string"

definition new_api ::
  "'w surroundings \<Rightarrow> 'w repositories_api \<Rightarrow> 'w authenticator \<Rightarrow> 'w permission_granter option \<Rightarrow> 'w options \<Rightarrow> 'w api" where
  "new_api env repositories auth permissions opts =
     \<lparr>api_repositories = repositories, api_auth = auth, api_permissions = permissions,
      api_content = (case opt_content opts of None \<Rightarrow> DiskContent_Repo repositories | Some c \<Rightarrow> c),
      api_collab = opt_collab opts, api_merger = opt_merger opts, api_automation = opt_automation opts,
      api_webhooks = opt_webhooks opts, api_jobs = opt_jobs opts, api_secrets = opt_secrets opts,
      api_pushes = opt_pushes opts, api_audit = opt_audit opts, api_profiles = opt_profiles opts,
      api_backups = opt_backups opts, api_internal_token = opt_internal_token opts,
      api_run = env_run env, api_time = env_time env, api_compact = env_compact env\<rparr>"

definition NewHandler ::
  "'z site_scheme surroundings \<Rightarrow> 'z site_scheme repositories_api \<Rightarrow> 'z site_scheme authenticator \<Rightarrow>
   'z site_scheme permission_granter option \<Rightarrow> 'z site_scheme options \<Rightarrow> 'z site_scheme handler" where
  "NewHandler env repositories auth permissions opts =
     (let h = new_api env repositories auth permissions opts in
      loggingMiddleware (serve_routes (env_moved env) (api_routes h)))"

section \<open>The router picks one route\<close>

text \<open>
  net/http prefers the most specific pattern. The patterns of this table are such that no path
  matches two of the same method, so the first match is that pattern.
\<close>

fun apart :: "string list \<Rightarrow> string list \<Rightarrow> bool" where
  "apart [] [] = False"
| "apart (p # ps) (q # qs) = (wildcard p = None \<and> wildcard q = None \<and> p \<noteq> q \<or> apart ps qs)"
| "apart _ _ = True"

lemma match_apart:
  "match_segments ps xs = Some vs \<Longrightarrow> match_segments qs xs = Some ws \<Longrightarrow> \<not> apart ps qs"
proof (induction ps qs arbitrary: xs vs ws rule: apart.induct)
  case (2 p ps q qs)
  then obtain x ys where xs: "xs = x # ys" by (cases xs) auto
  obtain vs' ws' where m: "match_segments ps ys = Some vs'" "match_segments qs ys = Some ws'"
    using "2.prems" by (auto simp: xs split: option.splits if_splits)
  then have "\<not> apart ps qs" by (rule "2.IH")
  moreover have "wildcard p = None \<and> wildcard q = None \<longrightarrow> p = q"
    using "2.prems" by (auto simp: xs split: option.splits if_splits)
  ultimately show ?case by auto
qed (auto split: option.splits, (case_tac xs; simp)+)

definition clash_free :: "string \<Rightarrow> string \<Rightarrow> bool" where
  "clash_free p q \<longleftrightarrow> pattern_method p \<noteq> pattern_method q \<or> apart (pattern_segments p) (pattern_segments q)"

text \<open>The patterns of the router with every optional group mounted.\<close>

definition all_patterns :: "string list" where
  "all_patterns =
     [''GET /healthz'', ''POST /api/v1/register'', ''POST /api/v1/login'', ''POST /api/v1/logout'',
      ''GET /api/v1/me'', ''GET /api/v1/repositories'', ''POST /api/v1/repositories'',
      ''GET /api/v1/repositories/{owner}/{name}''] @
     map (\<lambda>(m, p). m @ '' '' @ repository_base @ p)
       [(''GET'', ''/refs''), (''GET'', ''/tree/{rev}''), (''GET'', ''/blob/{rev}''),
        (''GET'', ''/commits/{rev}''), (''GET'', ''/commit/{hash}''),
        (''GET'', ''/issues''), (''POST'', ''/issues''), (''GET'', ''/issues/{number}''),
        (''PATCH'', ''/issues/{number}''), (''GET'', ''/issues/{number}/comments''),
        (''POST'', ''/issues/{number}/comments''), (''GET'', ''/pulls''), (''POST'', ''/pulls''),
        (''GET'', ''/pulls/{number}''), (''POST'', ''/pulls/{number}/merge''),
        (''GET'', ''/pulls/{number}/comments''), (''POST'', ''/pulls/{number}/comments''),
        (''PUT'', ''/pulls/{number}/review''), (''GET'', ''/pulls/{number}/reviews''),
        (''GET'', ''/branches/{branch}/protection''), (''PUT'', ''/branches/{branch}/protection''),
        (''DELETE'', ''/branches/{branch}/protection'')] @
     [''POST /api/v1/internal/notify-push''] @
     map (\<lambda>(m, p). m @ '' '' @ repository_base @ p)
       [(''GET'', ''/webhooks''), (''POST'', ''/webhooks''), (''DELETE'', ''/webhooks/{id}''),
        (''GET'', ''/webhooks/deliveries''), (''GET'', ''/jobs''), (''GET'', ''/secrets''),
        (''PUT'', ''/secrets/{secretName}''), (''DELETE'', ''/secrets/{secretName}'')] @
     [''GET /api/v1/users/{username}/profile'', ''PUT /api/v1/users/{username}/profile'',
      ''GET /api/v1/admin/audit''] @
     map (\<lambda>(m, p). m @ '' '' @ repository_base @ p) [(''POST'', ''/backups''), (''GET'', ''/backups'')]"

text \<open>The same patterns in parts: the method, and the segments below the repository or from the root.\<close>

definition repository_segments :: "string list" where
  "repository_segments = [''api'', ''v1'', ''repositories'', ''{owner}'', ''{name}'']"

definition parsed_patterns :: "(string \<times> string list) list" where
  "parsed_patterns =
     [(''GET'', [''healthz'']), (''POST'', [''api'', ''v1'', ''register'']), (''POST'', [''api'', ''v1'', ''login'']),
      (''POST'', [''api'', ''v1'', ''logout'']), (''GET'', [''api'', ''v1'', ''me'']),
      (''GET'', [''api'', ''v1'', ''repositories'']), (''POST'', [''api'', ''v1'', ''repositories'']),
      (''GET'', repository_segments)] @
     map (\<lambda>(m, p). (m, repository_segments @ p))
       [(''GET'', [''refs'']), (''GET'', [''tree'', ''{rev}'']), (''GET'', [''blob'', ''{rev}'']),
        (''GET'', [''commits'', ''{rev}'']), (''GET'', [''commit'', ''{hash}'']),
        (''GET'', [''issues'']), (''POST'', [''issues'']), (''GET'', [''issues'', ''{number}'']),
        (''PATCH'', [''issues'', ''{number}'']), (''GET'', [''issues'', ''{number}'', ''comments'']),
        (''POST'', [''issues'', ''{number}'', ''comments'']), (''GET'', [''pulls'']), (''POST'', [''pulls'']),
        (''GET'', [''pulls'', ''{number}'']), (''POST'', [''pulls'', ''{number}'', ''merge'']),
        (''GET'', [''pulls'', ''{number}'', ''comments'']), (''POST'', [''pulls'', ''{number}'', ''comments'']),
        (''PUT'', [''pulls'', ''{number}'', ''review'']), (''GET'', [''pulls'', ''{number}'', ''reviews'']),
        (''GET'', [''branches'', ''{branch}'', ''protection'']), (''PUT'', [''branches'', ''{branch}'', ''protection'']),
        (''DELETE'', [''branches'', ''{branch}'', ''protection''])] @
     [(''POST'', [''api'', ''v1'', ''internal'', ''notify-push''])] @
     map (\<lambda>(m, p). (m, repository_segments @ p))
       [(''GET'', [''webhooks'']), (''POST'', [''webhooks'']), (''DELETE'', [''webhooks'', ''{id}'']),
        (''GET'', [''webhooks'', ''deliveries'']), (''GET'', [''jobs'']), (''GET'', [''secrets'']),
        (''PUT'', [''secrets'', ''{secretName}'']), (''DELETE'', [''secrets'', ''{secretName}''])] @
     [(''GET'', [''api'', ''v1'', ''users'', ''{username}'', ''profile'']),
      (''PUT'', [''api'', ''v1'', ''users'', ''{username}'', ''profile'']),
      (''GET'', [''api'', ''v1'', ''admin'', ''audit''])] @
     map (\<lambda>(m, p). (m, repository_segments @ p)) [(''POST'', [''backups'']), (''GET'', [''backups''])]"

lemma parsed_patterns: "map (\<lambda>p. (pattern_method p, pattern_segments p)) all_patterns = parsed_patterns"
  by code_simp

lemma apart_Cons:
  "apart (p # ps) (q # qs) =
     (if p = q then apart ps qs else wildcard p = None \<and> wildcard q = None \<or> apart ps qs)"
  by auto

definition parts_clash_free :: "string \<times> string list \<Rightarrow> string \<times> string list \<Rightarrow> bool" where
  "parts_clash_free x y \<longleftrightarrow> fst x \<noteq> fst y \<or> apart (snd x) (snd y)"

lemma parsed_clash_free: "sorted_wrt parts_clash_free parsed_patterns"
  by code_simp

lemma all_patterns_clash_free: "sorted_wrt clash_free all_patterns"
proof -
  have "sorted_wrt (\<lambda>p q. parts_clash_free (pattern_method p, pattern_segments p) (pattern_method q, pattern_segments q)) all_patterns"
    using parsed_clash_free unfolding parsed_patterns [symmetric] sorted_wrt_map .
  then show ?thesis
    by (rule sorted_wrt_mono_rel [rotated]) (simp add: parts_clash_free_def clash_free_def)
qed

text \<open>The patterns of the routes are among them, in their order.\<close>

lemma api_patterns: "subseq (map rt_pattern (api_routes h)) all_patterns"
proof -
  let ?c = "map rt_pattern (registerCollabRoutes h)" and ?a = "map rt_pattern (registerAutomationRoutes h)"
    and ?h = "map rt_pattern (registerHardeningRoutes h)"
  have all: "all_patterns = map rt_pattern (account_routes h @ registerContentRoutes h) @ ?c @ ?a @
      [''GET /api/v1/users/{username}/profile'', ''PUT /api/v1/users/{username}/profile'',
       ''GET /api/v1/admin/audit''] @
      map (\<lambda>(m, p). m @ '' '' @ repository_base @ p) [(''POST'', ''/backups''), (''GET'', ''/backups'')]"
    by (simp add: all_patterns_def account_routes_def registerContentRoutes_def registerCollabRoutes_def
        registerAutomationRoutes_def route_def Let_def)
  have api: "map rt_pattern (api_routes h) = map rt_pattern (account_routes h @ registerContentRoutes h) @
      (if api_collab h \<noteq> None then ?c else []) @ (if api_webhooks h \<noteq> None then ?a else []) @ ?h"
    unfolding api_routes_def by simp
  have "subseq ?h ([''GET /api/v1/users/{username}/profile'', ''PUT /api/v1/users/{username}/profile'',
       ''GET /api/v1/admin/audit''] @
      map (\<lambda>(m, p). m @ '' '' @ repository_base @ p) [(''POST'', ''/backups''), (''GET'', ''/backups'')])"
    by (simp add: registerHardeningRoutes_def route_def)
  moreover have "subseq (if api_collab h \<noteq> None then ?c else []) ?c"
    "subseq (if api_webhooks h \<noteq> None then ?a else []) ?a" by simp_all
  ultimately show ?thesis
    unfolding all api by (intro list_emb_append_mono subseq_order.refl)
qed

definition head_free :: "string \<Rightarrow> bool" where
  "head_free p \<longleftrightarrow> pattern_method p \<noteq> ''HEAD''"

lemma all_patterns_head_free: "list_all head_free all_patterns"
  by code_simp

lemma subseq_sorted_wrt: "subseq xs ys \<Longrightarrow> sorted_wrt P ys \<Longrightarrow> sorted_wrt P xs"
  by (induction rule: list_emb.induct) (auto dest: list_emb_set)

lemma subseq_list_all: "subseq xs ys \<Longrightarrow> list_all P ys \<Longrightarrow> list_all P xs"
  by (induction rule: list_emb.induct) auto

lemma two_matches_clash:
  assumes "route_match method p a = Some vs" and "route_match method p b = Some ws"
    and "head_free (rt_pattern a)" and "head_free (rt_pattern b)"
  shows "\<not> clash_free (rt_pattern a) (rt_pattern b)"
proof -
  have "pattern_method (rt_pattern a) = pattern_method (rt_pattern b)"
    using assms by (auto simp: route_match_def method_matches_def head_free_def split: if_splits)
  moreover have "\<not> apart (pattern_segments (rt_pattern a)) (pattern_segments (rt_pattern b))"
    using assms(1,2) match_apart by (auto simp: route_match_def split: if_splits)
  ultimately show ?thesis by (simp add: clash_free_def)
qed

lemma find_route_unique:
  assumes "sorted_wrt clash_free (map rt_pattern rts)" and "list_all head_free (map rt_pattern rts)"
    and "rt \<in> set rts" and "route_match method p rt = Some vs"
  shows "find_route rts method p = Some (rt, vs)"
  using assms(1-3)
proof (induction rts)
  case (Cons q rts)
  show ?case
  proof (cases "rt = q")
    case True
    then show ?thesis using assms(4) by simp
  next
    case False
    with Cons.prems have rt: "rt \<in> set rts" "clash_free (rt_pattern q) (rt_pattern rt)"
      "head_free (rt_pattern q)" "head_free (rt_pattern rt)"
      by (auto simp: list_all_iff)
    then have "route_match method p q = None"
      using two_matches_clash [OF _ assms(4)] by (cases "route_match method p q") auto
    then show ?thesis using Cons rt by simp
  qed
qed simp

text \<open>
  C30: The router serves the route whose pattern matches. Whatever optional groups are mounted, for
  every method and path at most one pattern of the table matches, so a request is given to that
  route, with the path values it binds, in whatever order the routes were registered; a path no
  pattern matches is answered with 405 and the matching methods, or with 404.
\<close>

theorem router_serves_the_match:
  assumes "mux_clean_path (req_escaped r) = req_escaped r"
  shows "(\<forall>rt\<in>set (api_routes h). \<forall>vs. route_match (req_method r) (req_escaped r) rt = Some vs \<longrightarrow>
      serve_routes moved (api_routes h) r s = rt_handler rt (r\<lparr>req_values := vs\<rparr>) s)
    \<and> ((\<forall>rt\<in>set (api_routes h). route_match (req_method r) (req_escaped r) rt = None) \<longrightarrow>
      serve_routes moved (api_routes h) r s =
        (if allowed_methods (api_routes h) (req_escaped r) = [] then http_error ''404 page not found'' 404 s
         else http_error ''Method Not Allowed'' 405
           (snd (set_header ''Allow'' (join_str '', '' (allowed_methods (api_routes h) (req_escaped r))) s))))"
proof -
  have "find_route (api_routes h) (req_method r) (req_escaped r) = Some (rt, vs)"
    if "rt \<in> set (api_routes h)" "route_match (req_method r) (req_escaped r) rt = Some vs" for rt vs
    using find_route_unique [OF _ _ that] api_patterns [of h] all_patterns_clash_free all_patterns_head_free
    by (metis subseq_sorted_wrt subseq_list_all)
  moreover have "find_route rts m p = None" if "\<forall>rt\<in>set rts. route_match m p rt = None" for rts :: "'a site_scheme route list" and m p
    using that by (induction rts) auto
  ultimately show ?thesis
    using assms by (auto simp: serve_routes_def Let_def run_simps)
qed

section \<open>Which routes need a session\<close>

definition public_patterns :: "string list" where
  "public_patterns =
     [''GET /healthz'', ''POST /api/v1/register'', ''POST /api/v1/login'', ''POST /api/v1/logout'',
      ''POST /api/v1/internal/notify-push'', ''GET /api/v1/users/{username}/profile'']"

definition guarded :: "'z conn_scheme api \<Rightarrow> 'z conn_scheme route \<Rightarrow> bool" where
  "guarded h rt \<longleftrightarrow> (\<exists>g. rt_handler rt = requireUser h g)"

lemma guarded_route [simp]: "guarded h (route p (requireUser h g))"
  by (auto simp: guarded_def route_def)

definition open_or_guarded :: "'z conn_scheme api \<Rightarrow> 'z conn_scheme route \<Rightarrow> bool" where
  "open_or_guarded h rt \<longleftrightarrow> rt_pattern rt \<in> set public_patterns \<or> guarded h rt"

lemma open_or_guarded_simps [simp]:
  "open_or_guarded h (route p (requireUser h g))"
  "p \<in> set public_patterns \<Longrightarrow> open_or_guarded h (route p f)"
  by (simp_all add: open_or_guarded_def route_def [of _ f])

lemma routes_open_or_guarded: "list_all (open_or_guarded h) (api_routes h)"
  by (simp add: api_routes_def account_routes_def registerContentRoutes_def registerCollabRoutes_def
      registerAutomationRoutes_def registerHardeningRoutes_def Let_def public_patterns_def)

lemma find_route_in: "find_route rts m p = Some (rt, vs) \<Longrightarrow> rt \<in> set rts"
  by (induction rts) (auto split: option.splits)

text \<open>The request was answered with a status, a JSON body, and nothing else changed.\<close>

definition answered :: "int \<Rightarrow> json \<Rightarrow> 'z conn_scheme \<Rightarrow> flow \<times> 'z conn_scheme \<Rightarrow> bool" where
  "answered status value s res \<longleftrightarrow>
     (let hs = AList.update ''Content-Type'' [''application/json''] (rw_header s) in
      res = (Finished, s\<lparr>rw_header := hs, rw_status := Some status, rw_sent := hs,
                       rw_body := json_text value @ [newline]\<rparr>))"

definition fresh_response :: "'z conn_scheme \<Rightarrow> bool" where
  "fresh_response s \<longleftrightarrow> rw_status s = None \<and> rw_body s = []"

lemma writeJSON_answered:
  assumes "fresh_response s" and "200 \<le> status" and "status \<le> 999" and "body_allowed status"
  shows "answered status value s (writeJSON status value s)"
  using assms by (simp add: answered_def writeJSON_def run_simps set_header_def respond_unanswered
      fresh_response_def Let_def)

lemma error_response_status:
  "fst (error_response err) \<in> {400, 401, 403, 404, 409, 422, 500}"
  by (simp add: error_response_def)

lemma writeError_answered:
  assumes "fresh_response s"
  shows "answered (fst (error_response err)) (error_json (snd (error_response err))) s (writeError err s)"
proof -
  have "fst (error_response err) \<in> {400, 401, 403, 404, 409, 422, 500}" by (rule error_response_status)
  then have "200 \<le> fst (error_response err)" "fst (error_response err) \<le> 999"
    "body_allowed (fst (error_response err))" by (auto simp: body_allowed_def)
  then show ?thesis
    using writeJSON_answered [OF assms] by (simp add: writeError_def case_prod_beta)
qed

text \<open>
  C4: Every route but six needs a session. A request for a route other than health, registration,
  login, logout, the token-protected push notification and public profiles is handled only when
  its cookie resolves to a user: without a session cookie it is answered with status 401 and
  nothing but the response changes, and when the lookup of the session fails it is answered with
  that error from the state the lookup left.
\<close>

theorem protected_routes_need_session:
  fixes s :: "'z site_scheme"
  assumes "find_route (api_routes h) (req_method r) (req_escaped r) = Some (rt, vs)"
    and "rt_pattern rt \<notin> set public_patterns"
    and "mux_clean_path (req_escaped r) = req_escaped r" and "fresh_response s"
  shows "(request_cookie r = None \<longrightarrow>
      answered 401 (error_json ''authentication required'') s (serve_routes moved (api_routes h) r s))
    \<and> (\<forall>err t. currentUser h r s = (Inl err, t) \<longrightarrow> serve_routes moved (api_routes h) r s = writeError err t)"
proof -
  have "open_or_guarded h rt"
    using routes_open_or_guarded [of h] find_route_in [OF assms(1)] by (simp add: list_all_iff)
  then obtain g where g: "rt_handler rt = requireUser h g"
    using assms(2) by (auto simp: open_or_guarded_def guarded_def)
  have cookie: "currentUser h (r\<lparr>req_values := vs\<rparr>) = currentUser h r"
    by (simp add: currentUser_def request_cookie_def)
  have serve: "serve_routes moved (api_routes h) r s = or_error (currentUser h r)
      (\<lambda>u. g (WithUser u (r\<lparr>req_values := vs\<rparr>))) s"
    using assms(1,3) g cookie by (simp add: serve_routes_def Let_def requireUser_def)
  have "error_response (Sentinel Auth_ErrNoSession) = (401, ''authentication required'')"
    by (simp add: error_response_def)
  then have "answered 401 (error_json ''authentication required'') s (writeError (Sentinel Auth_ErrNoSession) s)"
    using writeError_answered [OF assms(4), of "Sentinel Auth_ErrNoSession"] by simp
  then show ?thesis
    unfolding serve by (simp add: or_error_def run_simps currentUser_def)
qed

section \<open>Roles are not consulted\<close>

lemma jtime_blind [simp]: "jtime (h\<lparr>api_permissions := p\<rparr>) = jtime h"
  by (simp add: fun_eq_iff jtime_def)

lemma json_blind [simp]:
  "user_json (h\<lparr>api_permissions := p\<rparr>) = user_json h"
  "repository_json (h\<lparr>api_permissions := p\<rparr>) = repository_json h"
  "issue_json (h\<lparr>api_permissions := p\<rparr>) = issue_json h"
  "comment_json (h\<lparr>api_permissions := p\<rparr>) = comment_json h"
  "pull_json (h\<lparr>api_permissions := p\<rparr>) = pull_json h"
  "review_json (h\<lparr>api_permissions := p\<rparr>) = review_json h"
  "delivery_json (h\<lparr>api_permissions := p\<rparr>) = delivery_json h"
  "job_json (h\<lparr>api_permissions := p\<rparr>) = job_json h"
  "secret_json (h\<lparr>api_permissions := p\<rparr>) = secret_json h"
  "entry_json (h\<lparr>api_permissions := p\<rparr>) = entry_json h"
  "profile_json (h\<lparr>api_permissions := p\<rparr>) = profile_json h"
  "backup_json (h\<lparr>api_permissions := p\<rparr>) = backup_json h"
  by (simp_all add: fun_eq_iff Let_def user_json_def repository_json_def issue_json_def comment_json_def pull_json_def review_json_def delivery_json_def job_json_def secret_json_def entry_json_def profile_json_def backup_json_def cong: option.case_cong if_cong)

lemma currentUser_blind [simp]: "currentUser (h\<lparr>api_permissions := p\<rparr>) = currentUser h"
  by (simp add: fun_eq_iff currentUser_def cong: option.case_cong)

lemma audited_blind [simp]: "audited (h\<lparr>api_permissions := p\<rparr>) = audited h"
  by (simp add: fun_eq_iff audited_def)

lemma helpers_blind [simp]:
  "resolveRepo (h\<lparr>api_permissions := p\<rparr>) = resolveRepo h"
  "openRepo (h\<lparr>api_permissions := p\<rparr>) = openRepo h"
  "with_collab (h\<lparr>api_permissions := p\<rparr>) = with_collab h"
  by (simp_all add: fun_eq_iff resolveRepo_def openRepo_def with_collab_def)

lemma start_automation_blind [simp]: "start_automation (h\<lparr>api_permissions := p\<rparr>) = start_automation h"
  by (simp add: fun_eq_iff start_automation_def)

lemma requireUser_blind [simp]: "requireUser (h\<lparr>api_permissions := p\<rparr>) = requireUser h"
  by (simp add: fun_eq_iff requireUser_def)

lemma routes_blind [simp]:
  "register (h\<lparr>api_permissions := p\<rparr>) = register h"
  "login (h\<lparr>api_permissions := p\<rparr>) = login h"
  "logout (h\<lparr>api_permissions := p\<rparr>) = logout h"
  "me (h\<lparr>api_permissions := p\<rparr>) = me h"
  "listRepositories (h\<lparr>api_permissions := p\<rparr>) = listRepositories h"
  "getRepository (h\<lparr>api_permissions := p\<rparr>) = getRepository h"
  "listRefsRoute (h\<lparr>api_permissions := p\<rparr>) = listRefsRoute h"
  "listTreeRoute (h\<lparr>api_permissions := p\<rparr>) = listTreeRoute h"
  "getBlobRoute (h\<lparr>api_permissions := p\<rparr>) = getBlobRoute h"
  "listCommitsRoute (h\<lparr>api_permissions := p\<rparr>) = listCommitsRoute h"
  "getCommitRoute (h\<lparr>api_permissions := p\<rparr>) = getCommitRoute h"
  "listWebhooksRoute (h\<lparr>api_permissions := p\<rparr>) = listWebhooksRoute h"
  "createWebhookRoute (h\<lparr>api_permissions := p\<rparr>) = createWebhookRoute h"
  "deleteWebhookRoute (h\<lparr>api_permissions := p\<rparr>) = deleteWebhookRoute h"
  "listDeliveriesRoute (h\<lparr>api_permissions := p\<rparr>) = listDeliveriesRoute h"
  "listJobsRoute (h\<lparr>api_permissions := p\<rparr>) = listJobsRoute h"
  "listSecretsRoute (h\<lparr>api_permissions := p\<rparr>) = listSecretsRoute h"
  "putSecretRoute (h\<lparr>api_permissions := p\<rparr>) = putSecretRoute h"
  "deleteSecretRoute (h\<lparr>api_permissions := p\<rparr>) = deleteSecretRoute h"
  "notifyPushRoute (h\<lparr>api_permissions := p\<rparr>) = notifyPushRoute h"
  "getProfileRoute (h\<lparr>api_permissions := p\<rparr>) = getProfileRoute h"
  "updateProfileRoute (h\<lparr>api_permissions := p\<rparr>) = updateProfileRoute h"
  "listAuditRoute (h\<lparr>api_permissions := p\<rparr>) = listAuditRoute h"
  "createBackupRoute (h\<lparr>api_permissions := p\<rparr>) = createBackupRoute h"
  "listBackupsRoute (h\<lparr>api_permissions := p\<rparr>) = listBackupsRoute h"
  "createIssueRoute (h\<lparr>api_permissions := p\<rparr>) = createIssueRoute h"
  "listIssuesRoute (h\<lparr>api_permissions := p\<rparr>) = listIssuesRoute h"
  "getIssueRoute (h\<lparr>api_permissions := p\<rparr>) = getIssueRoute h"
  "patchIssueRoute (h\<lparr>api_permissions := p\<rparr>) = patchIssueRoute h"
  "addComment (h\<lparr>api_permissions := p\<rparr>) = addComment h"
  "listComments (h\<lparr>api_permissions := p\<rparr>) = listComments h"
  "createPullRequestRoute (h\<lparr>api_permissions := p\<rparr>) = createPullRequestRoute h"
  "listPullRequestsRoute (h\<lparr>api_permissions := p\<rparr>) = listPullRequestsRoute h"
  "getPullRequestRoute (h\<lparr>api_permissions := p\<rparr>) = getPullRequestRoute h"
  "record_merge (h\<lparr>api_permissions := p\<rparr>) = record_merge h"
  "putReviewRoute (h\<lparr>api_permissions := p\<rparr>) = putReviewRoute h"
  "listReviewsRoute (h\<lparr>api_permissions := p\<rparr>) = listReviewsRoute h"
  "getProtectionRoute (h\<lparr>api_permissions := p\<rparr>) = getProtectionRoute h"
  "putProtectionRoute (h\<lparr>api_permissions := p\<rparr>) = putProtectionRoute h"
  "deleteProtectionRoute (h\<lparr>api_permissions := p\<rparr>) = deleteProtectionRoute h"
  by (simp_all add: fun_eq_iff Let_def register_def login_def logout_def me_def listRepositories_def getRepository_def listRefsRoute_def listTreeRoute_def getBlobRoute_def listCommitsRoute_def getCommitRoute_def listWebhooksRoute_def createWebhookRoute_def deleteWebhookRoute_def listDeliveriesRoute_def listJobsRoute_def listSecretsRoute_def putSecretRoute_def deleteSecretRoute_def notifyPushRoute_def getProfileRoute_def updateProfileRoute_def listAuditRoute_def createBackupRoute_def listBackupsRoute_def createIssueRoute_def listIssuesRoute_def getIssueRoute_def patchIssueRoute_def addComment_def listComments_def createPullRequestRoute_def listPullRequestsRoute_def getPullRequestRoute_def record_merge_def putReviewRoute_def listReviewsRoute_def getProtectionRoute_def putProtectionRoute_def deleteProtectionRoute_def cong: option.case_cong if_cong)

lemma calls_blind [simp]:
  "addIssueCommentRoute (h\<lparr>api_permissions := p\<rparr>) = addIssueCommentRoute h"
  "listCommentsRoute (h\<lparr>api_permissions := p\<rparr>) = listCommentsRoute h"
  "addPRCommentRoute (h\<lparr>api_permissions := p\<rparr>) = addPRCommentRoute h"
  "listPRCommentsRoute (h\<lparr>api_permissions := p\<rparr>) = listPRCommentsRoute h"
  "mergePullRequestRoute (h\<lparr>api_permissions := p\<rparr>) = mergePullRequestRoute h"
  by (simp_all add: fun_eq_iff addIssueCommentRoute_def listCommentsRoute_def addPRCommentRoute_def
      listPRCommentsRoute_def mergePullRequestRoute_def Let_def cong: option.case_cong if_cong)

text \<open>Two tables with equal patterns, and equal handlers but for the creation of repositories.\<close>

definition same_but_creation :: "'w route \<Rightarrow> 'w route \<Rightarrow> bool" where
  "same_but_creation a b \<longleftrightarrow> rt_pattern a = rt_pattern b \<and>
     (rt_pattern a \<noteq> ''POST /api/v1/repositories'' \<longrightarrow> a = b)"

lemma same_but_creation_refl [simp]: "same_but_creation a a"
  by (simp add: same_but_creation_def)

lemma same_but_creation_route [simp]:
  "same_but_creation (route ''POST /api/v1/repositories'' f) (route ''POST /api/v1/repositories'' g)"
  by (simp add: same_but_creation_def route_def)

lemma same_but_creation_list: "list_all2 same_but_creation rts rts"
  by (simp add: list_all2_refl)

lemma routes_same_but_creation:
  "list_all2 same_but_creation (api_routes (h\<lparr>api_permissions := p\<rparr>)) (api_routes h)"
proof -
  have "registerContentRoutes (h\<lparr>api_permissions := p\<rparr>) = registerContentRoutes h"
    "registerCollabRoutes (h\<lparr>api_permissions := p\<rparr>) = registerCollabRoutes h"
    "registerAutomationRoutes (h\<lparr>api_permissions := p\<rparr>) = registerAutomationRoutes h"
    "registerHardeningRoutes (h\<lparr>api_permissions := p\<rparr>) = registerHardeningRoutes h"
    by (simp_all add: registerContentRoutes_def registerCollabRoutes_def registerAutomationRoutes_def
        registerHardeningRoutes_def Let_def)
  moreover have "list_all2 same_but_creation (account_routes (h\<lparr>api_permissions := p\<rparr>)) (account_routes h)"
    by (simp add: account_routes_def)
  ultimately show ?thesis
    unfolding api_routes_def by (simp add: list_all2_appendI same_but_creation_list)
qed

lemma find_route_same:
  assumes "list_all2 same_but_creation xs ys"
  shows "(case find_route ys m p of
      None \<Rightarrow> find_route xs m p = None
    | Some (rt, vs) \<Rightarrow> rt_pattern rt \<noteq> ''POST /api/v1/repositories'' \<longrightarrow> find_route xs m p = Some (rt, vs))"
  using assms
proof (induction rule: list_all2_induct)
  case (Cons a xs b ys)
  from \<open>same_but_creation a b\<close>
  have eq: "rt_pattern a = rt_pattern b" "rt_pattern b \<noteq> ''POST /api/v1/repositories'' \<longrightarrow> a = b"
    unfolding same_but_creation_def by metis+
  then have m: "route_match m p a = route_match m p b" by (simp add: route_match_def)
  show ?case
  proof (cases "route_match m p b")
    case None
    then have "find_route (b # ys) m p = find_route ys m p" "find_route (a # xs) m p = find_route xs m p"
      using m by simp_all
    then show ?thesis using Cons.IH by (simp only:)
  next
    case (Some vs)
    then show ?thesis using eq(2) m by simp
  qed
qed simp

lemma allowed_same:
  assumes "list_all2 same_but_creation xs ys"
  shows "allowed_methods xs p = allowed_methods ys p"
proof -
  have "list_ex (\<lambda>rt. route_match m p rt \<noteq> None) xs = list_ex (\<lambda>rt. route_match m p rt \<noteq> None) ys" for m
    using assms
  proof (induction rule: list_all2_induct)
    case (Cons a xs b ys)
    then have "rt_pattern a = rt_pattern b" by (simp only: same_but_creation_def)
    with Cons.IH show ?case by (simp add: route_match_def)
  qed simp
  then show ?thesis by (simp add: allowed_methods_def)
qed

text \<open>
  C29: Roles are not consulted over HTTP. But for the creation of a repository, which grants the
  creator the admin role, the answer to a request and its effect do not depend on the permission
  service at all: replacing it by any other, or by none, changes nothing. So every account may
  merge, set protection rules, and read and change webhooks and secrets of every repository; the
  roles read, write and admin only matter to git itself.
\<close>

theorem roles_are_not_consulted:
  assumes "case find_route (api_routes h) (req_method r) (req_escaped r) of
      None \<Rightarrow> True | Some (rt, vs) \<Rightarrow> rt_pattern rt \<noteq> ''POST /api/v1/repositories''"
  shows "serve_routes moved (api_routes (h\<lparr>api_permissions := p\<rparr>)) r s =
    serve_routes moved (api_routes h) r s"
  using assms find_route_same [OF routes_same_but_creation [where h = h and p = p], of "req_method r" "req_escaped r"]
    allowed_same [OF routes_same_but_creation [where h = h and p = p], of "req_escaped r"]
  by (auto simp: serve_routes_def Let_def split: option.splits)

end
