(* ===== verification/Server.thy ===== *)
theory Server
  imports ApiRouter Database CI MergeSvc
begin

text \<open>
  The program itself (\<open>cmd/gitcastle/main.go\<close>): which stores stand behind the interfaces of the
  HTTP API and of the git handler, the adapters between them, the chain of middlewares and the
  outer router, and the start and the end of the process. \<open>platform\<close> holds what the process takes from outside the repository.
\<close>

section \<open>What is outside\<close>

record 'w platform =
  pf_environ :: "(string \<times> string) list"
  pf_run :: "'w runner"
  pf_spawn :: "command \<Rightarrow> ('w, backend_run) st"
  pf_random :: "nat \<Rightarrow> 'w \<Rightarrow> goerr + string"
  pf_temp_name :: "'w \<Rightarrow> string"
  pf_bcrypt :: "string \<Rightarrow> goerr + string"
  pf_bcrypt_matches :: "string \<Rightarrow> string \<Rightarrow> bool"
  pf_sha256 :: "string \<Rightarrow> string"
  pf_mac :: "string \<Rightarrow> string \<Rightarrow> string"
  pf_aead :: aead
  pf_parse_url :: "string \<Rightarrow> goerr option"
  pf_time_text :: "time \<Rightarrow> string"
  pf_compact :: "string \<Rightarrow> string"
  pf_unmarshal :: "string \<Rightarrow> goerr + json"
  pf_client_gone :: "'w \<Rightarrow> bool"
  pf_moved :: "string \<Rightarrow> string \<Rightarrow> string \<times> string"
  pf_pid :: int
  pf_temp_dir :: string

definition env_entries :: "'w platform \<Rightarrow> string list" where
  "env_entries pf = map (\<lambda>(k, v). k @ ''='' @ v) (pf_environ pf)"

section \<open>Stores behind the interfaces\<close>

definition auth_store :: "'z db_scheme platform \<Rightarrow> 'z db_scheme authenticator" where
  "auth_store pf =
     \<lparr>au_create_user = CreateUser (pf_bcrypt pf),
      au_authenticate = Authenticate (pf_bcrypt_matches pf),
      au_start_session = (\<lambda>uid s. StartSession (pf_sha256 pf) (pf_random pf 32 s) uid s),
      au_user_for_token = UserForToken (pf_sha256 pf),
      au_end_session = EndSession (pf_sha256 pf)\<rparr>"

definition profile_store :: "'z db_scheme profile_manager" where
  "profile_store = \<lparr>pm_get = GetProfile, pm_update = UpdateProfile\<rparr>"

definition permission_store :: "'z db_scheme permission_granter" where
  "permission_store = \<lparr>pg_grant = Grant, pg_role_for = RoleFor\<rparr>"

definition collab_store :: "'z db_scheme collaboration" where
  "collab_store =
     \<lparr>co_create_issue = CreateIssue, co_list_issues = ListIssues, co_get_issue = GetIssue,
      co_set_issue_state = SetIssueState, co_add_comment = AddComment, co_list_comments = ListComments,
      co_create_pull = CreatePullRequest, co_get_pull = GetPullRequest, co_list_pulls = ListPullRequests,
      co_set_pull_state = SetPullRequestState, co_upsert_review = UpsertReview, co_list_reviews = ListReviews,
      co_set_protection = SetBranchProtection, co_get_protection = GetBranchProtection,
      co_delete_protection = DeleteBranchProtection, co_evaluate_merge = EvaluateMerge\<rparr>"

definition webhook_store :: "'z db_scheme webhook_manager" where
  "webhook_store = \<lparr>wm_create = CreateHook, wm_list = ListAllHooks, wm_delete = DeleteHook,
     wm_deliveries = ListDeliveries\<rparr>"

definition secret_store :: "'z db_scheme platform \<Rightarrow> string \<Rightarrow> 'z db_scheme secret_manager" where
  "secret_store pf key = \<lparr>sm_set = Secrets_Set (pf_aead pf) key (pf_random pf 12), sm_list = Secrets_List,
     sm_delete = Secrets_Delete\<rparr>"

definition audit_store :: "'z db_scheme platform \<Rightarrow> 'z db_scheme auditor" where
  "audit_store pf = \<lparr>ad_record = Audit_Record, ad_list = Audit_List (pf_unmarshal pf)\<rparr>"

definition repository_service :: "'z host_scheme platform \<Rightarrow> config \<Rightarrow> 'z host_scheme repo_service" where
  "repository_service pf cfg =
     \<lparr>svc_store = Some postgres_store, svc_root = cfg_repository_root cfg,
      svc_git = Some (InitBare (pf_run pf))\<rparr>"

definition repositories_of :: "'z host_scheme repo_service \<Rightarrow> 'z host_scheme repo_store \<Rightarrow> 'z host_scheme repositories_api" where
  "repositories_of svc store = \<lparr>ra_create = Service_Create svc, ra_get = Service_Get store,
     ra_list = Service_List store\<rparr>"

section \<open>Builds, merges, backups\<close>

definition stmt_select_path :: "int \<Rightarrow> ('z db_scheme, goerr + string) st" where
  "stmt_select_path rid s =
     (case List.find (\<lambda>r. repo_id r = rid) (t_repositories s) of
        None \<Rightarrow> (Inl NoRows, s)
      | Some r \<Rightarrow> (Inr (repo_path r), s))"

definition RepoPath :: "int \<Rightarrow> ('z db_scheme, goerr + string) st" where
  "RepoPath repositoryID = pool (stmt_select_path repositoryID)"

definition ci_runner :: "'w platform \<Rightarrow> config \<Rightarrow> build_runner" where
  "ci_runner pf cfg =
     \<lparr>run_image = getenv (pf_environ pf) ''CI_RUNNER_IMAGE'', run_timeout = 0,
      run_work_root = cfg_repository_root cfg @ ''/.ci-work''\<rparr>"

definition ci_executor :: "'z host_scheme platform \<Rightarrow> config \<Rightarrow> 'z host_scheme executor" where
  "ci_executor pf cfg =
     \<lparr>exe_run = (\<lambda>bare commit branch command s.
        Runner_Run (pf_run pf) (pf_pid pf) (pf_temp_dir pf) (pf_temp_name pf s) (ci_runner pf cfg)
          bare commit branch command s),
      exe_repo_path = RepoPath\<rparr>"

text \<open>
  The dispatcher of the process has no context of its own: \<open>dispatch_if_configured\<close> puts the one of the
  call in its place, \<open>context.Background()\<close> for merges and \<open>pf_client_gone\<close> for pushes.
\<close>

definition webhook_dispatcher :: "'z db_scheme platform \<Rightarrow> 'z db_scheme dispatcher" where
  "webhook_dispatcher pf =
     \<lparr>dsp_list = ListHooks, dsp_record = RecordDelivery, dsp_max_retries = 0, dsp_mac = pf_mac pf,
      dsp_parse_url = pf_parse_url pf, dsp_time_text = pf_time_text pf, dsp_cancelled = (\<lambda>_. False)\<rparr>"

definition automation_config :: "'z host_scheme platform \<Rightarrow> config \<Rightarrow> 'z host_scheme automation" where
  "automation_config pf cfg =
     \<lparr>cfg_webhook_store = True, cfg_dispatcher = Some (webhook_dispatcher pf), cfg_ci_store = True,
      cfg_executor = Some (ci_executor pf cfg), cfg_repo_path = Some RepoPath, cfg_run = pf_run pf\<rparr>"

text \<open>The adapters; builds started by the fan-out become goroutines of the process.\<close>

definition start_builds :: "spawned list \<Rightarrow> ('z site_scheme, unit) st" where
  "start_builds jobs = modify_state (\<lambda>s. s\<lparr>site_builds := site_builds s @ jobs\<rparr>)"

definition adapter_PushReceived ::
  "'z site_scheme automation \<Rightarrow> ('z site_scheme \<Rightarrow> bool) \<Rightarrow> api_push_event \<Rightarrow> ('z site_scheme, unit) st" where
  "adapter_PushReceived a ctx event =
     and_then (PushReceived a ctx
       \<lparr>pe_repository = ap_repository event, pe_owner = ap_owner event, pe_name = ap_name event,
        pe_actor = [], pe_branch = ap_branch event, pe_old_hash = ap_old_hash event,
        pe_new_hash = ap_new_hash event\<rparr>) start_builds"

definition adapter_PullRequestMerged :: "'z site_scheme automation \<Rightarrow> api_merge_event \<Rightarrow> ('z site_scheme, unit) st" where
  "adapter_PullRequestMerged a event =
     and_then (PullRequestMerged a
       \<lparr>me_repository = am_repository event, me_owner = am_owner event, me_name = am_name event,
        me_number = am_number event, me_actor = am_actor event, me_merge_commit = am_merge_commit event,
        me_source_branch = am_source_branch event, me_target_branch = am_target_branch event\<rparr>) start_builds"

definition merge_service_of :: "config \<Rightarrow> merge_service" where
  "merge_service_of cfg = \<lparr>ms_root = cfg_repository_root cfg, ms_events = False,
     ms_committer_name = [], ms_committer_email = []\<rparr>"

definition merger_of :: "'z host_scheme platform \<Rightarrow> config \<Rightarrow> 'z host_scheme merger" where
  "merger_of pf cfg owner name number source target merged_by =
     and_then (MergePR (pf_run pf) (env_entries pf) (pf_temp_dir pf) (pf_pid pf) (merge_service_of cfg)
       owner name number source target merged_by) (\<lambda>(result, event). ret result)"

definition backups_of :: "'z host_scheme platform \<Rightarrow> config \<Rightarrow> 'z host_scheme backup_manager" where
  "backups_of pf cfg = \<lparr>bm_root = cfg_repository_root cfg,
     bm_store = local_store (cfg_repository_root cfg @ ''/.backups'') None, bm_clock = None\<rparr>"

definition backupAdapter_List :: "'w backup_manager \<Rightarrow> string \<Rightarrow> string \<Rightarrow> ('w, goerr + backup_object list) st" where
  "backupAdapter_List m owner name =
     on_result (Manager_List m owner name) fail (\<lambda>objects.
       ok (map (\<lambda>x. \<lparr>bo_key = obj_key x, bo_size = obj_size x, bo_modified = obj_modified x\<rparr>) objects))"

definition backup_adapter :: "'z host_scheme platform \<Rightarrow> config \<Rightarrow> 'z host_scheme backups_api" where
  "backup_adapter pf cfg = \<lparr>ba_backup = Manager_Backup (pf_run pf) (backups_of pf cfg),
     ba_list = backupAdapter_List (backups_of pf cfg)\<rparr>"

section \<open>The key of the secrets\<close>

fun decode_hex :: "string \<Rightarrow> string option" where
  "decode_hex [] = Some []"
| "decode_hex (a # b # s) =
     (case (hex_value a, hex_value b) of
        (Some x, Some y) \<Rightarrow> map_option (\<lambda>t. char_of (16 * x + y) # t) (decode_hex s)
      | _ \<Rightarrow> None)"
| "decode_hex _ = None"

definition secret_key :: "(string \<times> string) list \<Rightarrow> string" where
  "secret_key env =
     (let envKey = getenv env ''SECRET_ENCRYPTION_KEY'' in
      if length envKey = 64 then
        (case decode_hex envKey of
           Some decoded \<Rightarrow> if length decoded = 32 then decoded else []
         | None \<Rightarrow> [])
      else [])"

section \<open>The git handler\<close>

definition authenticate_func :: "'z db_scheme platform \<Rightarrow> string \<Rightarrow> string \<Rightarrow> ('z db_scheme, goerr + int) st" where
  "authenticate_func pf username password =
     on_result (Authenticate (pf_bcrypt_matches pf) username password) fail (\<lambda>user. ok (user_id user))"

definition required_role :: "access \<Rightarrow> string" where
  "required_role access = (if access = AccessWrite then RoleWrite else RoleRead)"

definition check_access_func ::
  "'z host_scheme repo_store \<Rightarrow> int \<Rightarrow> string \<Rightarrow> string \<Rightarrow> access \<Rightarrow> ('z host_scheme, goerr + unit) st" where
  "check_access_func store userID owner repo access =
     on_result (Service_Get store owner repo) fail (\<lambda>repository.
     on_result (UserForID userID) fail (\<lambda>user.
     on_result (RoleFor (repo_id repository) (user_name user)) fail (\<lambda>role.
       if \<not> HasAtLeast role (required_role access) then fail (Sentinel Gitserve_ErrAccessDenied)
       else ok ())))"

definition bridge :: "'z host_scheme platform \<Rightarrow> 'z host_scheme authorizer" where
  "bridge pf = \<lparr>az_authenticate = authenticate_func pf, az_check_access = check_access_func postgres_store\<rparr>"

definition git_backend_of :: "'w platform \<Rightarrow> config \<Rightarrow> 'w git_backend" where
  "git_backend_of pf cfg = \<lparr>gb_root = cfg_repository_root cfg, gb_prefix = ''/git'',
     gb_environ = env_entries pf, gb_spawn = pf_spawn pf\<rparr>"

definition gitHandler :: "'z site_scheme platform \<Rightarrow> config \<Rightarrow> 'z site_scheme handler" where
  "gitHandler pf cfg = AuthHandler_ServeHTTP (bridge pf) (Handler_ServeHTTP (git_backend_of pf cfg))"

section \<open>The server\<close>

definition httpOptions :: "'z site_scheme platform \<Rightarrow> config \<Rightarrow> 'z site_scheme options" where
  "httpOptions pf cfg =
     \<lparr>opt_content = None, opt_collab = Some collab_store, opt_merger = Some (merger_of pf cfg),
      opt_automation = Some (adapter_PullRequestMerged (automation_config pf cfg)),
      opt_webhooks = Some webhook_store, opt_jobs = Some ListJobs,
      opt_secrets = (case NewStore (secret_key (pf_environ pf)) of
          Inl _ \<Rightarrow> None | Inr key \<Rightarrow> Some (secret_store pf key)),
      opt_pushes = Some (adapter_PushReceived (automation_config pf cfg) (pf_client_gone pf)),
      opt_audit = Some (audit_store pf), opt_profiles = Some profile_store,
      opt_backups = Some (backup_adapter pf cfg),
      opt_internal_token = getenv (pf_environ pf) ''GITCASTLE_INTERNAL_TOKEN''\<rparr>"

definition surroundings_of :: "'w platform \<Rightarrow> 'w surroundings" where
  "surroundings_of pf = \<lparr>env_run = pf_run pf, env_time = pf_time_text pf, env_compact = pf_compact pf,
     env_moved = pf_moved pf\<rparr>"

definition apiHandler :: "'z site_scheme platform \<Rightarrow> config \<Rightarrow> 'z site_scheme handler" where
  "apiHandler pf cfg =
     NewHandler (surroundings_of pf) (repositories_of (repository_service pf cfg) postgres_store)
       (auth_store pf) (Some permission_store) (httpOptions pf cfg)"

definition inner_handler :: "'z site_scheme platform \<Rightarrow> config \<Rightarrow> 'z site_scheme handler" where
  "inner_handler pf cfg r =
     (if req_path r = ''/git/'' \<or> has_prefix (req_path r) ''/git/'' then gitHandler pf cfg r
      else apiHandler pf cfg r)"

definition hardened :: "'z site_scheme platform \<Rightarrow> config \<Rightarrow> 'z site_scheme handler" where
  "hardened pf cfg =
     Chain (inner_handler pf cfg)
       [SecureHeaders, RequestID (pf_random pf 12), Recovery, AccessLog True, Limiter_Middleware]"

text \<open>
  The outer router, with the patterns \<open>/git/\<close> and \<open>/\<close>: the path as it was sent is cleaned, its
  first segment decides, and \<open>/git\<close> itself is redirected.
\<close>

definition server_handler :: "'z site_scheme platform \<Rightarrow> config \<Rightarrow> 'z site_scheme handler" where
  "server_handler pf cfg r =
     (let p = req_escaped r; target = (if req_method r = ''CONNECT'' then p else mux_clean_path p) in
      if \<not> has_suffix target [slash] \<and> map path_unescape (request_segments target) = [''git'']
      then redirect_to (pf_moved pf ''/git/'' (req_raw_query r)) r
      else if target \<noteq> p then redirect_to (pf_moved pf target (req_raw_query r)) r
      else case map path_unescape (request_segments p) of
        first # _ # _ \<Rightarrow> if first = ''git'' then gitHandler pf cfg r else hardened pf cfg r
      | _ \<Rightarrow> hardened pf cfg r)"

section \<open>The start\<close>

datatype 'c start = Exit int | Listening config 'c

text \<open>\<open>main\<close> up to the creation of the server.\<close>

definition start_up ::
  "(string \<times> string) list \<Rightarrow> (string \<Rightarrow> goerr + 'c) \<Rightarrow> ('c pool_config \<Rightarrow> goerr option) \<Rightarrow>
   (string list \<Rightarrow> string \<Rightarrow> goerr option) \<Rightarrow> goerr + dir_entry list \<Rightarrow> ('z schema_db_scheme, 'c pool_config start) st" where
  "start_up env parse connect accept dir =
     (let cfg = FromEnv env in
      on_result (Open parse connect (cfg_database_url cfg)) (\<lambda>_. ret (Exit 1)) (\<lambda>p.
      on_result (Migrate accept dir) (\<lambda>_. ret (Exit 1)) (\<lambda>_.
      on_result (os_mkdir_all (fs_path (cfg_repository_root cfg))) (\<lambda>_. ret (Exit 1)) (\<lambda>_.
        ret (Listening cfg p)))))"

section \<open>The end\<close>

text \<open>
  What ends the wait: \<open>ListenAndServe\<close> returned an error, or a signal came and \<open>Shutdown\<close> was
  called, whose error is kept. \<open>server_closed\<close> recognises \<^verbatim>\<open>http.ErrServerClosed\<close>.
\<close>

datatype process_end = Serving_failed goerr | Interrupted "goerr option"

definition exit_status :: "(goerr \<Rightarrow> bool) \<Rightarrow> process_end \<Rightarrow> int" where
  "exit_status server_closed reason =
     (case reason of
        Serving_failed err \<Rightarrow> if \<not> server_closed err then 1 else 0
      | Interrupted (Some err) \<Rightarrow> 1
      | Interrupted None \<Rightarrow> 0)"

text \<open>
  \<open>main\<close>: \<open>serve\<close> stands for the listener of \<^verbatim>\<open>net/http\<close>, which answers requests with
  \<open>server_handler\<close> until the process ends.
\<close>

definition main_program ::
  "(string \<times> string) list \<Rightarrow> (string \<Rightarrow> goerr + 'c) \<Rightarrow> ('c pool_config \<Rightarrow> goerr option) \<Rightarrow>
   (string list \<Rightarrow> string \<Rightarrow> goerr option) \<Rightarrow> goerr + dir_entry list \<Rightarrow> (goerr \<Rightarrow> bool) \<Rightarrow>
   (config \<Rightarrow> 'c pool_config \<Rightarrow> ('z schema_db_scheme, process_end) st) \<Rightarrow> ('z schema_db_scheme, int) st" where
  "main_program env parse connect accept dir server_closed serve =
     and_then (start_up env parse connect accept dir) (\<lambda>started.
       case started of
         Exit status \<Rightarrow> ret status
       | Listening cfg p \<Rightarrow> and_then (serve cfg p) (\<lambda>reason. ret (exit_status server_closed reason)))"

section \<open>Nothing is served before the database and the disk are ready\<close>

definition pool_for :: "'c \<Rightarrow> 'c pool_config" where
  "pool_for parsed = \<lparr>pc_parsed = parsed, pc_max_conns = 10, pc_min_conns = 1\<rparr>"

lemma Open_keeps_schema:
  assumes "Open parse connect url s = (res, t)"
  shows "migrated entries k s \<Longrightarrow> migrated entries k t"
    and "res = Inr p \<Longrightarrow> \<exists>parsed. parse url = Inr parsed \<and> p = pool_for parsed"
  using assms
  by (auto simp: Open_def Let_def on_result_apply migrated_def pool_for_def elim!: pool_resultE split: sum.splits option.splits prod.splits)

lemma os_mkdir_all_result:
  assumes "os_mkdir_all p s = (res, t)"
  shows "migrated entries k s \<Longrightarrow> migrated entries k t" and "res = Inr () \<Longrightarrow> is_dir t p"
proof -
  show "migrated entries k s \<Longrightarrow> migrated entries k t"
    using assms by (auto simp: os_mkdir_all_def syscall_def migrated_def split: list.splits option.splits if_splits)
  show "is_dir t p" if "res = Inr ()"
    using assms that is_dir_mkdir [of _ "prefixes p" p]
    by (auto simp: os_mkdir_all_def syscall_def is_dir_def split: list.splits option.splits if_splits)
qed

text \<open>The start, as it leaves the schema: \<open>k\<close> migrations applied before it, \<open>k'\<close> after it.\<close>

lemma start_up_outcome:
  fixes s :: "'z schema_db_scheme"
  assumes "distinct (map de_name entries)" and "migrated entries k s" and "k \<le> length (migration_names entries)"
    and run: "start_up env parse connect accept (Inr entries) s = (started, t)"
  obtains (refused) k' where "started = Exit 1" "k \<le> k'" "k' \<le> length (migration_names entries)" "migrated entries k' t"
  | (started) parsed where "started = Listening (FromEnv env) (pool_for parsed)"
      "parse (cfg_database_url (FromEnv env)) = Inr parsed" "migrated entries (length (migration_names entries)) t"
      "is_dir t (fs_path (cfg_repository_root (FromEnv env)))"
proof (cases rule: on_resultE [OF run [unfolded start_up_def Let_def]])
  case (1 e u)
  then show ?thesis using refused Open_keeps_schema(1) [OF 1(1) assms(2)] assms(3) by auto
next
  case (2 p u)
  note opened = Open_keeps_schema [OF 2(1)]
  show ?thesis
  proof (cases rule: on_resultE [OF 2(2)])
    case (1 e v)
    then show ?thesis using Migrate_resumes [OF assms(1) opened(1) [OF assms(2)] assms(3) 1(1)] refused by auto
  next
    case (2 x v)
    then have v: "migrated entries (length (migration_names entries)) v"
      using Migrate_resumes [OF assms(1) opened(1) [OF assms(2)] assms(3) 2(1)] by auto
    show ?thesis
    proof (cases rule: on_resultE [OF 2(2)])
      case (1 e w)
      then show ?thesis using refused [OF _ assms(3)] os_mkdir_all_result(1) [OF 1(1) v] by auto
    next
      case (2 y w)
      then show ?thesis
        using started os_mkdir_all_result [OF 2(1)] v opened(2) by auto
    qed
  qed
qed

lemma start_up_calm:
  fixes s :: "'z schema_db_scheme"
  assumes "distinct (map de_name entries)" and "migrated entries k s" and "k \<le> length (migration_names entries)"
    and "calm s" "io_calm s" and "\<And>q. prefix q (fs_path (cfg_repository_root (FromEnv env))) \<Longrightarrow> file_at s q = None"
    and "parse (cfg_database_url (FromEnv env)) = Inr parsed" "connect (pool_for parsed) = None"
    and "\<And>scripts sql. accept scripts sql = None"
  shows "\<exists>t. start_up env parse connect accept (Inr entries) s = (Listening (FromEnv env) (pool_for parsed), t)"
proof -
  obtain t where t: "Migrate accept (Inr entries) s = (Inr (), t)" "same_disk s t"
    by (rule Migrate_calm [OF assms(1-4,9)])
  have "io_calm t" "\<forall>q. prefix q (fs_path (cfg_repository_root (FromEnv env))) \<longrightarrow> file_at t q = None"
    using assms(5,6) t(2) by (simp_all add: io_calm_def file_at_def same_disk_def)
  moreover have "Open parse connect (cfg_database_url (FromEnv env)) s = (Inr (pool_for parsed), s)"
    using assms(4,7,8) by (simp add: Open_def Let_def run_simps pool_for_def)
  ultimately show ?thesis
    using t(1) by (simp add: start_up_def Let_def run_simps os_mkdir_all_free)
qed

text \<open>
  C7: The start. Let the first \<open>k\<close> migrations be applied when the process starts. Whatever fails, it
  ends in one of two ways. Either it exits with status 1 without having served a request, the
  first \<open>k'\<close> migrations applied for some \<open>k'\<close> of at least \<open>k\<close>, each once and in the order of
  their names, so that a later start goes on from there; or requests are served, and then every
  migration is applied, the directory of the repositories exists, the pool is the one of the
  configured URL, and the exit status tells how serving ended. When no call fails, no script is
  refused and no file lies in the way of the directory, it serves.
\<close>

theorem server_starts_ready:
  fixes s :: "'z schema_db_scheme" and parse :: "string \<Rightarrow> goerr + 'c" and env :: "(string \<times> string) list"
    and connect :: "'c pool_config \<Rightarrow> goerr option" and accept :: "string list \<Rightarrow> string \<Rightarrow> goerr option"
    and entries :: "dir_entry list" and k :: nat
    and serve :: "config \<Rightarrow> 'c pool_config \<Rightarrow> ('z schema_db_scheme, process_end) st" and server_closed :: "goerr \<Rightarrow> bool"
  assumes "distinct (map de_name entries)" and "migrated entries k s" and "k \<le> length (migration_names entries)"
  defines "repositories \<equiv> fs_path (cfg_repository_root (FromEnv env))"
    and "serving \<equiv> \<lambda>p t. case serve (FromEnv env) (pool_for p) t of (reason, u) \<Rightarrow> (exit_status server_closed reason, u)"
  defines "ready \<equiv> \<exists>p t. parse (cfg_database_url (FromEnv env)) = Inr p
      \<and> migrated entries (length (migration_names entries)) t \<and> is_dir t repositories
      \<and> main_program env parse connect accept (Inr entries) server_closed serve s = serving p t"
  shows "((\<exists>k' t. k \<le> k' \<and> k' \<le> length (migration_names entries) \<and> migrated entries k' t
        \<and> main_program env parse connect accept (Inr entries) server_closed serve s = (1, t)) \<or> ready)
    \<and> (calm s \<and> io_calm s \<and> (\<forall>q. prefix q repositories \<longrightarrow> file_at s q = None)
        \<and> (\<exists>p. parse (cfg_database_url (FromEnv env)) = Inr p \<and> connect (pool_for p) = None)
        \<and> (\<forall>scripts sql. accept scripts sql = None) \<longrightarrow> ready)"
proof -
  obtain started t where run: "start_up env parse connect accept (Inr entries) s = (started, t)"
    by (rule prod.exhaust)
  have listening: ready if "started = Listening (FromEnv env) (pool_for p)" for p
  proof (cases rule: start_up_outcome [OF assms(1-3) run])
    case (2 parsed)
    then have "p = parsed" using that by (simp add: pool_for_def)
    with 2 run show ?thesis
      unfolding ready_def
      by (intro exI [of _ p] exI [of _ t]) (simp add: main_program_def run_simps serving_def repositories_def case_prod_beta)
  qed (use that in simp)
  show ?thesis
  proof (intro conjI impI)
    show "(\<exists>k' t. k \<le> k' \<and> k' \<le> length (migration_names entries) \<and> migrated entries k' t
        \<and> main_program env parse connect accept (Inr entries) server_closed serve s = (1, t)) \<or> ready"
    proof (cases rule: start_up_outcome [OF assms(1-3) run])
      case (1 k')
      then have "main_program env parse connect accept (Inr entries) server_closed serve s = (1, t)"
        using run by (simp add: main_program_def run_simps)
      then show ?thesis using 1 by blast
    next
      case (2 parsed)
      then show ?thesis using listening by blast
    qed
    assume "calm s \<and> io_calm s \<and> (\<forall>q. prefix q repositories \<longrightarrow> file_at s q = None)
        \<and> (\<exists>p. parse (cfg_database_url (FromEnv env)) = Inr p \<and> connect (pool_for p) = None)
        \<and> (\<forall>scripts sql. accept scripts sql = None)"
    then obtain p where "\<exists>t. start_up env parse connect accept (Inr entries) s = (Listening (FromEnv env) (pool_for p), t)"
      using start_up_calm [OF assms(1-3), of env parse _ connect accept] unfolding repositories_def by blast
    then show ready using run listening by auto
  qed
qed

section \<open>A server to run the theorems on\<close>

definition demo_platform :: "'w platform" where
  "demo_platform =
     \<lparr>pf_environ = [(''PATH'', ''/bin''), (''GITCASTLE_INTERNAL_TOKEN'', ''t0ken'')],
      pf_run = (\<lambda>cmd. ret \<lparr>out_err = None, out_exit = Some 0, out_stdout = [], out_stderr = [], out_combined = []\<rparr>),
      pf_spawn = (\<lambda>cmd. ret (Ran (''Status: 200 OK'' @ [CHR 0x0A, CHR 0x0A]) None)),
      pf_random = (\<lambda>n s. Inr (replicate n (CHR ''r''))), pf_temp_name = (\<lambda>s. ''1''),
      pf_bcrypt = Inr, pf_bcrypt_matches = (\<lambda>hash password. hash = password), pf_sha256 = id,
      pf_mac = (\<lambda>key message. key @ message),
      pf_aead = \<lparr>aead_new = (\<lambda>_. None), aead_seal = (\<lambda>_ _ m. m), aead_open = (\<lambda>_ _ c. Inr c)\<rparr>,
      pf_parse_url = (\<lambda>_. None), pf_time_text = int_str, pf_compact = id,
      pf_unmarshal = (\<lambda>t. Inr (JObj [])), pf_client_gone = (\<lambda>_. False), pf_moved = (\<lambda>p q. (p, [])), pf_pid = 1, pf_temp_dir = ''/tmp''\<rparr>"

definition demo_config :: config where
  "demo_config = FromEnv []"

definition empty_site :: site where
  "empty_site = edge.extend
     (conn.extend empty_conn \<lparr>edge_limiter = NewRateLimiter 120 2 0, edge_log = []\<rparr>)
     \<lparr>site_merges = [], site_builds = []\<rparr>"

text \<open>One repository, and an account that may read it.\<close>

definition demo_site :: site where
  "demo_site = empty_site
     \<lparr>t_users := [\<lparr>usr_id = 7, usr_name = ''bob'', usr_hash = ''secret12'', usr_created = 0,
                     usr_display = [], usr_bio = [], usr_location = [], usr_website = []\<rparr>],
      t_repositories := [\<lparr>repo_id = 3, repo_owner = ''alice'', repo_name = ''castle'',
                          repo_path = ''./var/repositories/alice/castle.git'', repo_created = 0\<rparr>],
      t_permissions := [\<lparr>perm_repo = 3, perm_user = ''bob'', perm_role = ''read''\<rparr>]\<rparr>"

lemmas site_defs = demo_site_def empty_site_def empty_conn_def empty_net_def empty_host_def empty_db_def
  edge.defs conn.defs net.defs host.defs db.defs

lemma demo_tables [simp]:
  "t_users demo_site = [\<lparr>usr_id = 7, usr_name = ''bob'', usr_hash = ''secret12'', usr_created = 0,
     usr_display = [], usr_bio = [], usr_location = [], usr_website = []\<rparr>]"
  "t_repositories demo_site = [\<lparr>repo_id = 3, repo_owner = ''alice'', repo_name = ''castle'',
     repo_path = ''./var/repositories/alice/castle.git'', repo_created = 0\<rparr>]"
  "t_permissions demo_site = [\<lparr>perm_repo = 3, perm_user = ''bob'', perm_role = ''read''\<rparr>]"
  by (simp_all add: site_defs)

lemma demo_site_calm: "calm demo_site"
  by (simp add: calm_def site_defs)

theorem server_starts_ready_witness:
  "\<exists>t. migrated demo_dir 2 t \<and> is_dir t (fs_path ''./var/repositories'')
     \<and> main_program [] Inr (\<lambda>_. None) (\<lambda>_ _. None) (Inr demo_dir) (\<lambda>_. False) (\<lambda>cfg p. ret (Interrupted None)) empty_schema
       = (0, t)"
proof -
  have root: "cfg_repository_root (FromEnv []) = ''./var/repositories''"
    by (simp add: FromEnv_def valueOrDefault_def getenv_def)
  show ?thesis
    using server_starts_ready [where entries = demo_dir and k = 0 and s = empty_schema and parse = Inr and env = "[]"
        and connect = "\<lambda>_. None" and accept = "\<lambda>_ _. None" and serve = "\<lambda>cfg p. ret (Interrupted None)"
        and server_closed = "\<lambda>_. False"] demo_dir_ready
    by (auto simp: root exit_status_def)
qed

end
