(* ===== verification/GitAccess.thy ===== *)
theory GitAccess
  imports Server
begin

text \<open>
  Who reaches which repository with git, through the whole server: the outer router, the
  authentication wrapper and the access check on the stores. Shown: two ways around the roles.
\<close>

section \<open>Paths as they are sent and as they are read\<close>

lemma unescape_plain: "CHR ''%'' \<notin> set u \<Longrightarrow> unescape (u @ v) = map_option (\<lambda>t. u @ t) (unescape v)"
  by (cases "unescape v"; induction u) auto

lemma unescape_slash: "unescape (''%2F'' @ v) = map_option (\<lambda>t. slash # t) (unescape v)"
proof -
  have "(char_of (47 :: nat) :: char) = slash" by code_simp
  then show ?thesis by (simp add: is_digit_def digit_val_def less_eq_char_def)
qed

lemma validName_no_percent: "validName n \<Longrightarrow> CHR ''%'' \<notin> set n"
  by (auto simp: validName_def alnum_char_def name_char_def is_digit_def less_eq_char_def list_all_iff
      split: list.splits)

lemma clean_join:
  assumes "\<forall>c\<in>set cs. plain_component c" and "cs \<noteq> []"
  shows "mux_clean_path (slash # join_str [slash] cs) = slash # join_str [slash] cs"
proof -
  let ?p = "slash # join_str [slash] cs"
  have sep: "\<forall>c\<in>set cs. slash \<notin> set c" using assms(1) by (auto simp: plain_component_def)
  have "clean_components True ?p = cs"
    using assms sep by (simp add: clean_components_def split_char_join foldl_clean_plain)
  moreover have "is_rooted ?p" by (simp add: is_rooted_def has_prefix_def)
  moreover have "\<not> has_suffix ?p [slash]"
  proof
    assume "has_suffix ?p [slash]"
    then have "last ?p = slash" unfolding has_suffix_def suffix_def by (metis last_snoc)
    then show False using join_plain_ends(1,3) [OF assms] by simp
  qed
  ultimately show ?thesis by (simp add: mux_clean_path_def Let_def path_clean_rooted)
qed

lemma segments_join:
  assumes "\<forall>c\<in>set cs. plain_component c" and "cs \<noteq> []"
  shows "request_segments (slash # join_str [slash] cs) = cs"
  using assms by (auto simp: request_segments_def split_char_join plain_component_def)

text \<open>A request below \<open>/git/\<close> whose path is sent clean goes straight to the git handler.\<close>

lemma server_git:
  assumes "\<forall>c\<in>set cs. plain_component c" and "path_unescape (hd cs) = ''git''" and "2 \<le> length cs"
    and "req_escaped r = slash # join_str [slash] cs"
  shows "server_handler pf cfg r = gitHandler pf cfg r"
proof -
  have ne: "cs \<noteq> []" using assms(3) by auto
  note seg = segments_join [OF assms(1) ne] and clean = clean_join [OF assms(1) ne]
  obtain a b rest where cs: "cs = a # b # rest" using assms(3) by (cases cs rule: remdups_adj.cases) auto
  show ?thesis
    using assms(2,4) seg clean
    by (simp add: fun_eq_iff server_handler_def Let_def cs)
qed

definition git_services :: "string list" where
  "git_services = [''info/refs'', ''git-upload-pack'', ''git-receive-pack'']"

lemma services_plain:
  assumes "service \<in> set git_services"
  obtains cs where "service = join_str [slash] cs" "cs \<noteq> []" "\<forall>c\<in>set cs. plain_component c"
    "CHR ''%'' \<notin> set service"
proof -
  consider "service = ''info/refs''" | "service = ''git-upload-pack''" | "service = ''git-receive-pack''"
    using assms by (auto simp: git_services_def)
  then show thesis
  proof cases
    case 1
    then show ?thesis using that [of "[''info'', ''refs'']"] by (simp add: plain_component_def slash_def)
  next
    case 2
    then show ?thesis using that [of "[''git-upload-pack'']"] by (simp add: plain_component_def slash_def)
  next
    case 3
    then show ?thesis using that [of "[''git-receive-pack'']"] by (simp add: plain_component_def slash_def)
  qed
qed

text \<open>The path of a service of a repository below the prefix of the backend.\<close>

lemma normalize_service:
  assumes "validName owner" and "validName name"
  shows "normalize_path ''/git'' (''/git/'' @ owner @ ''/'' @ name @ ''.git/'' @ service) =
      owner @ ''/'' @ name @ ''.git/'' @ service"
    and "normalize_path ''/git'' (''/git//'' @ owner @ ''/'' @ name @ ''.git/'' @ service) =
      owner @ ''/'' @ name @ ''.git/'' @ service"
proof -
  let ?q = "owner @ ''/'' @ name @ ''.git/'' @ service"
  have o: "owner \<noteq> []" "hd owner \<noteq> slash"
    using validName_plain(1) [OF assms(1)] plain_hd by auto
  have c: "contains_str ?q ''.git/''"
    unfolding contains_str_def using sublist_appendI [of "''.git/''" "owner @ ''/'' @ name" service] by simp
  have t: "trim_left_set {slash} ?q = ?q" using o by (intro trim_left_set_id) simp
  then have "trim_left_set {slash} (slash # ?q) = ?q" "trim_left_set {slash} (slash # slash # ?q) = ?q" by simp_all
  moreover have "trim_prefix (''/git//'' @ ?q) ''/git'' = slash # slash # ?q"
    using trim_prefix_git [of "slash # ?q"] by (simp add: slash_def)
  ultimately show "normalize_path ''/git'' (''/git/'' @ ?q) = ?q" "normalize_path ''/git'' (''/git//'' @ ?q) = ?q"
    using c trim_prefix_git [of ?q] by (simp_all only: normalize_path_def Let_def) simp_all
qed

text \<open>With an empty owner the wrapper asks nobody.\<close>

lemma no_owner_no_check:
  assumes "fst (parseOwnerRepo (req_path r)) = []" and "req_basic r = Some (username, password)"
    and "username \<noteq> []" and "az_authenticate az username password s = (Inr uid, t)"
  shows "AuthHandler_ServeHTTP az backend r s = backend r t"
proof -
  obtain repo where "parseOwnerRepo (req_path r) = ([], repo)" using assms(1) by (metis fst_conv surj_pair)
  then show ?thesis using assms(2-) by (simp add: AuthHandler_ServeHTTP_def run_simps)
qed

lemma parse_double_slash:
  assumes "CHR ''/'' \<notin> set owner" and "owner \<noteq> []" and "q \<noteq> []" and "last q \<noteq> slash"
  shows "parseOwnerRepo (''/git//'' @ owner @ ''/'' @ q) = ([], trim_suffix owner ''.git'')"
proof -
  let ?p = "''/git//'' @ owner @ ''/'' @ q"
  have "trim_left_set {slash} ?p = ''git//'' @ owner @ ''/'' @ q"
    by (simp add: trim_left_set_def slash_def)
  moreover have "trim_right_set {slash} (''git//'' @ owner @ ''/'' @ q) = ''git//'' @ owner @ ''/'' @ q"
    using assms(3,4) by (intro trim_right_set_id) simp
  ultimately have "trim_set {slash} ?p = ''git'' @ slash # [] @ slash # owner @ slash # q"
    by (simp add: trim_set_def slash_def)
  moreover have "slash \<notin> set ''git''" "slash \<notin> set owner" using assms(1) by (auto simp: slash_def)
  ultimately have "split_char slash (trim_set {slash} ?p) = ''git'' # [] # owner # split_char slash q"
    by (simp del: append_Cons append_Nil add: split_char_append_sep)
  then show ?thesis by (simp add: parseOwnerRepo_def Let_def)
qed

definition escaped_slash_path :: "string \<Rightarrow> string \<Rightarrow> string \<Rightarrow> string" where
  "escaped_slash_path owner name service = ''/git/%2F'' @ owner @ ''/'' @ name @ ''.git/'' @ service"

lemma escaped_slash_read:
  assumes "validName owner" and "validName name" and "CHR ''%'' \<notin> set service"
  shows "unescape (escaped_slash_path owner name service) =
    Some (''/git//'' @ owner @ ''/'' @ name @ ''.git/'' @ service)"
proof -
  let ?t = "owner @ ''/'' @ name @ ''.git/'' @ service"
  have "CHR ''%'' \<notin> set ?t" using assms validName_no_percent by auto
  then have "unescape ?t = Some ?t" using unescape_plain [of ?t "[]"] by simp
  then have "unescape (''%2F'' @ ?t) = Some (slash # ?t)" by (simp only: unescape_slash option.map)
  moreover have "unescape (''/git/'' @ v) = map_option (\<lambda>t. ''/git/'' @ t) (unescape v)" for v
    by (rule unescape_plain) simp
  ultimately have "unescape (''/git/'' @ ''%2F'' @ ?t) = Some (''/git/'' @ slash # ?t)"
    by (simp only: option.map)
  then show ?thesis by (simp add: escaped_slash_path_def slash_def)
qed

lemma escaped_slash_server:
  assumes "validName owner" and "validName name" and "service \<in> set git_services"
    and "req_escaped r = escaped_slash_path owner name service"
  shows "server_handler pf cfg r = gitHandler pf cfg r"
proof -
  obtain cs where cs: "service = join_str [slash] cs" "cs \<noteq> []" "\<forall>c\<in>set cs. plain_component c"
    by (rule services_plain [OF assms(3)])
  let ?parts = "[''git'', ''%2F'' @ owner, name @ ''.git''] @ cs"
  have "slash \<notin> set owner" using validName_plain(1) [OF assms(1)] by (simp add: plain_component_def)
  then have "plain_component (''%2F'' @ owner)" "plain_component ''git''"
    by (auto simp: plain_component_def slash_def)
  then have plain: "\<forall>c\<in>set ?parts. plain_component c"
    using cs(3) validName_plain(2) [OF assms(2)] by simp
  have "req_escaped r = slash # join_str [slash] ?parts"
    using assms(4) cs(1,2) by (simp add: escaped_slash_path_def join_str_Cons slash_def)
  then show ?thesis
    by (intro server_git [OF plain]) (simp_all add: path_unescape_def)
qed

text \<open>
  C27: An escaped slash goes around the access check. The router cleans the path as it was sent,
  the wrapper and the backend read the decoded one. A request of any account for
  \<open>/git/%2Fowner/name.git/service\<close> passes the router, reaches the backend with \<open>PATH_INFO\<close>
  \<open>/owner/name.git/service\<close>, and no access check is made, whatever the roles of the account and
  whether it fetches or pushes.
\<close>

theorem escaped_slash_bypasses_roles:
  fixes s :: "'z site_scheme"
  assumes "validName owner" and "validName name" and "service \<in> set git_services"
    and "req_escaped r = escaped_slash_path owner name service" and "unescape (req_escaped r) = Some (req_path r)"
    and "req_basic r = Some (username, password)" and "username \<noteq> []"
    and "authenticate_func pf username password s = (Inr uid, t)"
  shows "server_handler pf cfg r s = Handler_ServeHTTP (git_backend_of pf cfg) r t
    \<and> normalize_path ''/git'' (req_path r) = owner @ ''/'' @ name @ ''.git/'' @ service"
proof -
  obtain cs where cs: "service = join_str [slash] cs" "cs \<noteq> []" "\<forall>c\<in>set cs. plain_component c"
    and pc: "CHR ''%'' \<notin> set service" by (rule services_plain [OF assms(3)])
  have p: "req_path r = ''/git//'' @ owner @ ''/'' @ name @ ''.git/'' @ service"
    using escaped_slash_read [OF assms(1,2) pc] assms(4,5) by simp
  have "CHR ''/'' \<notin> set owner" "owner \<noteq> []"
    using validName_plain(1) [OF assms(1)] by (simp_all add: plain_component_def slash_def)
  moreover have "name @ ''.git/'' @ service \<noteq> []" "last (name @ ''.git/'' @ service) \<noteq> slash"
    using join_plain_ends [OF cs(3,2)] cs(1) by simp_all
  ultimately have "fst (parseOwnerRepo (req_path r)) = []"
    using parse_double_slash [of owner "name @ ''.git/'' @ service"] by (simp add: p)
  then have "gitHandler pf cfg r s = Handler_ServeHTTP (git_backend_of pf cfg) r t"
    unfolding gitHandler_def using assms(6-8) by (intro no_owner_no_check) (simp_all add: bridge_def)
  then show ?thesis
    using escaped_slash_server [OF assms(1-4), of pf cfg] normalize_service(2) [OF assms(1,2)] p by simp
qed

lemma demo_names: "validName ''alice''" "validName ''castle''"
  by (simp_all add: validName_def alnum_char_def name_char_def less_eq_char_def)

lemma demo_authenticated:
  "authenticate_func demo_platform ''bob'' ''secret12'' demo_site = (Inr 7, demo_site)"
  using demo_site_calm
  by (simp add: authenticate_func_def Authenticate_def run_simps stmt_select_user_def demo_platform_def
      find_user_by_name_def user_of_row_def)

theorem escaped_slash_bypasses_roles_witness:
  "server_handler demo_platform demo_config
     (blank_req\<lparr>req_escaped := ''/git/%2Falice/castle.git/info/refs'', req_path := ''/git//alice/castle.git/info/refs'',
        req_basic := Some (''bob'', ''secret12'')\<rparr>) demo_site =
   Handler_ServeHTTP (git_backend_of demo_platform demo_config)
     (blank_req\<lparr>req_escaped := ''/git/%2Falice/castle.git/info/refs'', req_path := ''/git//alice/castle.git/info/refs'',
        req_basic := Some (''bob'', ''secret12'')\<rparr>) demo_site"
proof -
  let ?r = "blank_req\<lparr>req_escaped := ''/git/%2Falice/castle.git/info/refs'',
     req_path := ''/git//alice/castle.git/info/refs'', req_basic := Some (''bob'', ''secret12'')\<rparr>"
  have "req_escaped ?r = escaped_slash_path ''alice'' ''castle'' ''info/refs''"
    by (simp add: escaped_slash_path_def)
  moreover have "unescape (req_escaped ?r) = Some (req_path ?r)"
    using escaped_slash_read [OF demo_names, of "''info/refs''"] by (simp add: escaped_slash_path_def)
  ultimately show ?thesis
    using escaped_slash_bypasses_roles [OF demo_names, of "''info/refs''" ?r "''bob''" "''secret12''" demo_platform
        demo_site 7 demo_site demo_config] demo_authenticated
    by (simp add: git_services_def)
qed

text \<open>
  C28: Pushing needs no more than reading. The request a git client pushes with is a POST to
  \<open>git-receive-pack\<close> without a query; for it the access check asks for read access, so an account
  with the role read, for which the check of a write fails, has its pack handed to the backend.
\<close>

theorem read_role_can_push:
  fixes s :: "'z site_scheme"
  assumes "validName owner" and "validName name" and "req_method r = ''POST''"
    and "req_escaped r = ''/git/'' @ owner @ ''/'' @ name @ ''.git/git-receive-pack''"
    and "req_path r = req_escaped r" and "req_query r = []"
    and "req_basic r = Some (username, password)" and "username \<noteq> []"
    and "authenticate_func pf username password s = (Inr uid, t)"
    and "Service_Get postgres_store owner name t = (Inr repository, u)"
    and "UserForID uid u = (Inr user, v)" and "RoleFor (repo_id repository) (user_name user) v = (Inr RoleRead, w)"
  shows "server_handler pf cfg r s = Handler_ServeHTTP (git_backend_of pf cfg) r w
    \<and> normalize_path ''/git'' (req_path r) = owner @ ''/'' @ name @ ''.git/git-receive-pack''
    \<and> check_access_func postgres_store uid owner name AccessWrite t = (Inl (Sentinel Gitserve_ErrAccessDenied), w)"
proof -
  let ?parts = "[''git'', owner, name @ ''.git'', ''git-receive-pack'']"
  have "plain_component ''git''" "plain_component ''git-receive-pack''"
    by (simp_all add: plain_component_def slash_def)
  then have plain: "\<forall>c\<in>set ?parts. plain_component c"
    using validName_plain [OF assms(1)] validName_plain [OF assms(2)] by simp
  have e: "req_escaped r = slash # join_str [slash] ?parts" by (simp add: assms(4) slash_def)
  then have "server_handler pf cfg r = gitHandler pf cfg r"
    by (intro server_git [OF plain]) (simp_all add: path_unescape_def)
  moreover have "parseOwnerRepo (req_path r) = (owner, name)"
    using parse_clean [of "tl ?parts" "[]"] plain e assms(5) by simp
  moreover have "owner \<noteq> []" using validName_plain(1) [OF assms(1)] by (simp add: plain_component_def)
  moreover have "\<not> wantsWrite r"
    using assms(6) by (simp add: wantsWrite_def query_get_def lookup_text_def)
  moreover have "check_access_func postgres_store uid owner name AccessRead t = (Inr (), w)"
    "check_access_func postgres_store uid owner name AccessWrite t = (Inl (Sentinel Gitserve_ErrAccessDenied), w)"
    using assms(10-12) by (simp_all add: check_access_func_def run_simps required_role_def HasAtLeast_def
        role_rank_def RoleRead_def RoleWrite_def RoleAdmin_def)
  ultimately show ?thesis
    using assms(7-9) normalize_service(1) [OF assms(1,2), of "''git-receive-pack''"] assms(4,5)
    by (simp add: gitHandler_def AuthHandler_ServeHTTP_def bridge_def run_simps)
qed

theorem read_role_can_push_witness:
  "server_handler demo_platform demo_config
     (blank_req\<lparr>req_method := ''POST'', req_escaped := ''/git/alice/castle.git/git-receive-pack'',
        req_path := ''/git/alice/castle.git/git-receive-pack'', req_basic := Some (''bob'', ''secret12'')\<rparr>) demo_site =
   Handler_ServeHTTP (git_backend_of demo_platform demo_config)
     (blank_req\<lparr>req_method := ''POST'', req_escaped := ''/git/alice/castle.git/git-receive-pack'',
        req_path := ''/git/alice/castle.git/git-receive-pack'', req_basic := Some (''bob'', ''secret12'')\<rparr>) demo_site"
proof -
  let ?r = "blank_req\<lparr>req_method := ''POST'', req_escaped := ''/git/alice/castle.git/git-receive-pack'',
     req_path := ''/git/alice/castle.git/git-receive-pack'', req_basic := Some (''bob'', ''secret12'')\<rparr>"
  let ?repo = "hd (t_repositories demo_site)" and ?user = "\<lparr>user_id = 7, user_name = ''bob'', user_created = 0\<rparr>"
  have "Service_Get postgres_store ''alice'' ''castle'' demo_site = (Inr ?repo, demo_site)"
    using demo_site_calm demo_names
    by (simp add: Service_Get_def validateName_def postgres_store_def PostgresStore_Get_def run_simps
        stmt_select_repository_def repo_key_def)
  moreover have "UserForID 7 demo_site = (Inr ?user, demo_site)"
    using demo_site_calm by (simp add: UserForID_def run_simps stmt_select_user_id_def find_user_by_id_def user_of_row_def)
  moreover have "RoleFor (repo_id ?repo) (user_name ?user) demo_site = (Inr RoleRead, demo_site)"
    using demo_site_calm by (simp add: RoleFor_def run_simps stmt_select_role_def perm_key_def RoleRead_def)
  ultimately show ?thesis
    using read_role_can_push [OF demo_names, of ?r "''bob''" "''secret12''" demo_platform demo_site 7 demo_site
        ?repo demo_site ?user demo_site demo_site demo_config] demo_authenticated
    by (simp add: blank_req_def)
qed

end
