(* ===== verification/Serving.thy ===== *)
theory Serving
  imports GitAccess
begin

text \<open>
  The HTTP API as the server builds it: \<open>server_api\<close> is the handler over the PostgreSQL stores,
  and what a client sees of a merge is followed from the route to the tables. Shown too: the
  properties of the router at requests to this server.
\<close>

section \<open>The handler of the server\<close>

definition server_api :: "'z site_scheme platform \<Rightarrow> config \<Rightarrow> 'z site_scheme api" where
  "server_api pf cfg =
     new_api (surroundings_of pf) (repositories_of (repository_service pf cfg) postgres_store)
       (auth_store pf) (Some permission_store) (httpOptions pf cfg)"

lemma apiHandler_serves: "apiHandler pf cfg = serve_routes (pf_moved pf) (api_routes (server_api pf cfg))"
  by (simp add: fun_eq_iff apiHandler_def NewHandler_def loggingMiddleware_def server_api_def
      surroundings_of_def Let_def)

lemma server_api_parts [simp]:
  "api_collab (server_api pf cfg) = Some collab_store"
  "api_merger (server_api pf cfg) = Some (merger_of pf cfg)"
  "api_automation (server_api pf cfg) = Some (adapter_PullRequestMerged (automation_config pf cfg))"
  "api_auth (server_api pf cfg) = auth_store pf"
  "api_repositories (server_api pf cfg) = repositories_of (repository_service pf cfg) postgres_store"
  by (simp_all add: server_api_def new_api_def httpOptions_def)

lemma collab_store_parts [simp]:
  "co_evaluate_merge collab_store = EvaluateMerge" "co_get_pull collab_store = GetPullRequest"
  "co_set_pull_state collab_store = SetPullRequestState"
  by (simp_all add: collab_store_def)

section \<open>Merging over HTTP\<close>

text \<open>
  What a request may rely on while git merges for it: other requests are served meanwhile and may
  change the tables, but they keep the invariant, do not delete the pull request and do not write
  to this response. \<open>served_pull\<close> is that reliance.
\<close>

definition served_pull :: "int \<Rightarrow> int \<Rightarrow> 'z site_scheme \<Rightarrow> bool" where
  "served_pull rid n s \<longleftrightarrow>
     calm s \<and> collab_wf s \<and> fresh_response s \<and> (\<exists>p\<in>set (t_pulls s). pull_key rid n p)"

lemma os_remove_all_same:
  assumes "\<And>s fs ds. f (s\<lparr>fs_files := fs, fs_dirs := ds\<rparr>) = f s" and "\<And>s fs. f (s\<lparr>io_faults := fs\<rparr>) = f s"
  shows "steps (same f) (os_remove_all p)"
  unfolding os_remove_all_def
  by (rule steps_syscall_same) (auto simp: steps_def same_def assms)

lemma merger_keeps:
  assumes "\<And>cmd. steps (keeps P) (pf_run pf cmd)" and "\<And>p. steps (keeps P) (os_remove_all p)"
  shows "steps (keeps P) (merger_of pf cfg owner name number source target merged_by)"
proof -
  have git: "steps (keeps P) (merge_git (pf_run pf) environ svc dir args)" for environ svc dir args
    unfolding merge_git_def by (intro step_rules assms)
  show ?thesis
    unfolding merger_of_def MergePR_def merge_steps_def Let_def by (intro step_rules git assms)
qed

lemma merger_served:
  assumes "\<And>cmd. steps (keeps (served_pull rid n)) (pf_run pf cmd)"
  shows "steps (keeps (served_pull rid n)) (merger_of pf cfg owner name number source target merged_by)"
proof (rule merger_keeps [OF assms])
  fix p :: path
  have "steps (same (served_pull rid n :: 'a site_scheme \<Rightarrow> bool)) (os_remove_all p)"
    by (rule os_remove_all_same) (simp_all add: served_pull_def calm_def fresh_response_def collab_wf_defs)
  then show "steps (keeps (served_pull rid n :: 'a site_scheme \<Rightarrow> bool)) (os_remove_all p)"
    by (simp add: steps_def same_def keeps_def)
qed

definition merge_event_of :: "repository \<Rightarrow> int \<Rightarrow> user \<Rightarrow> pull_request \<Rightarrow> string \<Rightarrow> api_merge_event" where
  "merge_event_of repo n user pr hash =
     \<lparr>am_repository = repo_id repo, am_owner = repo_owner repo, am_name = repo_name repo, am_number = n,
      am_actor = user_name user, am_merge_commit = hash, am_source_branch = pr_source pr,
      am_target_branch = pr_target pr\<rparr>"

lemma record_merge_open:
  fixes t :: "'z site_scheme" and p :: "pull_request row" and hash :: string
  assumes "calm t" and "fresh_response t" and p: "p \<in> set (t_pulls t)" "pull_key (repo_id repo) n p"
    and only: "\<And>q. q \<in> set (t_pulls t) \<Longrightarrow> pull_key (repo_id repo) n q \<Longrightarrow> q = p"
    and "pr_state (row_data p) = ''open''"
  defines "d \<equiv> (row_data p)\<lparr>pr_state := ''merged'', pr_updated := clock t,
      pr_merge_commit := if hash = [] then None else Some hash\<rparr>"
  shows "\<exists>u. fst (GetPullRequest (repo_id repo) n u) = Inr d
    \<and> u = t\<lparr>t_pulls := t_pulls u, site_merges := site_merges t @ [merge_event_of repo n user (row_data p) hash]\<rparr>
    \<and> answered 200 (pull_json (server_api pf cfg) d) u (record_merge (server_api pf cfg) collab_store repo n user hash t)"
proof -
  obtain rows q where rows: "SetPullRequestState (repo_id repo) n ''merged'' hash t = (Inr d, t\<lparr>t_pulls := rows\<rparr>)"
    "List.find (pull_key (repo_id repo) n) rows = Some q" "row_data q = d"
    using SetPullRequestState_open [OF assms(1) only p assms(6), of "''merged''" hash] by (auto simp: d_def)
  let ?u = "t\<lparr>t_pulls := rows, site_merges := site_merges t @ [merge_event_of repo n user (row_data p) hash]\<rparr>"
  have u: "calm ?u" "fresh_response ?u" using assms(1,2) by (simp_all add: calm_def fresh_response_def)
  have "record_merge (server_api pf cfg) collab_store repo n user hash t = writeJSON 200 (pull_json (server_api pf cfg) d) ?u"
    using rows(1) by (simp add: run_simps record_merge_def or_error_def start_automation_def merge_event_of_def d_def)
  then show ?thesis
    using u rows(2,3) writeJSON_answered [of ?u 200 "pull_json (server_api pf cfg) d"]
    by (intro exI [of _ ?u]) (simp add: GetPullRequest_calm body_allowed_def)
qed

lemma record_merge_settled:
  fixes t :: "'z site_scheme"
  assumes "served_pull (repo_id repo) n t" and "q \<in> set (t_pulls t)" "pull_key (repo_id repo) n q"
    and "pr_state (row_data q) \<noteq> ''open''"
  shows "answered 422 (error_json (err_text (Sentinel Collab_ErrNotMergeable))) t (record_merge h collab_store repo n user hash t)"
proof -
  have "SetPullRequestState (repo_id repo) n ''merged'' hash t = (Inl (Sentinel Collab_ErrNotMergeable), t)"
    by (rule SetPullRequestState_settled [OF _ _ assms(2-4)]) (use assms(1) in \<open>simp_all add: served_pull_def collab_wf_def\<close>)
  then have "record_merge h collab_store repo n user hash t = writeError (Sentinel Collab_ErrNotMergeable) t"
    by (simp add: record_merge_def or_error_def run_simps)
  then show ?thesis
    using assms(1) writeError_answered [of t "Sentinel Collab_ErrNotMergeable"]
    by (simp add: error_response_def served_pull_def)
qed

text \<open>The route, its evaluation and its reading done.\<close>

lemma merge_route_runs:
  fixes s :: "'z site_scheme" and pf :: "'z site_scheme platform" and cfg :: config
    and repo :: repository and n :: int and p :: "pull_request row" and r :: http_req
  assumes "served_pull (repo_id repo) n s"
    and "Service_Get postgres_store (path_value r ''owner'') (path_value r ''name'') s = (Inr repo, s)"
    and "parseNumber r = Some n" and "p \<in> set (t_pulls s)" and "pull_key (repo_id repo) n p"
  defines "allowed \<equiv> pr_state (row_data p) = ''open'' \<and>
      required_approvals (repo_id repo) (pr_target (row_data p)) s \<le> int (card (approvers (repo_id repo) n s))"
    and "h \<equiv> server_api pf cfg"
  shows "\<exists>check. EvaluateMerge (repo_id repo) n s = (Inr check, s)
    \<and> mergePullRequestRoute h r s =
      (if \<not> allowed then writeJSON 422 (blocked_json check) s
       else on_result (merger_of pf cfg (repo_owner repo) (repo_name repo) n (pr_source (row_data p))
            (pr_target (row_data p)) (user_name (UserFrom r)))
         (\<lambda>err. writeJSON 409 (error_json (''git merge failed: '' @ err_text err)))
         (\<lambda>hash. record_merge h collab_store repo n (UserFrom r) hash) s)"
proof -
  have s: "calm s" "collab_wf s" using assms(1) by (simp_all add: served_pull_def)
  have get: "GetPullRequest (repo_id repo) n s = (Inr (row_data p), s)"
    using s find_pull [OF _ assms(4,5)] by (simp add: GetPullRequest_calm collab_wf_def)
  obtain check where "EvaluateMerge (repo_id repo) n s = (Inr check, s)" "mc_mergable check \<longleftrightarrow> allowed"
    by (rule that [OF EvaluateMerge_calm [OF s assms(4,5)]]) (simp add: allowed_def)
  then show ?thesis
    using assms(2,3) get
    by (simp add: mergePullRequestRoute_def resolveRepo_def with_number_def with_collab_def calling_def
        or_error_def run_simps h_def repositories_of_def Let_def)
qed

text \<open>
  C2: Merging over HTTP. On the stores of the server, without database failures, the merge route
  for an existing pull request does one of the following, also when other requests change the tables
  while git runs. When the pull request is not open or has fewer approvals than the rule of its
  target asks for, it answers 422 with the blockers and nothing but the response changes: no git
  command runs. Otherwise the branches of the pull request are merged with git in the name of the
  session's user; when that fails the answer is 409 with the reason. When it succeeds and the pull
  request is still open, the table holds it as merged with the commit git reported, one merge
  event goes to the automation, and the answer is 200 with exactly the stored pull request; the
  approvals are not counted again. When another request has settled it meanwhile, the answer is 422
  although git has merged: the pull request stays as the other left it and no event is sent. So
  of two overlapping merges of one pull request at most one is answered 200.
\<close>

theorem merge_over_http:
  fixes s :: "'z site_scheme" and pf :: "'z site_scheme platform" and cfg :: config
    and repo :: repository and n :: int and p :: "pull_request row" and r :: http_req
  assumes "served_pull (repo_id repo) n s"
    and "\<And>cmd. steps (keeps (served_pull (repo_id repo) n)) (pf_run pf cmd)"
    and "Service_Get postgres_store (path_value r ''owner'') (path_value r ''name'') s = (Inr repo, s)"
    and "parseNumber r = Some n" and "p \<in> set (t_pulls s)" and "pull_key (repo_id repo) n p"
  defines "allowed \<equiv> pr_state (row_data p) = ''open'' \<and>
      required_approvals (repo_id repo) (pr_target (row_data p)) s \<le> int (card (approvers (repo_id repo) n s))"
    and "h \<equiv> server_api pf cfg"
  shows "(\<not> allowed \<longrightarrow> (\<exists>check. fst (EvaluateMerge (repo_id repo) n s) = Inr check
        \<and> answered 422 (blocked_json check) s (mergePullRequestRoute h r s)))
    \<and> (allowed \<longrightarrow>
      (case merger_of pf cfg (repo_owner repo) (repo_name repo) n (pr_source (row_data p))
          (pr_target (row_data p)) (user_name (UserFrom r)) s of
        (Inl err, t) \<Rightarrow> answered 409 (error_json (''git merge failed: '' @ err_text err)) t (mergePullRequestRoute h r s)
      | (Inr hash, t) \<Rightarrow> \<exists>q\<in>set (t_pulls t). pull_key (repo_id repo) n q \<and>
          (if pr_state (row_data q) \<noteq> ''open'' then
             answered 422 (error_json (err_text (Sentinel Collab_ErrNotMergeable))) t (mergePullRequestRoute h r s)
           else \<exists>u d. d = (row_data q)\<lparr>pr_state := ''merged'', pr_updated := clock t,
                pr_merge_commit := if hash = [] then None else Some hash\<rparr>
            \<and> fst (GetPullRequest (repo_id repo) n u) = Inr d
            \<and> u = t\<lparr>t_pulls := t_pulls u, site_merges := site_merges t @
                [merge_event_of repo n (UserFrom r) (row_data q) hash]\<rparr>
            \<and> answered 200 (pull_json h d) u (mergePullRequestRoute h r s))))"
proof -
  obtain check where check: "EvaluateMerge (repo_id repo) n s = (Inr check, s)"
    and route: "mergePullRequestRoute h r s =
      (if \<not> allowed then writeJSON 422 (blocked_json check) s
       else on_result (merger_of pf cfg (repo_owner repo) (repo_name repo) n (pr_source (row_data p))
            (pr_target (row_data p)) (user_name (UserFrom r)))
         (\<lambda>err. writeJSON 409 (error_json (''git merge failed: '' @ err_text err)))
         (\<lambda>hash. record_merge h collab_store repo n (UserFrom r) hash) s)"
    using merge_route_runs [OF assms(1,3-6), of pf cfg] by (auto simp: allowed_def h_def)
  obtain res t where m: "merger_of pf cfg (repo_owner repo) (repo_name repo) n (pr_source (row_data p))
      (pr_target (row_data p)) (user_name (UserFrom r)) s = (res, t)" by (rule prod.exhaust)
  have t: "served_pull (repo_id repo) n t"
    using stepsE [OF merger_served m] assms(1,2) by (simp add: keeps_def)
  then obtain q where q: "q \<in> set (t_pulls t)" "pull_key (repo_id repo) n q"
    by (auto simp: served_pull_def)
  have only: "q' = q" if "q' \<in> set (t_pulls t)" "pull_key (repo_id repo) n q'" for q'
    using pull_unique [OF _ q(1) _ q(2)] t that by (simp add: served_pull_def collab_wf_def)
  have fresh: "fresh_response s" "fresh_response t" "calm t" using assms(1) t by (simp_all add: served_pull_def)
  show ?thesis
  proof (cases "\<not> allowed \<or> isl res")
    case True
    then show ?thesis
      using check m fresh writeJSON_answered [of _ 422] writeJSON_answered [of _ 409] unfolding route
      by (auto simp: run_simps body_allowed_def isl_def)
  next
    case False
    then obtain hash where h: "allowed" "res = Inr hash" by (cases res) auto
    show ?thesis
      using record_merge_settled [OF t q, of h "UserFrom r" hash]
        record_merge_open [OF fresh(3,2) q only, of hash "UserFrom r" pf cfg] q m h
      unfolding route by (auto simp: run_simps h_def)
  qed
qed

section \<open>A session from login to logout\<close>

definition token_byte :: "char \<Rightarrow> bool" where
  "token_byte c \<longleftrightarrow> cookie_byte c \<and> c \<noteq> CHR '' '' \<and> c \<noteq> CHR '',''"

lemma token_byte_char_of:
  "45 \<le> n \<Longrightarrow> n < 123 \<Longrightarrow> n \<noteq> 59 \<Longrightarrow> n \<noteq> 92 \<Longrightarrow> token_byte (char_of (n :: nat))"
  by (auto simp: token_byte_def cookie_byte_def less_eq_char_def of_char_eq_iff [symmetric, where ?'a = nat])

lemma base64_token_byte: "token_byte (base64_digit n)"
proof -
  have "token_byte (CHR ''-'')" "token_byte (CHR ''_'')" by code_simp+
  then show ?thesis
    unfolding base64_digit_def
    using token_byte_char_of [of "65 + n"] token_byte_char_of [of "71 + n"] token_byte_char_of [of "n - 4"]
    by auto
qed

lemma token_bytes: "list_all token_byte (raw_url_encode raw)"
  by (induction raw rule: raw_url_encode.induct) (simp_all only: raw_url_encode.simps Let_def
      list.map list.pred_inject list_all_append append_Cons append_Nil base64_token_byte simp_thms)

lemma raw_url_encode_empty: "raw_url_encode raw = [] \<longleftrightarrow> raw = []"
  by (cases raw rule: raw_url_encode.cases) (simp_all add: Let_def)

lemma cookie_value_token: "cookie_value (raw_url_encode raw) = raw_url_encode raw"
proof -
  have "filter cookie_byte (raw_url_encode raw) = raw_url_encode raw"
    using token_bytes [of raw] by (auto simp: list_all_iff token_byte_def intro: filter_True)
  then show ?thesis
    using token_bytes [of raw] by (auto simp: cookie_value_def Let_def list_all_iff token_byte_def)
qed

lemma server_auth_parts [simp]:
  "au_authenticate (auth_store pf) = Authenticate (pf_bcrypt_matches pf)"
  "au_user_for_token (auth_store pf) = UserForToken (pf_sha256 pf)"
  "au_end_session (auth_store pf) = EndSession (pf_sha256 pf)"
  "au_start_session (auth_store pf) = (\<lambda>uid s. StartSession (pf_sha256 pf) (pf_random pf 32 s) uid s)"
  by (simp_all add: auth_store_def)

lemma server_audit [simp]: "api_audit (server_api pf cfg) = Some (audit_store pf)"
  by (simp add: server_api_def new_api_def httpOptions_def)

text \<open>What recording in the audit log leaves alone.\<close>

definition all_but_audit ::
  "'z conn_scheme \<Rightarrow> string option list \<times> user_row list \<times> session_row list \<times> time \<times> (string \<times> string list) list \<times> int option \<times> string" where
  "all_but_audit s = (faults s, t_users s, t_sessions s, clock s, rw_header s, rw_status s, rw_body s)"

lemma audited_calm:
  assumes "calm s"
  shows "\<exists>t. audited (server_api pf cfg) actor action target details r k s = k t \<and> all_but_audit t = all_but_audit s"
proof -
  let ?t = "snd (Audit_Record actor action target details (remoteIP r) s)"
  have "audited (server_api pf cfg) actor action target details r k s = k ?t"
    by (simp add: audited_def audit_store_def run_simps)
  moreover have "all_but_audit ?t = all_but_audit s"
    using assms by (simp add: Audit_Record_def Let_def run_simps stmt_insert_audit_def next_id_def all_but_audit_def)
  ultimately show ?thesis by blast
qed

lemma audited_resultE:
  assumes "audited (server_api pf cfg) actor action target details r k s = res" and "calm s"
  obtains t where "k t = res" "calm t" "all_but_audit t = all_but_audit s"
proof -
  obtain t where "k t = res" "all_but_audit t = all_but_audit s"
    using audited_calm [OF assms(2)] assms(1) by metis
  moreover from this have "calm t" using assms(2) by (simp add: all_but_audit_def calm_def)
  ultimately show thesis using that by blast
qed

lemma writeError_not_200:
  assumes "writeError err s = (f, t)" and "fresh_response s"
  shows "rw_status t \<noteq> Some 200"
  using writeError_answered [OF assms(2), of err] assms(1) error_response_status [of err]
  by (auto simp: answered_def Let_def)

lemma login_ok:
  fixes s :: "'z site_scheme"
  assumes login: "login (server_api pf cfg) r s = (f, t)" "rw_status t = Some 200"
    and s: "calm s" "fresh_response s"
  obtains j input user token expires s1 s2 where
    "req_json r = Inr j" "decode_struct credentials j = Some input"
    "fst (Authenticate (pf_bcrypt_matches pf) (text_of input ''username'') (text_of input ''password'') s) = Inr user"
    "calm s1" "all_but_audit s1 = all_but_audit s"
    "StartSession (pf_sha256 pf) (pf_random pf 32 s1) (user_id user) s1 = (Inr (token, expires), s2)"
    "discard_result (setSessionCookie token expires)
       (writeJSON 200 (user_json (server_api pf cfg) user)) s2 = (f, t)"
proof -
  let ?h = "server_api pf cfg"
  obtain j input where j: "req_json r = Inr j" "decode_struct credentials j = Some input"
    using login s writeJSON_answered [OF s(2), of 400]
    by (auto simp: login_def decodeJSON_def answered_def Let_def body_allowed_def split: option.splits sum.splits)
  let ?u = "text_of input ''username''" and ?p = "text_of input ''password''"
  obtain res where a: "Authenticate (pf_bcrypt_matches pf) ?u ?p s = (res, s)"
    using s(1) by (simp add: Authenticate_calm)
  show thesis
  proof (cases res)
    case (Inl err)
    then have "audited ?h ?u ''login_failed'' ?u None r (writeError err) s = (f, t)"
      using login(1) j a by (simp add: login_def decodeJSON_def run_simps)
    then obtain s1 where "writeError err s1 = (f, t)" "all_but_audit s1 = all_but_audit s"
      using s(1) by (elim audited_resultE)
    then show thesis
      using writeError_not_200 [of err s1] s(2) login(2) by (simp add: fresh_response_def all_but_audit_def)
  next
    case (Inr user)
    let ?k = "or_error (au_start_session (api_auth ?h) (user_id user)) (\<lambda>(token, expires).
        discard_result (setSessionCookie token expires) (writeJSON 200 (user_json ?h user)))"
    have "audited ?h (user_name user) ''login'' (user_name user) None r ?k s = (f, t)"
      using login(1) j a Inr by (simp add: login_def decodeJSON_def run_simps)
    then obtain s1 where s1: "?k s1 = (f, t)" "calm s1" "all_but_audit s1 = all_but_audit s"
      using s(1) by (elim audited_resultE)
    obtain res2 s2 where st: "StartSession (pf_sha256 pf) (pf_random pf 32 s1) (user_id user) s1 = (res2, s2)"
      by fastforce
    show thesis
    proof (cases res2)
      case (Inl err)
      have "rw_status s2 = rw_status s1 \<and> rw_body s2 = rw_body s1"
        using st Inl s1(2) by (auto simp: StartSession_def Let_def run_simps stmt_insert_session_def split: sum.splits if_splits)
      then have "writeError err s2 = (f, t)" "fresh_response s2"
        using s1 st Inl s(2) by (simp_all add: or_error_def run_simps fresh_response_def all_but_audit_def)
      then show thesis using writeError_not_200 login(2) by blast
    next
      case Inr2: (Inr pair)
      obtain token expires where "pair = (token, expires)" by fastforce
      then show thesis
        using that [OF j _ s1(2,3)] a Inr st Inr2 s1(1) by (simp add: or_error_def run_simps)
    qed
  qed
qed

text \<open>Whatever is read beside the response, answering leaves alone.\<close>

locale beside_response =
  fixes f :: "'z conn_scheme \<Rightarrow> 'f"
  assumes beside: "f (s\<lparr>rw_header := h\<rparr>) = f s" "f (s\<lparr>rw_status := c\<rparr>) = f s"
    "f (s\<lparr>rw_sent := h\<rparr>) = f s" "f (s\<lparr>rw_body := b\<rparr>) = f s"
begin

lemma headers: "steps (same f) (set_header k v)" "steps (same f) (add_header k v)" "steps (same f) (del_header k)"
  by (simp_all add: steps_def same_def set_header_def add_header_def del_header_def beside)

lemma status: "steps (same f) (write_header code)"
  by (simp add: steps_def same_def write_header_def beside)

lemma body: "steps (same f) (write_body data)"
proof -
  have "steps (same f) (modify_state (\<lambda>s. case rw_status s of
      Some code \<Rightarrow> if body_allowed code then s\<lparr>rw_body := rw_body s @ data\<rparr> else s | None \<Rightarrow> s))"
    by (rule steps_modify) (simp add: same_def beside split: option.split)
  then show ?thesis unfolding write_body_def by (intro step_rules status)
qed

lemma unless_panic: "steps (same f) m \<Longrightarrow> steps (same f) k \<Longrightarrow> steps (same f) (unless_panic m k)"
  by (rule steps_unless_panic [OF same_rel.state_relation_axioms])

lemma answer: "steps (same f) (respond code data)"
  unfolding respond_def by (intro unless_panic step_rules status body)

lemma json: "steps (same f) (writeJSON code value)"
  unfolding writeJSON_def by (intro step_rules headers answer)

end

interpretation sessions_beside: beside_response "\<lambda>s. (faults s, t_sessions s)"
  by unfold_locales simp_all

lemma finish_logout_sessions: "steps (same (\<lambda>s. (faults s, t_sessions s))) finish_logout"
  unfolding finish_logout_def clearSessionCookie_def
  by (intro step_rules sessions_beside.headers sessions_beside.json)

lemma set_cookie_then_json:
  assumes "discard_result (setSessionCookie token expires) (writeJSON 200 value) s = (f, t)" and "fresh_response s"
  shows "\<exists>hs body. t = s\<lparr>rw_header := hs, rw_status := Some 200, rw_sent := hs, rw_body := body\<rparr>
    \<and> map_of hs ''Set-Cookie'' = Some ((case map_of (rw_header s) ''Set-Cookie'' of
        None \<Rightarrow> [] | Some old \<Rightarrow> old) @ [session_cookie_text token expires])"
proof -
  let ?s = "snd (setSessionCookie token expires s)"
  have "fresh_response ?s" using assms(2) by (simp add: setSessionCookie_def add_header_def fresh_response_def)
  then have "answered 200 value ?s (writeJSON 200 value ?s)" by (rule writeJSON_answered) (simp_all add: body_allowed_def)
  with assms(1) show ?thesis
    by (auto simp: answered_def Let_def run_simps body_allowed_def setSessionCookie_def add_header_def
        update_conv split: option.split)
qed

lemma logout_ends:
  fixes s :: "'z site_scheme"
  assumes "calm s" and "request_cookie r = Some token" and "req_user r = None"
  shows "fst (UserForToken (pf_sha256 pf) token (snd (logout (server_api pf cfg) r s))) = Inl (Sentinel Auth_ErrNoSession)"
proof -
  let ?sha = "pf_sha256 pf"
  obtain u where e: "EndSession ?sha token s = (Inr (), u)" "faults u = []"
    "t_sessions u = delete_rows (\<lambda>r. ses_hash r = sha256Sum ?sha token) (t_sessions s)"
    using assms(1) by (simp add: EndSession_calm calm_def)
  have "logout (server_api pf cfg) r s = finish_logout u"
    using assms(2,3) e(1) by (simp add: logout_def Let_def or_error_def run_simps)
  moreover have "same (\<lambda>s. (faults s, t_sessions s)) u (snd (finish_logout u))"
    by (rule finish_logout_sessions [THEN stepsD])
  ultimately show ?thesis
    using e by (simp add: same_def UserForToken_calm calm_def)
qed

lemma session_resolves:
  fixes s t :: "'z db_scheme"
  assumes "auth_wf s" and "account \<in> set (t_users s)" and "calm t" and "t_users t = t_users s"
    and "t_sessions t = t_sessions s @ [\<lparr>ses_hash = sha256Sum sha token, ses_user = usr_id account, ses_expires = expires\<rparr>]"
    and "sha256Sum sha token \<notin> ses_hash ` set (t_sessions s)"
  shows "fst (UserForToken sha token t) =
    (if clock t < expires then Inr (user_of_row account) else Inl (Sentinel Auth_ErrNoSession))"
proof -
  have "find_user_by_id (usr_id account) s = Some account"
    using assms(1,2) find_user_by_id_unique by (auto simp: auth_wf_def)
  moreover have "List.find (\<lambda>r. ses_hash r = sha256Sum sha token \<and> x < ses_expires r) (t_sessions s) = None" for x
    using assms(6) by (auto simp: find_None_iff_all image_iff)
  ultimately show ?thesis
    using assms(3-5) by (simp add: UserForToken_calm find_append find_user_by_id_def)
qed

text \<open>
  C3: A session over HTTP, from login to logout. When the login route answers 200, the body named
  an account and its password; the response sets a cookie whose value is a token of 32 random bytes; a
  request that carries this cookie is a request of exactly this account until two weeks have
  passed, and of nobody from then on; and once the logout route has been called with the cookie,
  it names nobody.
\<close>

theorem session_over_http:
  fixes s :: "'z site_scheme" and pf :: "'z site_scheme platform" and cfg :: config
  assumes "calm s" and "auth_wf s" and "fresh_response s"
    and "login (server_api pf cfg) r s = (f, t)" and "rw_status t = Some 200" and "0 \<le> d"
  shows "\<exists>j input account token expires.
      req_json r = Inr j \<and> decode_struct credentials j = Some input
    \<and> account \<in> set (t_users s) \<and> usr_name account = text_of input ''username''
    \<and> pf_bcrypt_matches pf (usr_hash account) (text_of input ''password'')
    \<and> map_of (rw_header t) ''Set-Cookie'' = Some ((case map_of (rw_header s) ''Set-Cookie'' of
          None \<Rightarrow> [] | Some old \<Rightarrow> old) @
        [sessionCookie @ ''='' @ token @ ''; Path=/; Expires='' @ http_date expires @ ''; HttpOnly; SameSite=Lax''])
    \<and> (\<exists>u raw. pf_random pf 32 u = Inr raw \<and> token = raw_url_encode raw)
    \<and> expires = clock s + sessionDuration
    \<and> (\<forall>r'. request_cookie r' = Some token \<longrightarrow>
        fst (currentUser (server_api pf cfg) r' (tick d t)) =
          (if d < sessionDuration then Inr (user_of_row account) else Inl (Sentinel Auth_ErrNoSession))
      \<and> (req_user r' = None \<longrightarrow> fst (currentUser (server_api pf cfg) r'
            (snd (logout (server_api pf cfg) r' (tick d t)))) = Inl (Sentinel Auth_ErrNoSession)))"
proof -
  let ?h = "server_api pf cfg" and ?sha = "pf_sha256 pf"
  obtain j input user token expires s1 s2 where l:
    "req_json r = Inr j" "decode_struct credentials j = Some input"
    "fst (Authenticate (pf_bcrypt_matches pf) (text_of input ''username'') (text_of input ''password'') s) = Inr user"
    "calm s1" "all_but_audit s1 = all_but_audit s"
    "StartSession ?sha (pf_random pf 32 s1) (user_id user) s1 = (Inr (token, expires), s2)"
    "discard_result (setSessionCookie token expires) (writeJSON 200 (user_json ?h user)) s2 = (f, t)"
    by (rule login_ok [OF assms(4,5,1,3)])
  note st = StartSession_calm_Inr [OF l(4,6)]
  obtain account where ac: "find_user_by_name (text_of input ''username'') s = Some account"
    "pf_bcrypt_matches pf (usr_hash account) (text_of input ''password'')" "user = user_of_row account"
    using l(3) assms(1) by (auto simp: Authenticate_calm split: option.splits if_splits)
  have acc: "account \<in> set (t_users s)" "usr_name account = text_of input ''username''"
    using ac(1) by (auto simp: find_user_by_name_def dest: find_SomeD)
  let ?row = "\<lparr>ses_hash = sha256Sum ?sha token, ses_user = usr_id account, ses_expires = expires\<rparr>"
  have "fresh_response s2" using st l(5) assms(3) by (auto simp: all_but_audit_def fresh_response_def)
  then obtain hs body where resp: "t = s2\<lparr>rw_header := hs, rw_status := Some 200, rw_sent := hs, rw_body := body\<rparr>"
    "map_of hs ''Set-Cookie'' = Some ((case map_of (rw_header s2) ''Set-Cookie'' of
        None \<Rightarrow> [] | Some old \<Rightarrow> old) @ [session_cookie_text token expires])"
    using set_cookie_then_json [OF l(7)] by blast
  have hs: "rw_header t = hs" "rw_header s2 = rw_header s"
    using resp(1) st l(5) by (auto simp: all_but_audit_def)
  have t: "faults t = []" "t_users t = t_users s" "t_sessions t = t_sessions s @ [?row]" "clock t = clock s"
    "sha256Sum ?sha token \<notin> ses_hash ` set (t_sessions s)" "expires = clock s + sessionDuration"
    using resp(1) st l(4,5) ac(3)
    by (auto simp: all_but_audit_def calm_def user_of_row_def intro: arg_cong)
  obtain raw where raw: "pf_random pf 32 s1 = Inr raw" "token = raw_url_encode raw"
    using l(6) unfolding StartSession_def newSessionToken_def Let_def and_then_apply
    by (auto elim!: on_resultE split: sum.splits)
  have current: "currentUser ?h r' = UserForToken ?sha token" if "request_cookie r' = Some token" for r'
    using that by (simp add: currentUser_def fun_eq_iff)
  have c: "calm (tick d t)" using t(1) by (simp add: calm_def tick_def)
  have 1: "fst (UserForToken ?sha token (tick d t)) =
      (if d < sessionDuration then Inr (user_of_row account) else Inl (Sentinel Auth_ErrNoSession))"
    using session_resolves [OF assms(2) acc(1) c, of ?sha token expires] t by (simp add: tick_def)
  note 2 = logout_ends [OF c]
  show ?thesis
    using l(1,2) acc ac(2) resp(2) hs t(6) 1 2 current
    by (intro exI [of _ j] exI [of _ input] exI [of _ account] exI [of _ token] exI [of _ expires])
      (use raw in \<open>auto simp: session_cookie_text_def cookie_value_token\<close>)
qed

section \<open>Requests to a server\<close>

abbreviation demo_api :: "site api" where
  "demo_api \<equiv> server_api demo_platform demo_config"

definition request_for :: "string \<Rightarrow> string \<Rightarrow> http_req" where
  "request_for method p = blank_req\<lparr>req_method := method, req_path := p, req_escaped := p\<rparr>"

lemma request_for_parts [simp]:
  "req_method (request_for m p) = m" "req_escaped (request_for m p) = p" "req_cookies (request_for m p) = []"
  by (simp_all add: request_for_def blank_req_def)

lemma find_route_api:
  assumes "rt \<in> set (api_routes h)" and "route_match method p rt = Some vs"
  shows "find_route (api_routes h) method p = Some (rt, vs)"
  using find_route_unique [OF _ _ assms] api_patterns [of h] all_patterns_clash_free all_patterns_head_free
  by (metis subseq_sorted_wrt subseq_list_all)

lemma account_routes_in: "rt \<in> set (account_routes h) \<Longrightarrow> rt \<in> set (api_routes h)"
  by (simp add: api_routes_def)

lemma demo_fresh: "fresh_response demo_site"
  by (simp add: fresh_response_def site_defs)

lemma health_route:
  "route ''GET /healthz'' health \<in> set (api_routes demo_api)"
  "route_match ''GET'' ''/healthz'' (route ''GET /healthz'' health) = Some []"
proof -
  show "route ''GET /healthz'' health \<in> set (api_routes demo_api)"
    by (rule account_routes_in) (simp add: account_routes_def)
  have "pattern_method ''GET /healthz'' = ''GET''" "pattern_segments ''GET /healthz'' = [''healthz'']"
    "request_segments ''/healthz'' = [''healthz'']" "path_unescape ''healthz'' = ''healthz''"
    "wildcard ''healthz'' = None" by code_simp+
  then show "route_match ''GET'' ''/healthz'' (route ''GET /healthz'' health) = Some []"
    by (simp add: route_match_def route_def method_matches_def)
qed

lemma me_route:
  "route ''GET /api/v1/me'' (requireUser demo_api (me demo_api)) \<in> set (api_routes demo_api)"
  "route_match ''GET'' ''/api/v1/me'' (route ''GET /api/v1/me'' (requireUser demo_api (me demo_api))) = Some []"
proof -
  show "route ''GET /api/v1/me'' (requireUser demo_api (me demo_api)) \<in> set (api_routes demo_api)"
    by (rule account_routes_in) (simp add: account_routes_def)
  have "pattern_method ''GET /api/v1/me'' = ''GET''"
    "pattern_segments ''GET /api/v1/me'' = [''api'', ''v1'', ''me'']"
    "request_segments ''/api/v1/me'' = [''api'', ''v1'', ''me'']" "path_unescape ''api'' = ''api''"
    "path_unescape ''v1'' = ''v1''" "path_unescape ''me'' = ''me''" "wildcard ''api'' = None"
    "wildcard ''v1'' = None" "wildcard ''me'' = None" by code_simp+
  then show "route_match ''GET'' ''/api/v1/me'' (route ''GET /api/v1/me'' (requireUser demo_api (me demo_api))) = Some []"
    by (simp add: route_match_def route_def method_matches_def)
qed

lemma demo_paths_clean: "mux_clean_path ''/healthz'' = ''/healthz''" "mux_clean_path ''/api/v1/me'' = ''/api/v1/me''"
  by code_simp+

theorem router_serves_the_match_witness:
  "serve_routes (\<lambda>p q. (p, q)) (api_routes demo_api) (request_for ''GET'' ''/healthz'') demo_site =
   health (request_for ''GET'' ''/healthz''\<lparr>req_values := []\<rparr>) demo_site"
proof -
  let ?r = "request_for ''GET'' ''/healthz''" and ?rt = "route ''GET /healthz'' health :: site route"
  have "mux_clean_path (req_escaped ?r) = req_escaped ?r" by (simp add: demo_paths_clean)
  from router_serves_the_match [OF this, THEN conjunct1, rule_format, OF health_route(1)]
  have "serve_routes (\<lambda>p q. (p, q)) (api_routes demo_api) ?r demo_site = rt_handler ?rt (?r\<lparr>req_values := []\<rparr>) demo_site"
    using health_route(2) by simp
  then show ?thesis by (simp add: route_def)
qed

theorem protected_routes_need_session_witness:
  "answered 401 (error_json ''authentication required'') demo_site
     (serve_routes (\<lambda>p q. (p, q)) (api_routes demo_api) (request_for ''GET'' ''/api/v1/me'') demo_site)"
proof -
  have "rt_pattern (route ''GET /api/v1/me'' f) \<notin> set public_patterns" for f :: "site handler"
    by (simp add: route_def public_patterns_def)
  then show ?thesis
    using protected_routes_need_session [of demo_api "request_for ''GET'' ''/api/v1/me''", OF _ _ _ demo_fresh]
      find_route_api [OF me_route] demo_paths_clean(2) by (simp add: request_cookie_def)
qed

theorem roles_are_not_consulted_witness:
  "serve_routes (\<lambda>p q. (p, q)) (api_routes (demo_api\<lparr>api_permissions := None\<rparr>)) (request_for ''GET'' ''/api/v1/me'') demo_site =
   serve_routes (\<lambda>p q. (p, q)) (api_routes demo_api) (request_for ''GET'' ''/api/v1/me'') demo_site"
  using roles_are_not_consulted [of demo_api "request_for ''GET'' ''/api/v1/me''"] find_route_api [OF me_route]
  by (simp add: route_def)

text \<open>A site with an open pull request, and a git that names the commit of a merge.\<close>

definition busy_pull :: "pull_request row" where
  "busy_pull = \<lparr>row_id = 1, row_repo = 3, row_data = demo_pr 1 ''open'' None\<rparr>"

definition busy_site :: site where
  "busy_site = demo_site\<lparr>t_pulls := [busy_pull], next_ids := (\<lambda>_. 10)\<rparr>"

definition merging_platform :: "site platform" where
  "merging_platform = demo_platform\<lparr>pf_run := (\<lambda>cmd. ret
     \<lparr>out_err = None, out_exit = Some 0, out_stdout = ''c0ffee'' @ [newline], out_stderr = [], out_combined = []\<rparr>)\<rparr>"

lemma busy_site_ready: "calm busy_site" "fresh_response busy_site" "auth_wf busy_site" "collab_wf busy_site"
proof -
  show "calm busy_site" "fresh_response busy_site"
    by (simp_all add: busy_site_def calm_def fresh_response_def site_defs)
  show "auth_wf busy_site"
    by (simp add: auth_wf_defs busy_site_def site_defs profile_fields_ok_def validateUsername_def username_char_def less_eq_char_def
        valid_role_def RoleRead_def)
  show "collab_wf busy_site"
    by (simp add: collab_wf_defs dense_def busy_site_def busy_pull_def demo_pr_def site_defs)
qed

lemma merging_result:
  "\<exists>t. merger_of merging_platform cfg owner name n source target merged_by busy_site = (Inr ''c0ffee'', t) \<and> t_pulls t = [busy_pull]"
proof -
  have "merge_trim (''c0ffee'' @ [newline]) = ''c0ffee''" by code_simp
  moreover have "steps (same t_pulls) (os_remove_all p :: (site, goerr + unit) st)" for p
    by (rule os_remove_all_same) simp_all
  then have "t_pulls (snd (os_remove_all p s)) = t_pulls s" for p and s :: site
    by (simp add: steps_def same_def)
  moreover have "t_pulls busy_site = [busy_pull]" by (simp add: busy_site_def)
  ultimately show ?thesis
    by (simp add: merger_of_def MergePR_def merge_steps_def merge_git_def merging_platform_def Let_def run_simps)
qed

definition merge_request :: http_req where
  "merge_request = blank_req\<lparr>req_method := ''POST'',
     req_values := [(''owner'', ''alice''), (''name'', ''castle''), (''number'', ''1'')]\<rparr>"

lemma busy_repository:
  "Service_Get postgres_store ''alice'' ''castle'' busy_site =
    (Inr \<lparr>repo_id = 3, repo_owner = ''alice'', repo_name = ''castle'',
       repo_path = ''./var/repositories/alice/castle.git'', repo_created = 0\<rparr>, busy_site)"
  using busy_site_ready(1) demo_names
  by (simp add: Service_Get_def validateName_def postgres_store_def PostgresStore_Get_def run_simps
      stmt_select_repository_def repo_key_def busy_site_def)

lemma busy_pull_served: "served_pull 3 1 busy_site" "busy_pull \<in> set (t_pulls busy_site)" "pull_key 3 1 busy_pull"
proof -
  show p: "busy_pull \<in> set (t_pulls busy_site)" "pull_key 3 1 busy_pull"
    by (simp_all add: busy_site_def busy_pull_def pull_key_def demo_pr_def)
  show "served_pull 3 1 busy_site" using busy_site_ready p by (auto simp: served_pull_def)
qed

theorem merge_over_http_witness:
  "\<exists>u d. pr_state d = ''merged'' \<and> pr_merge_commit d = Some ''c0ffee'' \<and> fst (GetPullRequest 3 1 u) = Inr d
     \<and> answered 200 (pull_json (server_api merging_platform demo_config) d) u
         (mergePullRequestRoute (server_api merging_platform demo_config) merge_request busy_site)"
proof -
  let ?h = "server_api merging_platform demo_config" and ?repo = "hd (t_repositories demo_site)"
  have repo: "repo_id ?repo = 3" by (simp add: site_defs)
  have runner: "steps (keeps (served_pull (repo_id ?repo) 1)) (pf_run merging_platform cmd)" for cmd
    by (simp add: merging_platform_def step_rules)
  have parts: "path_value merge_request ''owner'' = ''alice''" "path_value merge_request ''name'' = ''castle''"
    "parseNumber merge_request = Some 1" by code_simp+
  have open_pull: "pr_state (row_data busy_pull) = ''open''" by (simp add: busy_pull_def demo_pr_def)
  have none: "required_approvals 3 b busy_site = 0" for b
    by (simp add: required_approvals_def busy_site_def site_defs)
  obtain t where m: "merger_of merging_platform demo_config (repo_owner ?repo) (repo_name ?repo) 1 (pr_source (row_data busy_pull))
      (pr_target (row_data busy_pull)) (user_name (UserFrom merge_request)) busy_site = (Inr ''c0ffee'', t)" "t_pulls t = [busy_pull]"
    using merging_result by blast
  have get: "Service_Get postgres_store (path_value merge_request ''owner'') (path_value merge_request ''name'') busy_site =
      (Inr ?repo, busy_site)" using busy_repository parts by simp
  note route = merge_over_http [OF _ runner get parts(3) busy_pull_served(2), of demo_config, unfolded repo,
      OF busy_pull_served(1,3), THEN conjunct2]
  obtain u d where "d = (row_data busy_pull)\<lparr>pr_state := ''merged'', pr_updated := clock t, pr_merge_commit := Some ''c0ffee''\<rparr>"
    "fst (GetPullRequest 3 1 u) = Inr d"
    "answered 200 (pull_json ?h d) u (mergePullRequestRoute ?h merge_request busy_site)"
    using route open_pull none m by auto
  then show ?thesis by (intro exI [of _ u] exI [of _ d]) simp
qed

definition login_request :: http_req where
  "login_request = blank_req\<lparr>req_method := ''POST'',
     req_json := Inr (JObj [(''username'', JStr ''bob''), (''password'', JStr ''secret12'')])\<rparr>"

lemma login_status: "rw_status (snd (login demo_api login_request busy_site)) = Some 200"
proof -
  have json: "req_json login_request = Inr (JObj [(''username'', JStr ''bob''), (''password'', JStr ''secret12'')])"
    by (simp add: login_request_def)
  have decode: "decode_struct credentials (JObj [(''username'', JStr ''bob''), (''password'', JStr ''secret12'')]) =
      Some [(''username'', FText ''bob''), (''password'', FText ''secret12'')]" by code_simp
  let ?user = "\<lparr>user_id = 7, user_name = ''bob'', user_created = 0\<rparr>"
  have "Authenticate (pf_bcrypt_matches (demo_platform :: site platform)) ''bob'' ''secret12'' busy_site = (Inr ?user, busy_site)"
    using busy_site_ready(1)
    by (simp add: Authenticate_calm busy_site_def find_user_by_name_def user_of_row_def demo_platform_def)
  then have "login demo_api login_request busy_site =
      audited demo_api ''bob'' ''login'' ''bob'' None login_request
        (or_error (au_start_session (api_auth demo_api) 7) (\<lambda>(token, expires).
          discard_result (setSessionCookie token expires) (writeJSON 200 (user_json demo_api ?user)))) busy_site"
    by (simp add: login_def decodeJSON_def json decode run_simps text_of_def del: decode_struct.simps)
  from this [symmetric] obtain s1 where s1: "or_error (au_start_session (api_auth demo_api) 7) (\<lambda>(token, expires).
          discard_result (setSessionCookie token expires) (writeJSON 200 (user_json demo_api ?user))) s1 =
      login demo_api login_request busy_site"
    "calm s1" "all_but_audit s1 = all_but_audit busy_site"
    by (rule audited_resultE [OF _ busy_site_ready(1)])
  have users: "t_users s1 = t_users demo_site" "t_sessions s1 = []" "fresh_response s1"
    using s1(3) by (simp_all add: all_but_audit_def busy_site_def fresh_response_def site_defs)
  obtain token hash where "newSessionToken (pf_sha256 (demo_platform :: site platform)) (pf_random demo_platform 32 s1) = Inr (token, hash)"
    by (simp add: newSessionToken_def demo_platform_def Let_def)
  then have "\<exists>s2. au_start_session (api_auth demo_api) 7 s1 = (Inr (token, clock s1 + sessionDuration), s2) \<and> fresh_response s2"
    using s1(2) users
    by (simp add: StartSession_def Let_def run_simps stmt_insert_session_def fresh_response_def)
  then obtain s2 where s2: "au_start_session (api_auth demo_api) 7 s1 = (Inr (token, clock s1 + sessionDuration), s2)"
    "fresh_response s2" by blast
  obtain f t where "discard_result (setSessionCookie token (clock s1 + sessionDuration))
      (writeJSON 200 (user_json demo_api ?user)) s2 = (f, t)" by fastforce
  then show ?thesis
    using set_cookie_then_json [OF _ s2(2)] s2(1) unfolding s1(1) [symmetric]
    by (fastforce simp: or_error_def on_result_apply)
qed

theorem session_over_http_witness:
  "\<exists>r'. fst (currentUser demo_api r' (tick 5 (snd (login demo_api login_request busy_site)))) =
     Inr \<lparr>user_id = 7, user_name = ''bob'', user_created = 0\<rparr>"
proof -
  obtain f t where l: "login demo_api login_request busy_site = (f, t)" by fastforce
  have "rw_status t = Some 200" using login_status l by simp
  from session_over_http [OF busy_site_ready(1,3,2) l this, of 5]
  obtain account token where c: "account \<in> set (t_users busy_site)"
    "\<exists>u raw. pf_random demo_platform 32 (u :: site) = Inr raw \<and> token = raw_url_encode raw"
    "\<And>r'. request_cookie r' = Some token \<Longrightarrow> fst (currentUser demo_api r' (tick 5 t)) =
       (if 5 < sessionDuration then Inr (user_of_row account) else Inl (Sentinel Auth_ErrNoSession))"
    by auto
  have "user_of_row account = \<lparr>user_id = 7, user_name = ''bob'', user_created = 0\<rparr>"
    using c(1) by (simp add: busy_site_def user_of_row_def)
  moreover have "raw_url_encode (replicate 32 (CHR ''r'')) \<noteq> []"
    by (simp add: raw_url_encode_empty)
  then have "request_cookie (blank_req\<lparr>req_cookies := [(sessionCookie, token)]\<rparr>) = Some token"
    using c(2) by (auto simp: request_cookie_def demo_platform_def)
  ultimately show ?thesis using c(3) l by (auto simp: sessionDuration_def)
qed

end
