(* ===== verification/Frames.thy ===== *)
theory Frames
  imports Serving
begin

text \<open>
  What the stores, git and the network may do to the state of the server. Each locale fixes a
  relation between the state before and after, assumes that the statements of one package (or the
  system calls, or the commands run) respect it, and shows that the operations of the package do.
  The relations of interest are \<open>keeps P\<close> for an invariant \<open>P\<close>, \<open>same f\<close> for a part of the state
  nobody touches, and what the history of a table looks like.
\<close>

lemma steps_case_list [step_rules]:
  "(v = [] \<Longrightarrow> steps R m) \<Longrightarrow> (\<And>x xs. v = x # xs \<Longrightarrow> steps R (k x xs)) \<Longrightarrow>
   steps R (case v of [] \<Rightarrow> m | x # xs \<Rightarrow> k x xs)"
  by (cases v) auto

lemmas account_statement_defs = stmt_grant_def stmt_revoke_def stmt_select_role_def stmt_insert_user_def
  stmt_select_user_def stmt_insert_session_def stmt_select_session_def stmt_select_user_id_def stmt_delete_session_def
  stmt_update_profile_def

lemmas repository_statement_defs = stmt_insert_repository_def stmt_select_repository_def stmt_list_repositories_def
  stmt_select_path_def

lemmas collab_statement_defs = stmt_insert_issue_def stmt_list_issues_def stmt_select_issue_def stmt_update_issue_def
  stmt_insert_comment_def stmt_list_comments_def stmt_insert_pull_def stmt_list_pulls_def stmt_select_pull_def
  stmt_update_pull_def stmt_upsert_review_def stmt_list_reviews_def stmt_upsert_protection_def
  stmt_select_protection_def stmt_delete_protection_def

lemmas automation_statement_defs = stmt_insert_hook_def stmt_list_hooks_def stmt_delete_hook_def
  stmt_insert_delivery_def stmt_list_deliveries_def stmt_insert_job_def stmt_list_jobs_def stmt_insert_audit_def
  stmt_list_audit_def stmt_upsert_secret_def stmt_list_secrets_def stmt_delete_secret_def

lemmas job_mark_defs = MarkRunning_def MarkFinished_def update_job_def

lemmas system_call_defs = os_mkdir_all_def os_write_file_def os_rename_def os_stat_def os_remove_all_def os_walk_def
  os_mkdir_temp_def

locale pooled = state_relation R for R :: "'z site_scheme \<Rightarrow> 'z site_scheme \<Rightarrow> bool" +
  assumes fault_taken: "suffix fs (faults s) \<Longrightarrow> R s (s\<lparr>faults := fs\<rparr>)"
begin

lemma pool_steps:
  assumes "steps R stmt"
  shows "steps R (pool stmt)"
proof (rule stepsI)
  fix s
  have "R s (snd (stmt (s\<lparr>faults := fs\<rparr>)))" if "suffix fs (faults s)" for fs
    using R_trans [OF fault_taken [OF that] stepsD [OF assms]] .
  then show "R s (snd (pool stmt s))"
    using stepsD [OF assms] fault_taken by (auto simp: pool_def suffix_ConsI split: list.split option.split)
qed

lemma steps_readonly: "(\<And>s. snd (m s) = s) \<Longrightarrow> steps R m"
  by (simp add: steps_def R_refl)

lemmas rel_steps = steps_ret steps_read_state steps_and_then steps_on_result steps_discard_result pool_steps

end

section \<open>The stores\<close>

locale account_frame = pooled +
  assumes account_statements:
    "steps R (stmt_grant a1 b1 c1)" "steps R (stmt_revoke a2 b2)" "steps R (stmt_select_role a3 b3)"
    "steps R (stmt_insert_user a4 b4)" "steps R (stmt_select_user a5)" "steps R (stmt_insert_session a6 b6 c6)"
    "steps R (stmt_select_session a7)" "steps R (stmt_select_user_id a8)" "steps R (stmt_delete_session a9)"
    "steps R (stmt_update_profile a10 b10 c10 d10 e10)"
begin

lemma account_operations:
  "steps R (CreateUser a1 b1 c1)"
  "steps R (Authenticate a2 b2 c2)"
  "steps R (StartSession a3 b3 c3)"
  "steps R (UserForToken a4 b4)"
  "steps R (EndSession a5 b5)"
  "steps R (UserForID a6)"
  "steps R (GetProfile a7)"
  "steps R (UpdateProfile a8 b8)"
  "steps R (Grant a9 b9 c9)"
  "steps R (RoleFor a10 b10)"
  unfolding CreateUser_def Authenticate_def StartSession_def UserForToken_def EndSession_def UserForID_def
    GetProfile_def UpdateProfile_def Grant_def RoleFor_def Let_def
  by (intro step_rules rel_steps account_statements)+

end

locale repository_frame = pooled +
  assumes repository_statements:
    "steps R (stmt_select_repository a2 b2)" "steps R stmt_list_repositories" "steps R (stmt_select_path a3)"
begin

lemma repository_operations:
  "steps R (PostgresStore_Get o2 n2)" "steps R PostgresStore_List" "steps R (RepoPath i4)"
  unfolding PostgresStore_Get_def PostgresStore_List_def RepoPath_def Let_def
  by (intro step_rules rel_steps repository_statements)+

lemma lookups: "steps R (Service_Get postgres_store owner name)" "steps R (Service_List postgres_store)"
  unfolding Service_Get_def Service_List_def postgres_store_def Let_def
  by (simp cong: option.case_cong; intro step_rules rel_steps repository_operations)+

end

locale collab_frame = pooled +
  assumes collab_statements:
    "steps R (stmt_insert_issue a1 b1 c1 d1)" "steps R (stmt_list_issues a2 b2)" "steps R (stmt_select_issue a3 b3)"
    "steps R (stmt_update_issue a4 b4 c4)" "steps R (stmt_insert_comment a5 b5 c5 d5 e5)"
    "steps R (stmt_list_comments a6 b6 c6)" "steps R (stmt_insert_pull a7 b7 c7 d7 e7 f7)"
    "steps R (stmt_list_pulls a8 b8)" "steps R (stmt_select_pull a9 b9)" "steps R (stmt_update_pull a10 b10 c10 d10)"
    "steps R (stmt_upsert_review a11 b11 c11 d11)" "steps R (stmt_list_reviews a12 b12)"
    "steps R (stmt_upsert_protection a13 b13)" "steps R (stmt_select_protection a14 b14)"
    "steps R (stmt_delete_protection a15 b15)"
begin

lemma collab_reads:
  "steps R (GetPullRequest a1 b1)" "steps R (GetBranchProtection a2 b2)" "steps R (ListReviews a3 b3)"
  unfolding GetPullRequest_def GetBranchProtection_def ListReviews_def Let_def
  by (intro step_rules rel_steps collab_statements)+

lemma collab_operations:
  "steps R (CreateIssue a1 b1 c1 d1)"
  "steps R (ListIssues a2 b2)"
  "steps R (GetIssue a3 b3)"
  "steps R (SetIssueState a4 b4 c4)"
  "steps R (AddComment a5 b5 c5 d5 e5)"
  "steps R (ListComments a6 b6 c6)"
  "steps R (CreatePullRequest a7 b7 c7 d7 e7 f7)"
  "steps R (ListPullRequests a8 b8)"
  "steps R (SetPullRequestState a9 b9 c9 d9)"
  "steps R (UpsertReview a10 b10 c10 d10 e10)"
  "steps R (SetBranchProtection a11 b11)"
  "steps R (DeleteBranchProtection a12 b12)"
  "steps R (EvaluateMerge a13 b13)"
  unfolding CreateIssue_def ListIssues_def GetIssue_def SetIssueState_def AddComment_def ListComments_def
    CreatePullRequest_def ListPullRequests_def SetPullRequestState_def UpsertReview_def SetBranchProtection_def
    DeleteBranchProtection_def EvaluateMerge_def Let_def
  by (intro step_rules rel_steps collab_statements collab_reads)+

end

locale automation_frame = pooled +
  assumes automation_statements:
    "steps R (stmt_insert_hook a1 b1 c1 d1)" "steps R (stmt_list_hooks a2 b2)" "steps R (stmt_delete_hook a3 b3)"
    "steps R (stmt_insert_delivery a4 b4 c4 d4 e4)" "steps R (stmt_list_deliveries a5)"
    "steps R (stmt_insert_job a6 b6 c6 d6 e6)" "steps R (stmt_list_jobs a7 b7)"
    "steps R (stmt_insert_audit a8 b8 c8 d8 e8)" "steps R (stmt_list_audit a9 b9 c9)"
    "steps R (stmt_upsert_secret a10 b10 c10 d10)" "steps R (stmt_list_secrets a11)"
    "steps R (stmt_delete_secret a12 b12)"
  and job_marks: "steps R (MarkRunning j)" "steps R (MarkFinished j status out code)"
  and delivering: "steps R (deliverWithRetries d hook payload n)"
begin

lemma automation_operations:
  "steps R (CreateHook a1 b1 c1 d1)"
  "steps R (ListAllHooks a2)"
  "steps R (ListHooks a3 b3)"
  "steps R (DeleteHook a4 b4)"
  "steps R (RecordDelivery a5 b5 c5 d5)"
  "steps R (ListDeliveries a6)"
  "steps R (CreateJob a7 b7 c7 d7 e7)"
  "steps R (ListJobs a8 b8)"
  "steps R (Audit_Record a9 b9 c9 d9 e9)"
  "steps R (Audit_List a10 b10 c10 d10)"
  "steps R (Secrets_Set a11 b11 c11 d11 e11 f11)"
  "steps R (Secrets_List a12)"
  "steps R (Secrets_Delete a13 b13)"
  unfolding CreateHook_def ListAllHooks_def ListHooks_def listHooksQuery_def DeleteHook_def RecordDelivery_def
    ListDeliveries_def CreateJob_def ListJobs_def Audit_Record_def Audit_List_def Secrets_Set_def Secrets_List_def
    Secrets_Delete_def Let_def
  by (intro step_rules rel_steps automation_statements)+

lemma dispatching: "steps R (dispatch_if_configured (automation_config pf cfg) ctx rid event slug actor data)"
proof -
  have "steps R (deliver_all (webhook_dispatcher pf\<lparr>dsp_cancelled := ctx\<rparr>) e p m hooks)" for e p m hooks
    by (induction hooks)
      (simp_all only: deliver_all.simps webhook_dispatcher_def dispatcher.simps dispatcher.update_convs, (intro rel_steps delivering automation_operations | assumption)+)
  moreover have "dsp_list (webhook_dispatcher pf\<lparr>dsp_cancelled := ctx\<rparr>) = ListHooks" by (simp add: webhook_dispatcher_def)
  ultimately have "steps R (Dispatch (webhook_dispatcher pf\<lparr>dsp_cancelled := ctx\<rparr>) rid event slug actor data)"
    unfolding Dispatch_def Let_def by (simp only:) (intro step_rules rel_steps automation_operations)
  then show ?thesis by (simp add: dispatch_if_configured_def automation_config_def)
qed

end

section \<open>What a package does not touch\<close>

lemmas statement_steps = steps_def same_def and_then_apply next_id_def Let_def

locale off_accounts =
  fixes f :: "'z site_scheme \<Rightarrow> 'f"
  assumes accounts_untouched:
    "f (t_users_update g0 s) = f s" "f (t_sessions_update g1 s) = f s" "f (t_permissions_update g2 s) = f s"
    "f (s\<lparr>next_ids := (next_ids s)(T_users := n)\<rparr>) = f s" "f (s\<lparr>faults := fs\<rparr>) = f s"

sublocale off_accounts \<subseteq> unseen: account_frame "same f"
  by unfold_locales
    (auto simp: statement_steps accounts_untouched account_statement_defs fun_upd_def [symmetric] split: option.split if_splits)

locale off_collab =
  fixes f :: "'z site_scheme \<Rightarrow> 'f"
  assumes collab_untouched:
    "f (t_issues_update g0 s) = f s" "f (t_pulls_update g1 s) = f s" "f (t_comments_update g2 s) = f s"
    "f (t_reviews_update g3 s) = f s" "f (t_protections_update g4 s) = f s" "f (s\<lparr>faults := fs\<rparr>) = f s"
    "i \<in> {T_issues, T_pull_requests, T_comments, T_reviews} \<Longrightarrow> f (s\<lparr>next_ids := (next_ids s)(i := n)\<rparr>) = f s"

sublocale off_collab \<subseteq> unseen: collab_frame "same f"
  by unfold_locales (auto simp: statement_steps collab_untouched collab_statement_defs split: option.split if_splits)

locale off_automation =
  fixes f :: "'z site_scheme \<Rightarrow> 'f"
  assumes automation_untouched:
    "f (t_hooks_update g0 s) = f s" "f (t_deliveries_update g1 s) = f s" "f (t_jobs_update g2 s) = f s"
    "f (t_secrets_update g3 s) = f s" "f (t_audit_update g4 s) = f s" "f (s\<lparr>faults := fs\<rparr>) = f s"
    "f (tick d s) = f s" "f (outbox_update g5 s) = f s" "f (followed_update g6 s) = f s" "f (answers_update g7 s) = f s"
    "i \<in> {T_webhooks, T_deliveries, T_jobs, T_secrets, T_audit} \<Longrightarrow> f (s\<lparr>next_ids := (next_ids s)(i := n)\<rparr>) = f s"
begin

lemma mark_calls: "steps (same f) (MarkRunning j)" "steps (same f) (MarkFinished j status out code)"
  unfolding job_mark_defs by (intro step_rules steps_pool_same; simp add: steps_def same_def automation_untouched)+

end

sublocale off_automation \<subseteq> unseen: automation_frame "same f"
  by (unfold_locales; (rule mark_calls deliverWithRetries_same |
      auto simp: statement_steps automation_untouched automation_statement_defs split: option.split if_splits))
    (simp_all add: automation_untouched)

section \<open>git, docker and the disk\<close>

locale platform_frame = pooled R for R :: "'z site_scheme \<Rightarrow> 'z site_scheme \<Rightarrow> bool" +
  fixes pf :: "'z site_scheme platform"
  assumes runner: "steps R (pf_run pf cmd)"
  and system_calls:
    "steps R (os_mkdir_all p1)" "steps R (os_write_file p2 d2)" "steps R (os_rename p3 q3)"
    "steps R (os_stat p4)" "steps R (os_remove_all p5)" "steps R (os_walk p6)" "steps R (os_mkdir_temp d7 n7)"
begin

lemma command_steps:
  "steps R (run_output (pf_run pf) c1)" "steps R (run_combined (pf_run pf) w2 c2)"
  "steps R (repo_run (pf_run pf) r3 a3)" "steps R (runBytes (pf_run pf) r4 a4)" "steps R (hostGit (pf_run pf) a5)"
  "steps R (merge_git (pf_run pf) e6 svc6 d6 a6)"
  unfolding run_output_def run_combined_def runBytes_def repo_run_def hostGit_def merge_git_def
  by (intro step_rules rel_steps runner)+

lemma git_reads:
  "steps R (ListRefs (pf_run pf) r1)"
  "steps R (ListTree (pf_run pf) r2 v2 d2)"
  "steps R (Blob (pf_run pf) r3 v3 d3)"
  "steps R (ListCommits (pf_run pf) r4 v4 d4 l4)"
  "steps R (GetCommit (pf_run pf) r5 h5)"
  unfolding ListRefs_def ListTree_def Blob_def ListCommits_def GetCommit_def Let_def
  by (intro step_rules rel_steps command_steps)+

lemma init_steps: "steps R (InitBare (pf_run pf) p)"
  unfolding InitBare_def by (intro step_rules rel_steps command_steps)

lemma merging: "steps R (merger_of pf cfg owner name number source target merged_by)"
  unfolding merger_of_def MergePR_def merge_steps_def Let_def
  by (intro step_rules rel_steps command_steps system_calls)

lemma backing_up:
  "steps R (Manager_Backup (pf_run pf) (backups_of pf cfg) owner name)"
  "steps R (backupAdapter_List (backups_of pf cfg) owner name)"
  unfolding Manager_Backup_def backupAdapter_List_def Manager_List_def backups_of_def local_store_def Local_Put_def
    Local_List_def Let_def
  by (simp, intro step_rules rel_steps command_steps system_calls)+

lemma building: "steps R (Runner_Run (pf_run pf) pid tmp rnd r bare commit branch command)"
  unfolding Runner_Run_def checkout_and_run_def run_container_def Let_def
  by (intro step_rules rel_steps command_steps system_calls runner)

end

section \<open>Where they meet\<close>

locale creation_frame = repository_frame R + platform_frame R pf
  for R :: "'z site_scheme \<Rightarrow> 'z site_scheme \<Rightarrow> bool" and pf :: "'z site_scheme platform" +
  assumes insertion: "steps R (stmt_insert_repository a1 b1 c1)"
begin

lemma creation: "steps R (Service_Create (repository_service pf cfg) input)"
proof -
  have "steps R (PostgresStore_Create r)" for r
    unfolding PostgresStore_Create_def Let_def by (intro step_rules rel_steps insertion)
  then show ?thesis
    unfolding Service_Create_def repository_service_def postgres_store_def Let_def
    by (simp cong: option.case_cong, intro step_rules rel_steps init_steps system_calls) simp_all
qed

end

locale work_frame = repository_frame R + automation_frame R + platform_frame R pf
  for R :: "'z site_scheme \<Rightarrow> 'z site_scheme \<Rightarrow> bool" and pf :: "'z site_scheme platform"
begin

lemma job_queued: "steps R (queueJob (automation_config pf cfg) rid commit branch kind ref)"
  unfolding queueJob_def readBuildCommand_def automation_config_def
  by (simp, intro step_rules rel_steps command_steps repository_operations automation_operations)

lemma merge_fanned_out: "steps R (PullRequestMerged (automation_config pf cfg) e)"
  unfolding PullRequestMerged_def by (intro step_rules rel_steps dispatching job_queued)

lemma builds: "steps R (RunOne (ci_executor pf cfg) rid job commit branch command)"
proof -
  have "exe_repo_path (ci_executor pf cfg) = RepoPath" by (simp add: ci_executor_def)
  moreover have "steps R (exe_run (ci_executor pf cfg) bare commit branch command)" for bare
    by (rule stepsI) (simp add: ci_executor_def stepsD [OF building])
  moreover have outcome: "steps R (case v of run_outcome.Panicked \<Rightarrow> m | Returned a b \<Rightarrow> k a b)"
    if "steps R m" "\<And>a b. steps R (k a b)" for v and m :: "('z site_scheme, goerr option option) st" and k
    using that by (cases v) auto
  ultimately show ?thesis
    unfolding RunOne_def Let_def by (simp only:) (intro step_rules rel_steps job_marks repository_operations outcome)
qed

end

locale event_frame = work_frame +
  assumes queueing: "R s (s\<lparr>site_builds := site_builds s @ jobs\<rparr>)"
begin

lemma builds_started: "steps R (start_builds jobs)"
  by (simp add: start_builds_def steps_def modify_state_def queueing)

lemma events:
  "steps R (adapter_PushReceived (automation_config pf cfg) ctx1 e1)"
  "steps R (adapter_PullRequestMerged (automation_config pf cfg) e2)"
  unfolding adapter_PushReceived_def adapter_PullRequestMerged_def PushReceived_def PullRequestMerged_def
  by (intro step_rules rel_steps dispatching job_queued builds_started)+

end

end
