(* ===== verification/Handlers.thy ===== *)
theory Handlers
  imports Frames
begin

text \<open>
  The contract between the handlers of the HTTP API and what they call: in the locale \<open>served\<close> a
  relation is respected by every operation of the services and by everything that writes to the
  response. Shown: then every route respects it, and so does the whole API. Each theory that
  follows instantiates the relation.
\<close>

section \<open>The services of the server\<close>

lemma more_server_api_parts [simp]:
  "api_permissions (server_api pf cfg) = Some permission_store"
  "api_content (server_api pf cfg) = DiskContent_Repo (repositories_of (repository_service pf cfg) postgres_store)"
  "api_webhooks (server_api pf cfg) = Some webhook_store"
  "api_jobs (server_api pf cfg) = Some ListJobs"
  "api_pushes (server_api pf cfg) = Some (adapter_PushReceived (automation_config pf cfg) (pf_client_gone pf))"
  "api_profiles (server_api pf cfg) = Some profile_store"
  "api_backups (server_api pf cfg) = Some (backup_adapter pf cfg)"
  "api_run (server_api pf cfg) = pf_run pf"
  by (auto simp: server_api_def new_api_def httpOptions_def surroundings_of_def split: sum.splits)

lemma server_secrets: "api_secrets (server_api pf cfg) = Some m \<Longrightarrow> \<exists>key. m = secret_store pf key"
  by (auto simp: server_api_def new_api_def httpOptions_def split: sum.splits)

lemma calling_Some [simp]: "calling (Some x) k = k x"
  by (simp add: calling_def)

lemma store_parts [simp]:
  "au_create_user (auth_store pf) = CreateUser (pf_bcrypt pf)"
  "pm_get profile_store = GetProfile" "pm_update profile_store = UpdateProfile"
  "pg_grant permission_store = Grant"
  "ra_create (repositories_of svc store) = Service_Create svc" "ra_get (repositories_of svc store) = Service_Get store"
  "ra_list (repositories_of svc store) = Service_List store"
  "co_create_issue collab_store = CreateIssue" "co_list_issues collab_store = ListIssues"
  "co_get_issue collab_store = GetIssue" "co_set_issue_state collab_store = SetIssueState"
  "co_add_comment collab_store = AddComment" "co_list_comments collab_store = ListComments"
  "co_create_pull collab_store = CreatePullRequest" "co_list_pulls collab_store = ListPullRequests"
  "co_upsert_review collab_store = UpsertReview" "co_list_reviews collab_store = ListReviews"
  "co_set_protection collab_store = SetBranchProtection" "co_get_protection collab_store = GetBranchProtection"
  "co_delete_protection collab_store = DeleteBranchProtection"
  "wm_create webhook_store = CreateHook" "wm_list webhook_store = ListAllHooks"
  "wm_delete webhook_store = DeleteHook" "wm_deliveries webhook_store = ListDeliveries"
  "sm_set (secret_store pf key) = Secrets_Set (pf_aead pf) key (pf_random pf 12)"
  "sm_list (secret_store pf key) = Secrets_List" "sm_delete (secret_store pf key) = Secrets_Delete"
  "ad_record (audit_store pf) = Audit_Record" "ad_list (audit_store pf) = Audit_List (pf_unmarshal pf)"
  "ba_backup (backup_adapter pf cfg) = Manager_Backup (pf_run pf) (backups_of pf cfg)"
  "ba_list (backup_adapter pf cfg) = backupAdapter_List (backups_of pf cfg)"
  by (simp_all add: auth_store_def profile_store_def permission_store_def repositories_of_def collab_store_def
      webhook_store_def secret_store_def audit_store_def backup_adapter_def)

locale served = state_relation R for R :: "'z site_scheme \<Rightarrow> 'z site_scheme \<Rightarrow> bool" +
  fixes pf :: "'z site_scheme platform" and cfg :: config
  assumes accounts:
    "steps R (CreateUser (pf_bcrypt pf) b1 c1)" "steps R (Authenticate (pf_bcrypt_matches pf) b2 c2)"
    "steps R (StartSession a3 b3 c3)" "steps R (UserForToken a4 b4)" "steps R (EndSession a5 b5)"
    "steps R (GetProfile a7)" "steps R (UpdateProfile a8 b8)" "steps R (Grant a9 b9 c9)"
  and collab:
    "steps R (CreateIssue d1 e1 f1 g1)" "steps R (ListIssues d2 e2)" "steps R (GetIssue d3 e3)"
    "steps R (SetIssueState d4 e4 f4)" "steps R (AddComment d5 e5 f5 g5 h5)" "steps R (ListComments d6 e6 f6)"
    "steps R (CreatePullRequest d7 e7 f7 g7 h7 i7)" "steps R (ListPullRequests d8 e8)" "steps R (GetPullRequest d9 e9)"
    "steps R (SetPullRequestState d10 e10 f10 g10)" "steps R (UpsertReview d11 e11 f11 g11 h11)"
    "steps R (ListReviews d12 e12)" "steps R (SetBranchProtection d13 e13)" "steps R (GetBranchProtection d14 e14)"
    "steps R (DeleteBranchProtection d15 e15)" "steps R (EvaluateMerge d16 e16)"
  and automation:
    "steps R (CreateHook j1 k1 l1 m1)" "steps R (ListAllHooks j2)" "steps R (DeleteHook j3 k3)"
    "steps R (ListDeliveries j4)" "steps R (ListJobs j5 k5)" "steps R (Audit_Record j6 k6 l6 m6 n6)"
    "steps R (Audit_List j7 k7 l7 m7)" "steps R (Secrets_Set j8 k8 l8 m8 n8 o8)" "steps R (Secrets_List j9)"
    "steps R (Secrets_Delete j10 k10)" "steps R (adapter_PushReceived (automation_config pf cfg) ctx event)"
    "steps R (modify_state (\<lambda>s. s\<lparr>site_merges := site_merges s @ [merge]\<rparr>))"
  and repositories:
    "steps R (Service_Create (repository_service pf cfg) input)" "steps R (Service_Get postgres_store p2 q2)"
    "steps R (Service_List postgres_store)"
    "steps R (ListRefs (pf_run pf) r1)" "steps R (ListTree (pf_run pf) r2 v2 w2)" "steps R (Blob (pf_run pf) r3 v3 w3)"
    "steps R (ListCommits (pf_run pf) r4 v4 w4 x4)" "steps R (GetCommit (pf_run pf) r5 v5)"
    "steps R (merger_of pf cfg r6 v6 w6 x6 y6 z6)" "steps R (Manager_Backup (pf_run pf) (backups_of pf cfg) r7 v7)"
    "steps R (backupAdapter_List (backups_of pf cfg) r8 v8)"
  and answers:
    "steps R (writeJSON code json)" "steps R (setSessionCookie token expires)" "steps R clearSessionCookie"
    "steps R (http_error text code')" "steps R (redirect_to target req)" "steps R (set_header ''Allow'' methods)"
begin

lemmas base_steps = steps_ret steps_read_state steps_and_then steps_on_result steps_discard_result

lemma more_answers:
  "steps R (writeError err)" "steps R badNumber" "steps R finish_logout"
  unfolding writeError_def badNumber_def finish_logout_def
  by (intro step_rules base_steps answers)+

lemma parts:
  "steps R m \<Longrightarrow> (\<And>x. steps R (k x)) \<Longrightarrow> steps R (or_error m k)"
  "(\<And>x. steps R (k2 x)) \<Longrightarrow> steps R (decodeJSON r target k2)"
  "(\<And>x. j = Some x \<Longrightarrow> steps R (k3 x)) \<Longrightarrow> steps R (calling j k3)"
  "(\<And>n. steps R (k4 n)) \<Longrightarrow> steps R (with_number r k4)"
  unfolding or_error_def decodeJSON_def calling_def with_number_def
  by (intro step_rules base_steps answers more_answers | assumption | simp)+

lemma sessions:
  fixes rand :: "'z site_scheme \<Rightarrow> goerr + string"
  shows "steps R (\<lambda>s. StartSession sha (rand s) uid s)"
  by (rule stepsI) (rule stepsD [OF accounts(3)])

lemma secrets:
  "api_secrets (server_api pf cfg) = Some m1 \<Longrightarrow> steps R (sm_set m1 a1 b1 c1)"
  "api_secrets (server_api pf cfg) = Some m2 \<Longrightarrow> steps R (sm_list m2 a2)"
  "api_secrets (server_api pf cfg) = Some m3 \<Longrightarrow> steps R (sm_delete m3 a3 b3)"
  by (drule server_secrets; auto intro: automation)+

lemmas route_steps = base_steps accounts collab automation repositories answers more_answers parts sessions secrets

lemma resolving:
  "(\<And>x. steps R (k x)) \<Longrightarrow> steps R (resolveRepo (server_api pf cfg) r k)"
  unfolding resolveRepo_def by (simp, intro route_steps route_steps)

lemma open_content:
  "(\<And>x. steps R (k x)) \<Longrightarrow> steps R (openRepo (server_api pf cfg) r k)"
  unfolding openRepo_def by (simp add: DiskContent_Repo_def, intro step_rules route_steps route_steps)

lemma auditing:
  "steps R m \<Longrightarrow> steps R (audited (server_api pf cfg) a b c d r m)"
  unfolding audited_def by (simp, intro step_rules route_steps)

lemmas route_parts = resolving open_content auditing route_steps

text \<open>Every route, given to the router by \<open>api_routes\<close>.\<close>

lemma account_handlers:
  "steps R (register (server_api pf cfg) r)"
  "steps R (login (server_api pf cfg) r)"
  "steps R (logout (server_api pf cfg) r)"
  "steps R (me (server_api pf cfg) r)"
  "steps R (listRepositories (server_api pf cfg) r)"
  "steps R (createRepository (server_api pf cfg) r)"
  "steps R (getRepository (server_api pf cfg) r)"
  unfolding register_def login_def logout_def me_def listRepositories_def createRepository_def getRepository_def Let_def
  by (simp_all add: with_collab_def cong: option.case_cong if_cong split del: if_split, (intro step_rules route_parts | assumption)+)

lemma content_handlers:
  "steps R (listRefsRoute (server_api pf cfg) r)"
  "steps R (listTreeRoute (server_api pf cfg) r)"
  "steps R (getBlobRoute (server_api pf cfg) r)"
  "steps R (listCommitsRoute (server_api pf cfg) r)"
  "steps R (getCommitRoute (server_api pf cfg) r)"
  unfolding listRefsRoute_def listTreeRoute_def getBlobRoute_def listCommitsRoute_def getCommitRoute_def Let_def
  by (simp_all add: with_collab_def cong: option.case_cong if_cong split del: if_split, (intro step_rules route_parts | assumption)+)

lemma automation_handlers:
  "steps R (listWebhooksRoute (server_api pf cfg) r)"
  "steps R (createWebhookRoute (server_api pf cfg) r)"
  "steps R (deleteWebhookRoute (server_api pf cfg) r)"
  "steps R (listDeliveriesRoute (server_api pf cfg) r)"
  "steps R (listJobsRoute (server_api pf cfg) r)"
  "steps R (putSecretRoute (server_api pf cfg) r)"
  "steps R (listSecretsRoute (server_api pf cfg) r)"
  "steps R (deleteSecretRoute (server_api pf cfg) r)"
  "steps R (notifyPushRoute (server_api pf cfg) r)"
  unfolding listWebhooksRoute_def createWebhookRoute_def deleteWebhookRoute_def listDeliveriesRoute_def
    listJobsRoute_def putSecretRoute_def listSecretsRoute_def deleteSecretRoute_def notifyPushRoute_def
    Let_def
  by (simp_all add: with_collab_def cong: option.case_cong if_cong split del: if_split, (intro step_rules route_parts | assumption)+)

lemma hardening_handlers:
  "steps R (getProfileRoute (server_api pf cfg) r)"
  "steps R (updateProfileRoute (server_api pf cfg) r)"
  "steps R (listAuditRoute (server_api pf cfg) r)"
  "steps R (createBackupRoute (server_api pf cfg) r)"
  "steps R (listBackupsRoute (server_api pf cfg) r)"
  unfolding getProfileRoute_def updateProfileRoute_def listAuditRoute_def createBackupRoute_def
    listBackupsRoute_def Let_def
  by (simp_all add: with_collab_def cong: option.case_cong if_cong split del: if_split, (intro step_rules route_parts | assumption)+)

lemma issue_handlers:
  "steps R (createIssueRoute (server_api pf cfg) r)"
  "steps R (listIssuesRoute (server_api pf cfg) r)"
  "steps R (getIssueRoute (server_api pf cfg) r)"
  "steps R (patchIssueRoute (server_api pf cfg) r)"
  "steps R (createPullRequestRoute (server_api pf cfg) r)"
  "steps R (listPullRequestsRoute (server_api pf cfg) r)"
  "steps R (getPullRequestRoute (server_api pf cfg) r)"
  "steps R (putReviewRoute (server_api pf cfg) r)"
  "steps R (listReviewsRoute (server_api pf cfg) r)"
  "steps R (getProtectionRoute (server_api pf cfg) r)"
  "steps R (putProtectionRoute (server_api pf cfg) r)"
  "steps R (deleteProtectionRoute (server_api pf cfg) r)"
  unfolding createIssueRoute_def listIssuesRoute_def getIssueRoute_def patchIssueRoute_def
    createPullRequestRoute_def listPullRequestsRoute_def getPullRequestRoute_def putReviewRoute_def
    listReviewsRoute_def getProtectionRoute_def putProtectionRoute_def deleteProtectionRoute_def Let_def
  by (simp_all add: with_collab_def cong: option.case_cong if_cong split del: if_split, (intro step_rules route_parts | assumption)+)

lemma comment_handlers:
  "steps R (addIssueCommentRoute (server_api pf cfg) r)"
  "steps R (addPRCommentRoute (server_api pf cfg) r)"
  "steps R (listCommentsRoute (server_api pf cfg) r)"
  "steps R (listPRCommentsRoute (server_api pf cfg) r)"
  unfolding addIssueCommentRoute_def addPRCommentRoute_def listCommentsRoute_def listPRCommentsRoute_def
    addComment_def listComments_def Let_def
  by (simp_all add: with_collab_def cong: option.case_cong if_cong split del: if_split, (intro step_rules route_parts | assumption)+)

lemma starting: "steps R (start_automation (server_api pf cfg) event)"
  by (simp add: start_automation_def automation)

lemma recording:
  "steps R (record_merge (server_api pf cfg) collab_store repository number user hash)"
  unfolding record_merge_def by (simp, intro step_rules route_parts starting)

lemma merge_handler: "steps R (mergePullRequestRoute (server_api pf cfg) r)"
  unfolding mergePullRequestRoute_def Let_def
  by (simp add: with_collab_def cong: option.case_cong if_cong split del: if_split)
    (intro step_rules route_parts recording)

lemma session_user: "steps R (currentUser (server_api pf cfg) r)"
  unfolding currentUser_def by (simp cong: option.case_cong if_cong split del: if_split, intro step_rules route_steps)

lemma health_handler: "steps R (health r)"
  unfolding health_def by (intro route_steps)

lemma with_session:
  "(\<And>r. steps R (h r)) \<Longrightarrow>
   steps R (requireUser (server_api pf cfg) h r)"
  unfolding requireUser_def by (intro route_steps session_user)

lemma handlers:
  "rt \<in> set (api_routes (server_api pf cfg)) \<Longrightarrow> steps R (rt_handler rt r)"
  by (auto simp: api_routes_def account_routes_def registerContentRoutes_def registerCollabRoutes_def
      registerAutomationRoutes_def registerHardeningRoutes_def route_def Let_def
      intro!: with_session health_handler account_handlers content_handlers automation_handlers
        hardening_handlers issue_handlers comment_handlers merge_handler)

lemma api_handler: "steps R (apiHandler pf cfg r)"
  unfolding apiHandler_serves serve_routes_def Let_def
  by (intro step_rules base_steps answers) (auto intro!: handlers dest: find_route_in)

end

end
