(* ===== verification/Answers.thy ===== *)
theory Answers
  imports Serving
begin

text \<open>
  Every request gets an answer: a handler that returns has sent a status, on every path through
  it, whatever its services do; and nothing but the git handler can let a panic out of the server.
\<close>

section \<open>Handlers that answer\<close>

definition answering :: "('z conn_scheme, flow) st \<Rightarrow> bool" where
  "answering m \<longleftrightarrow> (\<forall>s. fst (m s) = Finished \<longrightarrow> rw_status (snd (m s)) \<noteq> None)"

lemma answeringI: "(\<And>s t. m s = (Finished, t) \<Longrightarrow> rw_status t \<noteq> None) \<Longrightarrow> answering m"
  by (simp add: answering_def prod_eq_iff)

lemma answeringD: "answering m \<Longrightarrow> m s = (Finished, t) \<Longrightarrow> rw_status t \<noteq> None"
  unfolding answering_def by (metis fst_conv snd_conv)

named_theorems answer_rules

text \<open>Only the last thing done counts.\<close>

lemma answering_parts [answer_rules]:
  "(\<And>x. answering (k1 x)) \<Longrightarrow> answering (and_then m1 k1)"
  "answering k2 \<Longrightarrow> answering (discard_result m2 k2)"
  "(\<And>e. answering (h3 e)) \<Longrightarrow> (\<And>x. answering (k3 x)) \<Longrightarrow> answering (on_result m3 h3 k3)"
  by (auto simp: answering_def discard_result_def and_then_apply on_result_apply split: prod.split sum.split)

lemma answering_cases [answer_rules]:
  "(b \<Longrightarrow> answering m) \<Longrightarrow> (\<not> b \<Longrightarrow> answering n) \<Longrightarrow> answering (if b then m else n)"
  "(v = None \<Longrightarrow> answering m) \<Longrightarrow> (\<And>x. v = Some x \<Longrightarrow> answering (k x)) \<Longrightarrow>
    answering (case v of None \<Rightarrow> m | Some x \<Rightarrow> k x)"
  "(\<And>e. w = Inl e \<Longrightarrow> answering (h e)) \<Longrightarrow> (\<And>x. w = Inr x \<Longrightarrow> answering (l x)) \<Longrightarrow>
    answering (case w of Inl e \<Rightarrow> h e | Inr x \<Rightarrow> l x)"
  "(\<And>x y. p = (x, y) \<Longrightarrow> answering (q x y)) \<Longrightarrow> answering (case p of (x, y) \<Rightarrow> q x y)"
  "(c = [] \<Longrightarrow> answering m) \<Longrightarrow> (\<And>x xs. c = x # xs \<Longrightarrow> answering (g x xs)) \<Longrightarrow>
    answering (case c of [] \<Rightarrow> m | x # xs \<Rightarrow> g x xs)"
  by (auto split: option.split sum.split prod.split list.split)

lemma write_body_answers: "\<exists>c. rw_status (snd (write_body data s)) = Some c"
  by (auto simp: write_body_def run_simps write_header_def split: option.split)

lemma answering_writes [answer_rules]:
  "answering (ret flow.Panicked)"
  "answering (respond code data)"
  "200 \<le> code' \<Longrightarrow> answering (write_header code')"
  by (auto simp: answering_def respond_def unless_panic_def run_simps write_body_answers write_header_def
      split: flow.split prod.split)

lemma answering_answers [answer_rules]:
  "answering (writeJSON code json)" "answering (writeError err)" "answering badNumber" "answering finish_logout"
  "answering (http_error msg code)" "answering (redirect_to target r)" "answering (challenge msg)"
  unfolding writeJSON_def writeError_def badNumber_def finish_logout_def http_error_def redirect_to_def challenge_def
    writeJSON_def
  by (intro answer_rules; simp)+

lemma answering_calls [answer_rules]:
  "(\<And>x. answering (k1 x)) \<Longrightarrow> answering (or_error m1 k1)"
  "(\<And>x. answering (k2 x)) \<Longrightarrow> answering (decodeJSON r target k2)"
  "(\<And>x. answering (k3 x)) \<Longrightarrow> answering (calling j k3)"
  "(\<And>n. answering (k4 n)) \<Longrightarrow> answering (with_number r k4)"
  "(\<And>x. answering (k5 x)) \<Longrightarrow> answering (resolveRepo h r k5)"
  "(\<And>x. answering (k6 x)) \<Longrightarrow> answering (openRepo h r k6)"
  "(\<And>c. answering (k7 c)) \<Longrightarrow> answering (with_collab h k7)"
  "answering m8 \<Longrightarrow> answering (audited h a b c d r m8)"
  unfolding or_error_def decodeJSON_def calling_def with_number_def resolveRepo_def openRepo_def with_collab_def
    calling_def audited_def
  by (intro answer_rules | assumption | simp)+

section \<open>The routes\<close>

lemma account_answers:
  "answering (health r)" "answering (register h r)" "answering (login h r)" "answering (logout h r)"
  "answering (me h r)" "answering (listRepositories h r)" "answering (createRepository h r)"
  "answering (getRepository h r)"
  unfolding health_def register_def login_def logout_def me_def listRepositories_def createRepository_def
    getRepository_def Let_def
  by (intro answer_rules)+

lemma content_answers:
  "answering (listRefsRoute h r)" "answering (listTreeRoute h r)" "answering (getBlobRoute h r)"
  "answering (listCommitsRoute h r)" "answering (getCommitRoute h r)"
  unfolding listRefsRoute_def listTreeRoute_def getBlobRoute_def listCommitsRoute_def getCommitRoute_def Let_def
  by (intro answer_rules)+

lemma automation_answers:
  "answering (listWebhooksRoute h r)" "answering (createWebhookRoute h r)" "answering (deleteWebhookRoute h r)"
  "answering (listDeliveriesRoute h r)" "answering (listJobsRoute h r)" "answering (putSecretRoute h r)"
  "answering (listSecretsRoute h r)" "answering (deleteSecretRoute h r)" "answering (notifyPushRoute h r)"
  unfolding listWebhooksRoute_def createWebhookRoute_def deleteWebhookRoute_def listDeliveriesRoute_def
    listJobsRoute_def putSecretRoute_def listSecretsRoute_def deleteSecretRoute_def notifyPushRoute_def Let_def
  by (intro answer_rules)+

lemma hardening_answers:
  "answering (getProfileRoute h r)" "answering (updateProfileRoute h r)" "answering (listAuditRoute h r)"
  "answering (createBackupRoute h r)" "answering (listBackupsRoute h r)"
  unfolding getProfileRoute_def updateProfileRoute_def listAuditRoute_def createBackupRoute_def listBackupsRoute_def
    Let_def
  by (intro answer_rules)+

lemma collab_answers:
  "answering (createIssueRoute h r)" "answering (listIssuesRoute h r)" "answering (getIssueRoute h r)"
  "answering (patchIssueRoute h r)" "answering (addIssueCommentRoute h r)" "answering (listCommentsRoute h r)"
  "answering (addPRCommentRoute h r)" "answering (listPRCommentsRoute h r)"
  "answering (createPullRequestRoute h r)" "answering (listPullRequestsRoute h r)"
  "answering (getPullRequestRoute h r)" "answering (mergePullRequestRoute h r)" "answering (putReviewRoute h r)"
  "answering (listReviewsRoute h r)" "answering (getProtectionRoute h r)" "answering (putProtectionRoute h r)"
  "answering (deleteProtectionRoute h r)"
  unfolding createIssueRoute_def listIssuesRoute_def getIssueRoute_def patchIssueRoute_def addIssueCommentRoute_def
    listCommentsRoute_def addPRCommentRoute_def listPRCommentsRoute_def addComment_def listComments_def
    createPullRequestRoute_def listPullRequestsRoute_def getPullRequestRoute_def mergePullRequestRoute_def
    record_merge_def putReviewRoute_def listReviewsRoute_def getProtectionRoute_def putProtectionRoute_def
    deleteProtectionRoute_def Let_def
  by (intro answer_rules)+

lemma requireUser_answers: "(\<And>r. answering (f r)) \<Longrightarrow> answering (requireUser h f r)"
  unfolding requireUser_def by (intro answer_rules)

lemma route_answers: "rt \<in> set (api_routes h) \<Longrightarrow> answering (rt_handler rt r)"
  by (auto simp: api_routes_def account_routes_def registerContentRoutes_def registerCollabRoutes_def
      registerAutomationRoutes_def registerHardeningRoutes_def route_def Let_def
      intro!: requireUser_answers account_answers content_answers automation_answers hardening_answers collab_answers)

lemma api_answers: "answering (apiHandler pf cfg r)"
  unfolding apiHandler_serves serve_routes_def Let_def
  by (intro answer_rules) (auto intro!: route_answers dest: find_route_in)

section \<open>The server\<close>

lemma answering_then:
  "answering m \<Longrightarrow> steps (keeps (\<lambda>s. rw_status s \<noteq> None)) k \<Longrightarrow> answering (unless_panic m k)"
  unfolding answering_def unless_panic_def and_then_apply steps_def keeps_def
  by (auto split: prod.split flow.split) (metis fst_conv snd_conv)+

lemma backend_answers: "answering (Handler_ServeHTTP g r)"
proof -
  have "answering (parseCGIResponse out)" for out
    unfolding parseCGIResponse_def by (intro answer_rules)
  moreover have "steps (keeps (\<lambda>s. rw_status s \<noteq> None)) (discard_result (if b then set_header k v else ret ()) (ret x))" for b k v x
    by (intro step_rules) (simp add: steps_def keeps_def set_header_def modify_state_def)
  ultimately have ran: "answering (unless_panic (parseCGIResponse out) (discard_result (if b then set_header k v else ret ()) (ret Finished)))"
    for out b k v by (rule answering_then)
  have by_run: "answering (case v of Pipe_failed \<Rightarrow> a | Start_failed e \<Rightarrow> b e | Ran out err \<Rightarrow> c out err)"
    if "answering a" "\<And>e. answering (b e)" "\<And>out err. answering (c out err)" for v and a :: "('z conn_scheme, flow) st" and b c
    using that by (cases v) auto
  show ?thesis
    unfolding Handler_ServeHTTP_def Let_def by (intro answer_rules by_run ran)
qed

lemma git_answers: "answering (gitHandler pf cfg r)"
  unfolding gitHandler_def AuthHandler_ServeHTTP_def Let_def by (intro answer_rules backend_answers)

text \<open>The chain answers itself when the handler panics.\<close>

lemma hardened_answers: "fst (hardened pf cfg r s) = Finished \<and> rw_status (snd (hardened pf cfg r s)) \<noteq> None"
proof -
  let ?inner = "Limiter_Middleware (inner_handler pf cfg)"
  have limited: "answering (?inner q)" for q
    unfolding Limiter_Middleware_def inner_handler_def by (intro answer_rules git_answers api_answers)
  have logged: "answering (AccessLog True ?inner q)" for q
    unfolding AccessLog_def
    by (intro answer_rules answering_then limited step_rules) (simp add: steps_def keeps_def modify_state_def)
  have "fst (Recovery (AccessLog True ?inner) q t) = Finished \<and> rw_status (snd (Recovery (AccessLog True ?inner) q t)) \<noteq> None" for q t
  proof -
    obtain f u where run: "AccessLog True ?inner q t = (f, u)" by fastforce
    show ?thesis
    proof (cases f)
      case Finished
      then show ?thesis using run answeringD [OF logged] by (auto simp: Recovery_def and_then_apply ret_apply)
    next
      case Panicked
      have "fst (respond 500 b v) = Finished \<and> rw_status (snd (respond 500 b v)) \<noteq> None" for b and v :: "'a site_scheme"
        using write_body_answers by (auto simp: respond_def unless_panic_def run_simps write_header_def)
      then show ?thesis using run Panicked by (auto simp: Recovery_def run_simps)
    qed
  qed
  then show ?thesis
    unfolding hardened_def Chain_foldr SecureHeaders_def RequestID_def by (simp add: run_simps)
qed

text \<open>
  C6: Every request is answered. Whatever the request, the tables, the platform and the calls that
  fail, the server returns with a status sent, or panics; and it panics only for a request below
  \<open>/git/\<close>, which the outer router hands to the git handler without the recovery.
\<close>

theorem every_request_is_answered:
  "case server_handler pf cfg r s of
     (Finished, t) \<Rightarrow> rw_status t \<noteq> None
   | (flow.Panicked, t) \<Rightarrow> \<exists>rest. map path_unescape (request_segments (req_escaped r)) = ''git'' # rest"
proof -
  have redirect: "fst (redirect_to target q u) = Finished \<and> rw_status (snd (redirect_to target q u)) \<noteq> None"
    for target q and u :: "'a site_scheme"
    using write_body_answers
    by (auto simp: redirect_to_def respond_def unless_panic_def run_simps write_header_def set_header_def)
  obtain f t where run: "server_handler pf cfg r s = (f, t)" by fastforce
  let ?segs = "map path_unescape (request_segments (req_escaped r))"
  show ?thesis
  proof (cases "\<exists>rest. ?segs = ''git'' # rest")
    case True
    have "answering (server_handler pf cfg r)"
      unfolding server_handler_def Let_def
      by (intro answer_rules git_answers) (auto simp: answering_def hardened_answers)
    from answeringD [OF this] show ?thesis using True run by (cases f) auto
  next
    case False
    then have "fst (server_handler pf cfg r s) = Finished \<and> rw_status (snd (server_handler pf cfg r s)) \<noteq> None"
      unfolding server_handler_def Let_def
      by (auto simp: redirect [THEN conjunct1] hardened_answers [THEN conjunct1] redirect [THEN conjunct2, simplified]
          hardened_answers [THEN conjunct2, simplified] split: list.split)
    then show ?thesis using run by simp
  qed
qed

end
