(* ===== verification/Chain.thy ===== *)
theory Chain
  imports Handlers Answers
begin

text \<open>
  The middleware chain around the HTTP API. The response a handler writes is no part of what the
  stores, git and the network work on, so every route leaves alone what the chain has put there:
  every answer of the API leaves the chain with the hardening headers and a request id, and no
  panic escapes.
\<close>

section \<open>A part of the state beside the services\<close>

locale bystander =
  fixes f :: "'z site_scheme \<Rightarrow> 'f" and pf :: "'z site_scheme platform"
  assumes beside:
    "f (t_users_update g0 s) = f s"
    "f (t_sessions_update g1 s) = f s"
    "f (t_repositories_update g2 s) = f s"
    "f (t_permissions_update g3 s) = f s"
    "f (t_issues_update g4 s) = f s"
    "f (t_pulls_update g5 s) = f s"
    "f (t_comments_update g6 s) = f s"
    "f (t_reviews_update g7 s) = f s"
    "f (t_protections_update g8 s) = f s"
    "f (t_hooks_update g9 s) = f s"
    "f (t_deliveries_update g10 s) = f s"
    "f (t_jobs_update g11 s) = f s"
    "f (t_secrets_update g12 s) = f s"
    "f (t_audit_update g13 s) = f s"
    "f (next_ids_update g14 s) = f s"
    "f (clock_update g15 s) = f s"
    "f (faults_update g16 s) = f s"
    "f (fs_files_update g17 s) = f s"
    "f (fs_dirs_update g18 s) = f s"
    "f (io_faults_update g19 s) = f s"
    "f (outbox_update g20 s) = f s"
    "f (followed_update g21 s) = f s"
    "f (answers_update g22 s) = f s"
    "f (site_merges_update g23 s) = f s"
    "f (site_builds_update g24 s) = f s"
  and commands: "steps (same f) (pf_run pf cmd)"
begin

lemmas stmt_steps = steps_def same_def and_then_apply next_id_def Let_def beside

lemma file_calls:
  "steps (same f) (os_mkdir_all p1)" "steps (same f) (os_write_file p2 d2)" "steps (same f) (os_rename p3 q3)"
  "steps (same f) (os_stat p4)" "steps (same f) (os_remove_all p5)" "steps (same f) (os_walk p6)"
  "steps (same f) (os_mkdir_temp d7 n7)"
  unfolding system_call_defs Let_def
  by (rule steps_syscall_same; auto simp: stmt_steps split: option.split)+

end

sublocale bystander \<subseteq> off_accounts f + off_collab f + off_automation f
  by unfold_locales (simp_all add: beside tick_def)

sublocale bystander \<subseteq> creation_frame "same f" pf
  by (unfold_locales; (rule commands file_calls | auto simp: stmt_steps repository_statement_defs split: option.split if_splits))

sublocale bystander \<subseteq> event_frame "same f" pf
  by unfold_locales (simp_all add: beside same_def)

section \<open>The routes leave the headers of the chain alone\<close>

definition response ::
  "'z conn_scheme \<Rightarrow> (string \<times> string list) list \<times> int option \<times> (string \<times> string list) list \<times> string" where
  "response s = (rw_header s, rw_status s, rw_sent s, rw_body s)"

lemma quiet: "steps (same response) m \<Longrightarrow> steps (keeps (carries hs)) m"
  by (auto simp: steps_def same_def keeps_def carries_def response_def)

lemma polite_answers [polite_rules]:
  "steps (keeps (carries (hardening i))) (writeJSON code value)"
  "steps (keeps (carries (hardening i))) (setSessionCookie token expires)"
  "steps (keeps (carries (hardening i))) clearSessionCookie"
  unfolding writeJSON_def setSessionCookie_def clearSessionCookie_def
  by (intro step_rules polite_rules)+

lemma polite_http_error [polite_rules]: "steps (keeps (carries (hardening i))) (http_error msg code)"
proof -
  have "steps (keeps (carries (hardening i))) (del_header ''Content-Length'')"
    by (auto simp: steps_def keeps_def carries_def del_header_def hardening_def securityHeaders_def)
  moreover have "steps (keeps (carries (hardening i))) (set_header ''X-Content-Type-Options'' ''nosniff'')"
    by (auto simp: steps_def keeps_def carries_def set_header_def hardening_def securityHeaders_def update_conv')
  ultimately show ?thesis unfolding http_error_def by (intro step_rules polite_rules)
qed

lemma polite_redirect [polite_rules]: "steps (keeps (carries (hardening i))) (redirect_to target r)"
proof -
  have "steps (keeps (carries (hardening i))) (set_header ''Location'' v)" for v
    by (rule carries_set_header) (simp add: hardening_keys)
  then show ?thesis unfolding redirect_to_def by (intro step_rules polite_rules)
qed

lemma polite_allow: "steps (keeps (carries (hardening i))) (set_header ''Allow'' v)"
  by (rule carries_set_header) (simp add: hardening_keys)

locale apart_from_response = bystander response pf for pf :: "'z site_scheme platform"

sublocale apart_from_response \<subseteq> served "keeps (carries (hardening i))" pf cfg for i cfg
  by (unfold_locales;
      (rule polite_answers polite_http_error polite_redirect polite_allow unseen.account_operations [THEN quiet]
          unseen.collab_reads [THEN quiet] unseen.collab_operations [THEN quiet] unseen.automation_operations [THEN quiet]
          events [THEN quiet] creation [THEN quiet] lookups [THEN quiet] git_reads [THEN quiet] merging [THEN quiet]
          backing_up [THEN quiet]
        | simp add: steps_def keeps_def carries_def modify_state_def))

context apart_from_response
begin

lemma polite_api: "polite (apiHandler pf cfg)"
  by (rule politeI) (rule api_handler)

end

section \<open>The chain of the server\<close>

text \<open>A request whose path is not below \<open>/git/\<close> meets the API behind the same middleware.\<close>

definition api_path :: "http_req \<Rightarrow> bool" where
  "api_path r \<longleftrightarrow> req_path r \<noteq> ''/git/'' \<and> \<not> has_prefix (req_path r) ''/git/''"

lemma hardened_api:
  assumes "api_path r"
  shows "hardened pf cfg r s =
    Chain (apiHandler pf cfg) [SecureHeaders, RequestID (pf_random pf 12), Recovery, AccessLog True, Limiter_Middleware] r s"
proof -
  have "inner_handler pf cfg (r\<lparr>req_id := i\<rparr>) = apiHandler pf cfg (r\<lparr>req_id := i\<rparr>)" for i
    using assms by (simp add: inner_handler_def api_path_def)
  then have "Limiter_Middleware (inner_handler pf cfg) (r\<lparr>req_id := i\<rparr>) =
      Limiter_Middleware (apiHandler pf cfg) (r\<lparr>req_id := i\<rparr>)" for i
    by (simp only: Limiter_Middleware_def)
  then show ?thesis
    by (simp add: hardened_def Chain_foldr SecureHeaders_def RequestID_def Recovery_def AccessLog_def)
qed

interpretation demo_apart: apart_from_response "demo_platform :: 'z site_scheme platform"
  by unfold_locales (simp_all add: response_def demo_platform_def step_rules)

text \<open>
  What the outer router does with a request: it redirects \<open>/git\<close> and every path that is not
  clean, and hands what is below \<open>/git/\<close> to the git handler; the rest goes to the chain.
\<close>

definition outer_redirect :: "http_req \<Rightarrow> bool" where
  "outer_redirect r \<longleftrightarrow>
     (let p = req_escaped r; target = (if req_method r = ''CONNECT'' then p else mux_clean_path p) in
      \<not> has_suffix target [slash] \<and> map path_unescape (request_segments target) = [''git'']
      \<or> target \<noteq> p)"

definition outer_git :: "http_req \<Rightarrow> bool" where
  "outer_git r \<longleftrightarrow>
     (case map path_unescape (request_segments (req_escaped r)) of first # _ # _ \<Rightarrow> first = ''git'' | _ \<Rightarrow> False)"

lemma server_handler_cases:
  "outer_redirect r \<Longrightarrow> \<exists>p. server_handler pf cfg r s = redirect_to (pf_moved pf p (req_raw_query r)) r s"
  "\<not> outer_redirect r \<Longrightarrow> server_handler pf cfg r s = (if outer_git r then gitHandler pf cfg r else hardened pf cfg r) s"
proof -
  obtain t where t: "(if req_method r = ''CONNECT'' then req_escaped r else mux_clean_path (req_escaped r)) = t"
    by blast
  show "\<exists>p. server_handler pf cfg r s = redirect_to (pf_moved pf p (req_raw_query r)) r s" if "outer_redirect r"
    using that unfolding server_handler_def outer_redirect_def Let_def t by (simp split: if_split) blast
  show "server_handler pf cfg r s = (if outer_git r then gitHandler pf cfg r else hardened pf cfg r) s"
    if "\<not> outer_redirect r"
    using that unfolding server_handler_def outer_redirect_def outer_git_def Let_def t
    by (auto split: list.split if_split)
qed

text \<open>A redirect is the bare answer of the router.\<close>

lemma redirect_bare:
  assumes "unanswered s"
  shows "\<exists>t. redirect_to target r s = (Finished, t) \<and> rw_status t = Some 301
    \<and> fst ` set (rw_header t) \<subseteq> {''Location'', ''Content-Type''}
    \<and> fst ` set (rw_sent t) \<subseteq> {''Location'', ''Content-Type''}"
  using assms
  by (auto simp: redirect_to_def unanswered_def respond_def unless_panic_def run_simps write_header_def
      set_header_def write_body_def body_allowed_def)

text \<open>
  C5: What the server answers outside git. Every request the outer router passes to the chain and
  whose path is not below \<open>/git/\<close> is answered, whatever the route, the tables and the faults,
  with the hardening headers and a request id, also in what was sent; the answer is finished (no
  panic reaches net/http); the id has between 8 and 128 characters; and a panic before anything
  was sent is answered with status 500 and a JSON body that names the id. The rest is handled
  thus: paths that are not clean, and \<open>/git\<close> itself, get the bare redirect of the router,
  without any of these headers; paths below \<open>/git/\<close> go to the git handler, which is not in the
  chain; and a path whose first segment hides \<open>/git/\<close> behind an escaped slash meets the git handler
  inside the chain, which still keeps panics in. git and docker are relied on to leave the
  response alone, the random source to return the bytes asked for.
\<close>

theorem api_answers_are_hardened:
  fixes pf :: "'z site_scheme platform" and s :: "'z site_scheme" and r :: http_req
  assumes "\<And>cmd. steps (same response) (pf_run pf cmd)" and "ids_ok (pf_random pf 12)"
    and "unanswered s" and "four_digit_year (clock s)"
  defines "i \<equiv> request_id (pf_random pf 12) r (snd (set_headers securityHeaders s))"
  shows "if outer_redirect r then \<exists>t. server_handler pf cfg r s = (Finished, t) \<and> rw_status t = Some 301
      \<and> fst ` set (rw_header t) \<subseteq> {''Location'', ''Content-Type''}
    else if outer_git r then server_handler pf cfg r s = gitHandler pf cfg r s
    else \<exists>t. server_handler pf cfg r s = (Finished, t) \<and>
      (api_path r \<longrightarrow> carries (hardening i) t \<and> 8 \<le> length i \<and> length i \<le> 128
        \<and> (\<forall>u. Limiter_Middleware (apiHandler pf cfg) (r\<lparr>req_id := i\<rparr>) (hardened_start i s) = (flow.Panicked, u) \<longrightarrow>
            rw_status u = None \<longrightarrow> rw_status t = Some 500 \<and> rw_body t = rw_body u @ recovery_body i))"
proof (cases "outer_redirect r \<or> outer_git r")
  case True
  show ?thesis
  proof (cases "outer_redirect r")
    case redirect: True
    then obtain p where "server_handler pf cfg r s = redirect_to (pf_moved pf p (req_raw_query r)) r s"
      using server_handler_cases(1) by blast
    then show ?thesis
      using redirect redirect_bare [OF assms(3), of "pf_moved pf p (req_raw_query r)" r] by auto
  next
    case False
    then show ?thesis using True server_handler_cases(2) [OF False] by simp
  qed
next
  case False
  have "apart_from_response pf" by unfold_locales (simp_all add: response_def assms(1))
  then have polite: "polite (apiHandler pf cfg)" by (rule apart_from_response.polite_api)
  obtain t where "hardened pf cfg r s = (Finished, t)"
    using hardened_answers [of pf cfg r s] by (cases "hardened pf cfg r s") auto
  then show ?thesis
    using False server_handler_cases(2) [of r pf cfg s] hardened_api [of r pf cfg s]
      hardened_chain [OF assms(3) polite assms(2,4), where r = r and logger = True]
    unfolding i_def by auto
qed

theorem api_answers_are_hardened_witness:
  "\<exists>t. server_handler demo_platform demo_config (request_for ''GET'' ''/healthz'') demo_site = (Finished, t)
     \<and> map_of (rw_header t) ''X-Frame-Options'' = Some [''DENY'']"
proof -
  let ?r = "request_for ''GET'' ''/healthz''"
  have i: "ids_ok (pf_random (demo_platform :: site platform) 12)"
    by (simp add: ids_ok_def demo_platform_def)
  have c: "four_digit_year (clock demo_site)"
    using demo_backup(4,5) by (simp add: site_defs)
  have p: "api_path ?r" "\<not> outer_redirect ?r" "\<not> outer_git ?r" by code_simp+
  have u: "unanswered demo_site" by (simp add: unanswered_def site_defs)
  have "steps (same response) (pf_run (demo_platform :: site platform) cmd)" for cmd
    by (simp add: demo_platform_def step_rules)
  from api_answers_are_hardened [OF this i u c, of ?r demo_config] p
  have "\<exists>t. server_handler demo_platform demo_config ?r demo_site = (Finished, t)
      \<and> carries (hardening (request_id (pf_random demo_platform 12) ?r
           (snd (set_headers securityHeaders demo_site)))) t"
    by auto
  then show ?thesis by (auto simp: carries_def hardening_def securityHeaders_def)
qed

end
