(* ===== verification/Pushes.thy ===== *)
theory Pushes
  imports Serving
begin

text \<open>
  A push as the post-receive hook reports it over HTTP, followed to the job in the table and the
  goroutine that builds it.
\<close>

lemma automation_config_pg: "pg_configured (automation_config pf cfg)"
proof -
  have "webhook_dispatcher pf = pg_dispatcher 0 (pf_mac pf) (pf_parse_url pf) (pf_time_text pf) (\<lambda>_. False)"
    by (simp add: webhook_dispatcher_def pg_dispatcher_def)
  then show ?thesis unfolding pg_configured_def automation_config_def by simp (intro exI, rule refl)
qed

lemma automation_config_parts:
  "cfg_ci_store (automation_config pf cfg)" "cfg_executor (automation_config pf cfg) = Some (ci_executor pf cfg)"
  "cfg_repo_path (automation_config pf cfg) = Some RepoPath" "cfg_run (automation_config pf cfg) = pf_run pf"
  by (simp_all add: automation_config_def)

text \<open>Dispatching leaves the response, the goroutines and the jobs alone.\<close>

definition push_view ::
  "'z site_scheme \<Rightarrow> int option \<times> string \<times> spawned list \<times> job_row list \<times> repository list \<times> int" where
  "push_view s = (rw_status s, rw_body s, site_builds s, t_jobs s, t_repositories s, next_ids s T_jobs)"

lemma dispatch_view:
  fixes s :: "'z site_scheme"
  assumes "dispatch_if_configured (automation_config pf cfg) ctx rid ev slug actor data s = (u, w)"
  shows "push_view w = push_view s \<and> (calm s \<longrightarrow> calm w)"
proof -
  have "webhook_dispatcher pf = pg_dispatcher 0 (pf_mac pf) (pf_parse_url pf) (pf_time_text pf) (\<lambda>_. False)"
    by (simp add: webhook_dispatcher_def pg_dispatcher_def)
  then have run: "Dispatch (pg_dispatcher 0 (pf_mac pf) (pf_parse_url pf) (pf_time_text pf) ctx) rid ev slug actor data s = (u, w)"
    using assms by (simp add: dispatch_if_configured_def automation_config_def)
  have "same push_view s w"
    by (rule stepsE [OF Dispatch_same run]) (simp_all add: push_view_def tick_def)
  then show ?thesis
    using dispatch_if_configured_view [OF automation_config_pg assms] by (simp add: same_def)
qed

lemma RepoPath_found:
  "calm s \<Longrightarrow> List.find (\<lambda>r. repo_id r = rid) (t_repositories s) = Some repo \<Longrightarrow> RepoPath rid s = (Inr (repo_path repo), s)"
  by (simp add: RepoPath_def stmt_select_path_def)

definition deleted_branch :: "string \<Rightarrow> bool" where
  "deleted_branch commit \<longleftrightarrow> commit = [] \<or> commit = zero_hash"

lemma push_effect:
  fixes s :: "'z site_scheme"
  assumes "calm s" and "List.find (\<lambda>r. repo_id r = ap_repository ev) (t_repositories s) = Some repo"
    and git: "\<And>w. pf_run pf (show_config (repo_path repo) (ap_new_hash ev)) w = (out, w)"
    and run: "adapter_PushReceived (automation_config pf cfg) ctx ev s = (u, t)"
  shows "rw_status t = rw_status s \<and> rw_body t = rw_body s \<and>
    (if deleted_branch (ap_new_hash ev) \<or> build_command out = []
     then t_jobs t = t_jobs s \<and> site_builds t = site_builds s
     else \<exists>now. t_jobs t = t_jobs s @ [\<lparr>jrow_repo = ap_repository ev, jrow_job =
            queued_job (next_ids s T_jobs) (ap_new_hash ev) (ap_branch ev) ''push'' [] now\<rparr>]
       \<and> site_builds t = site_builds s @ [\<lparr>sp_repository = ap_repository ev, sp_job = next_ids s T_jobs,
            sp_commit = ap_new_hash ev, sp_branch = ap_branch ev, sp_command = build_command out\<rparr>])"
proof -
  let ?c = "automation_config pf cfg" and ?rid = "ap_repository ev"
  obtain x w where d: "dispatch_if_configured ?c ctx ?rid EventPush (ap_owner ev @ ''/'' @ ap_name ev) []
      [(''branch'', JStr (ap_branch ev)), (''after'', JStr (ap_new_hash ev)), (''before'', JStr (ap_old_hash ev))] s = (x, w)"
    by (rule prod.exhaust)
  from dispatch_view [OF d] assms(1) have w: "calm w" "push_view w = push_view s" by auto
  then have path: "RepoPath ?rid w = (Inr (repo_path repo), w)"
    using assms(2) by (intro RepoPath_found) (simp_all add: push_view_def)
  have "repo_exists w ?rid"
    using find_SomeD [OF assms(2)] w(2) by (force simp: push_view_def repo_exists_def)
  from queueJob_effect [OF w(1) this automation_config_parts(1-3) path git [folded automation_config_parts(4) [of pf cfg]],
      of "ap_branch ev" "''push''" "[]"]
  show ?thesis
    using run d w(2)
    by (auto simp: adapter_PushReceived_def PushReceived_def run_simps start_builds_def deleted_branch_def push_view_def
        split: if_splits)
qed

text \<open>
  C21: A push reported over HTTP. Without a configured token the route does not exist, and with
  another one than the server's it is refused, both with nothing changed. With the token, for a
  repository that exists: a deleted branch and a commit without a build command queue nothing;
  every other push queues exactly one job, for that commit and branch, and starts exactly one
  build of it with the command git showed; the answer is 200. Webhooks are delivered first and
  change none of this, whatever their receivers answer.
\<close>

theorem push_over_http:
  fixes s :: "'z site_scheme" and pf :: "'z site_scheme platform" and cfg :: config
  assumes "calm s" and "fresh_response s" and "req_json r = Inr j"
    and "decode_struct (texts_struct [''owner'', ''name'', ''branch'', ''old_hash'', ''new_hash'']) j = Some input"
    and "text_of input ''owner'' \<noteq> []" and "text_of input ''name'' \<noteq> []" and "text_of input ''branch'' \<noteq> []"
    and "Service_Get postgres_store (text_of input ''owner'') (text_of input ''name'') s = (Inr repo, s)"
    and "List.find (\<lambda>r. repo_id r = repo_id repo) (t_repositories s) = Some repo"
    and "\<And>w. pf_run pf (show_config (repo_path repo) (text_of input ''new_hash'')) w = (out, w)"
  defines "h \<equiv> server_api pf cfg" and "commit \<equiv> text_of input ''new_hash''" and "branch \<equiv> text_of input ''branch''"
  shows "if api_internal_token h = []
    then answered 404 (error_json ''push notifications disabled'') s (notifyPushRoute h r s)
    else if header_get r ''X-Gitcastle-Internal-Token'' \<noteq> api_internal_token h
    then answered 401 (error_json ''invalid token'') s (notifyPushRoute h r s)
    else \<exists>t now. answered 200 (status_json ''notified'') t (notifyPushRoute h r s)
      \<and> (if deleted_branch commit \<or> build_command out = []
         then t_jobs t = t_jobs s \<and> site_builds t = site_builds s
         else t_jobs t = t_jobs s @ [\<lparr>jrow_repo = repo_id repo,
                jrow_job = queued_job (next_ids s T_jobs) commit branch ''push'' [] now\<rparr>]
           \<and> site_builds t = site_builds s @ [\<lparr>sp_repository = repo_id repo, sp_job = next_ids s T_jobs,
                sp_commit = commit, sp_branch = branch, sp_command = build_command out\<rparr>])"
proof -
  let ?ev = "\<lparr>ap_repository = repo_id repo, ap_owner = text_of input ''owner'', ap_name = text_of input ''name'',
    ap_branch = branch, ap_old_hash = text_of input ''old_hash'', ap_new_hash = commit\<rparr>"
  have pushes: "api_pushes h = Some (adapter_PushReceived (automation_config pf cfg) (pf_client_gone pf))"
    by (simp add: h_def server_api_def new_api_def httpOptions_def)
  obtain u t where run: "adapter_PushReceived (automation_config pf cfg) (pf_client_gone pf) ?ev s = (u, t)" by (rule prod.exhaust)
  have find: "List.find (\<lambda>r. repo_id r = ap_repository ?ev) (t_repositories s) = Some repo" using assms(9) by simp
  have git: "pf_run pf (show_config (repo_path repo) (ap_new_hash ?ev)) w = (out, w)" for w
    using assms(10) by (simp add: commit_def)
  note effect = push_effect [OF assms(1) find git run]
  have "notifyPushRoute h r s = writeJSON 200 (status_json ''notified'') t"
    if "api_internal_token h \<noteq> []" "header_get r ''X-Gitcastle-Internal-Token'' = api_internal_token h"
    using that assms(3-8) run
    by (simp add: notifyPushRoute_def pushes [unfolded h_def] decodeJSON_def or_error_def run_simps h_def repositories_of_def
        commit_def branch_def)
  moreover have "fresh_response t" using effect assms(2) by (simp add: fresh_response_def)
  ultimately show ?thesis
    using effect writeJSON_answered [of t 200] writeJSON_answered [OF assms(2), of 404] writeJSON_answered [OF assms(2), of 401]
    by (auto simp: notifyPushRoute_def pushes body_allowed_def split: if_splits)
qed

section \<open>A push to a server\<close>

definition pushing_platform :: "site platform" where
  "pushing_platform = demo_platform\<lparr>pf_run := (\<lambda>cmd. ret demo_show)\<rparr>"

definition push_request :: http_req where
  "push_request = blank_req\<lparr>req_header := [(''X-Gitcastle-Internal-Token'', [''t0ken''])],
     req_json := Inr (JObj [(''owner'', JStr ''alice''), (''name'', JStr ''castle''), (''branch'', JStr ''main''),
       (''new_hash'', JStr ''c0ffee'')])\<rparr>"

theorem push_over_http_witness:
  "\<exists>t. answered 200 (status_json ''notified'') t (notifyPushRoute (server_api pushing_platform demo_config) push_request busy_site)
     \<and> length (t_jobs t) = 1 \<and> map sp_command (site_builds t) = [''make'']"
proof -
  let ?input = "[(''owner'', FText ''alice''), (''name'', FText ''castle''), (''branch'', FText ''main''),
    (''old_hash'', FText []), (''new_hash'', FText ''c0ffee'')]"
  let ?json = "JObj [(''owner'', JStr ''alice''), (''name'', JStr ''castle''), (''branch'', JStr ''main''),
    (''new_hash'', JStr ''c0ffee'')]"
  let ?repo = "\<lparr>repo_id = 3, repo_owner = ''alice'', repo_name = ''castle'',
    repo_path = ''./var/repositories/alice/castle.git'', repo_created = 0\<rparr>"
  have decode: "decode_struct (texts_struct [''owner'', ''name'', ''branch'', ''old_hash'', ''new_hash'']) ?json = Some ?input"
    by code_simp
  have texts: "text_of ?input ''owner'' = ''alice''" "text_of ?input ''name'' = ''castle''"
    "text_of ?input ''branch'' = ''main''" "text_of ?input ''new_hash'' = ''c0ffee''" by (simp_all add: text_of_def)
  have json: "req_json push_request = Inr ?json" by (simp add: push_request_def)
  have git: "pf_run pushing_platform (show_config (repo_path ?repo) (text_of ?input ''new_hash'')) w = (demo_show, w)" for w
    by (simp add: pushing_platform_def ret_apply)
  have found: "List.find (\<lambda>r. repo_id r = repo_id ?repo) (t_repositories busy_site) = Some ?repo"
    by (simp add: busy_site_def)
  have get: "Service_Get postgres_store (text_of ?input ''owner'') (text_of ?input ''name'') busy_site = (Inr ?repo, busy_site)"
    using busy_repository texts by simp
  have token: "api_internal_token (server_api pushing_platform demo_config) = ''t0ken''"
    "header_get push_request ''X-Gitcastle-Internal-Token'' = ''t0ken''"
    by (simp_all add: server_api_def new_api_def httpOptions_def pushing_platform_def demo_platform_def getenv_def
        push_request_def header_get_def first_header_def)
  have "\<not> deleted_branch ''c0ffee''" by (simp add: deleted_branch_def zero_hash_def numeral_nat)
  moreover have "t_jobs busy_site = []" "site_builds busy_site = []" by (simp_all add: busy_site_def site_defs)
  ultimately show ?thesis
    using push_over_http [OF busy_site_ready(1,2) json decode _ _ _ get found git, of demo_config]
    by (auto simp: texts token demo_build_command)
qed

end
