(* ===== verification/Background.thy ===== *)
theory Background
  imports Frames Pushes
begin

text \<open>
  The work the server does besides answering: the goroutines that requests start. A merge event
  is fanned out (webhooks are delivered and a build may be queued), a build is run. Shown: what
  the run of a build leaves in the table of jobs; that this work ends, whatever fails; and that
  when nothing fails it leaves no job unfinished.
\<close>

section \<open>Goroutines\<close>

text \<open>
  One goroutine runs to its end: \<^verbatim>\<open>go h.Automation.PullRequestMerged(...)\<close> or
  \<^verbatim>\<open>go c.Executor.RunOne(...)\<close>. A build that panics does not come to its end: nothing recovers the
  panic, and the process ends, with every other goroutine.
\<close>

inductive background_step :: "'z site_scheme platform \<Rightarrow> config \<Rightarrow> 'z site_scheme \<Rightarrow> 'z site_scheme \<Rightarrow> bool"
  for pf cfg where
  merge: "e \<in> set (site_merges s) \<Longrightarrow> background_step pf cfg s
     (snd (adapter_PullRequestMerged (automation_config pf cfg) e (s\<lparr>site_merges := remove1 e (site_merges s)\<rparr>)))"
| build: "b \<in> set (site_builds s) \<Longrightarrow>
     RunOne (ci_executor pf cfg) (sp_repository b) (sp_job b) (sp_commit b) (sp_branch b) (sp_command b)
       (s\<lparr>site_builds := remove1 b (site_builds s)\<rparr>) = (Some r, t) \<Longrightarrow> background_step pf cfg s t"

inductive_cases background_stepE: "background_step pf cfg s t"

inductive background_panic :: "'z site_scheme platform \<Rightarrow> config \<Rightarrow> 'z site_scheme \<Rightarrow> 'z site_scheme \<Rightarrow> bool"
  for pf cfg where
  panic: "b \<in> set (site_builds s) \<Longrightarrow>
     RunOne (ci_executor pf cfg) (sp_repository b) (sp_job b) (sp_commit b) (sp_branch b) (sp_command b)
       (s\<lparr>site_builds := remove1 b (site_builds s)\<rparr>) = (None, t) \<Longrightarrow> background_panic pf cfg s t"

text \<open>\<open>n\<close> goroutines run, one after the other.\<close>

inductive background_run :: "'z site_scheme platform \<Rightarrow> config \<Rightarrow> nat \<Rightarrow> 'z site_scheme \<Rightarrow> 'z site_scheme \<Rightarrow> bool"
  for pf cfg where
  idle: "background_run pf cfg 0 s s"
| work: "background_run pf cfg n s t \<Longrightarrow> background_step pf cfg t u \<Longrightarrow> background_run pf cfg (Suc n) s u"

definition goroutines :: "'z site_scheme \<Rightarrow> api_merge_event list \<times> spawned list" where
  "goroutines s = (site_merges s, site_builds s)"

definition work_left :: "'z site_scheme \<Rightarrow> nat" where
  "work_left s = 2 * length (site_merges s) + length (site_builds s)"

definition all_done :: "'z site_scheme \<Rightarrow> bool" where
  "all_done s \<longleftrightarrow> site_merges s = [] \<and> site_builds s = []"

section \<open>What the programs that are run leave alone\<close>

definition process_view ::
  "'z site_scheme \<Rightarrow> string option list \<times> api_merge_event list \<times> spawned list \<times> job_row list" where
  "process_view s = (faults s, site_merges s, site_builds s, t_jobs s)"

text \<open>Calls of the database are consumed in order, and no goroutine is started or lost.\<close>

definition drains :: "'z site_scheme \<Rightarrow> 'z site_scheme \<Rightarrow> bool" where
  "drains s t \<longleftrightarrow> suffix (faults t) (faults s) \<and> goroutines t = goroutines s"

interpretation drains_rel: repository_frame drains
  by unfold_locales
    (auto simp: drains_def goroutines_def steps_def repository_statement_defs intro: suffix_order.trans split: option.split)

lemma drains_marks: "steps drains (MarkRunning j)" "steps drains (MarkFinished j status out code)"
  unfolding job_mark_defs
  by (intro step_rules drains_rel.rel_steps; simp add: steps_def drains_def goroutines_def)+

lemma drains_delivering: "steps drains (deliverWithRetries d hook payload n)"
proof -
  have "steps (same (\<lambda>s. (faults s, goroutines s))) (deliverWithRetries d hook payload n)"
    by (rule deliverWithRetries_same) (simp_all add: goroutines_def tick_def)
  then show ?thesis by (simp add: steps_def same_def drains_def)
qed

interpretation drains_work: automation_frame drains
  by (unfold_locales; (rule drains_marks drains_delivering |
      auto simp: statement_steps drains_def goroutines_def automation_statement_defs split: option.split if_splits))

lemma drains_calm: "drains s t \<Longrightarrow> calm s \<Longrightarrow> calm t"
  by (auto simp: drains_def calm_def)

lemma process_drains: "steps (same process_view) m \<Longrightarrow> steps drains m"
  by (simp add: steps_def same_def drains_def process_view_def goroutines_def)

lemma system_calls_process:
  "steps (same process_view) (os_mkdir_all p1)" "steps (same process_view) (os_write_file p2 d2)"
  "steps (same process_view) (os_rename p3 q3)" "steps (same process_view) (os_stat p4)"
  "steps (same process_view) (os_remove_all p5)" "steps (same process_view) (os_walk p6)"
  "steps (same process_view) (os_mkdir_temp d7 n7)"
  unfolding system_call_defs Let_def
  by (rule steps_syscall_same; auto simp: steps_def same_def process_view_def split: option.split)+

locale quiet_programs =
  fixes pf :: "'z site_scheme platform"
  assumes programs_quiet: "steps (same process_view) (pf_run pf cmd)"

sublocale quiet_programs \<subseteq> work_frame drains pf
  by (unfold_locales; rule process_drains; rule programs_quiet system_calls_process)

lemma process_jobs: "steps (same process_view) m \<Longrightarrow> steps (same t_jobs) m"
  by (simp add: steps_def same_def process_view_def)

sublocale quiet_programs \<subseteq> kept: platform_frame "same t_jobs" pf
  by (unfold_locales; ((rule process_jobs, rule programs_quiet system_calls_process) | simp add: same_def))

lemma RepoPath_jobs: "steps (same t_jobs) (RepoPath rid)"
  unfolding RepoPath_def by (rule steps_pool_same) (auto simp: steps_def same_def stmt_select_path_def split: option.split)

section \<open>One goroutine\<close>

definition finished_job :: "job \<Rightarrow> bool" where
  "finished_job j \<longleftrightarrow> job_status j \<in> {StatusSuccess, StatusFailed} \<and> job_exit_code j \<noteq> None \<and> job_finished j \<noteq> None"

text \<open>Only a commit name shorter than eight bytes makes a build panic.\<close>

lemma Runner_Run_panics:
  assumes "Runner_Run run pid tmp rnd r bare commit branch command s = (run_outcome.Panicked, t)"
  shows "length commit < 8"
proof (rule ccontr)
  assume long: "\<not> length commit < 8"
  have "fst (run_container run pid r dir commit command w) \<noteq> run_outcome.Panicked" for dir w
    using long by (auto simp: run_container_def Let_def run_simps split: prod.split option.split)
  then have "fst (checkout_and_run run pid r dir bare commit branch command w) \<noteq> run_outcome.Panicked" for dir w
    by (auto simp: checkout_and_run_def hostGit_def run_simps split: prod.split option.split)
  then show False
    using assms by (auto simp: Runner_Run_def Let_def run_simps split: prod.splits sum.splits if_splits)
      (metis fst_conv)+
qed

lemma find_updated: "(\<And>j. job_id (f j) = job_id j) \<Longrightarrow> find_job i (update_job i f s) = Some j \<Longrightarrow> \<exists>k. j = f k"
  by (auto simp: find_job_update_same)

lemma RepoPath_calm: "calm s \<Longrightarrow> \<exists>p. RepoPath rid s = (p, s)"
  by (auto simp: RepoPath_def stmt_select_path_def split: option.split)

context quiet_programs
begin

text \<open>The run of a job, told by what the resolution of its repository and its run come to.\<close>

lemma marked_job:
  fixes s w :: "'b site_scheme"
  assumes "t_jobs w = t_jobs (update_job jid (\<lambda>j. j\<lparr>job_status := ''running'', job_started := Some now\<rparr>) s)"
    and "t = update_job jid (\<lambda>j. j\<lparr>job_status := st, job_output := out, job_exit_code := c, job_finished := fin\<rparr>) w"
  shows "find_job jid t = map_option (\<lambda>j. j\<lparr>job_status := st, job_output := out, job_exit_code := c,
      job_started := Some now, job_finished := fin\<rparr>) (find_job jid s)"
    and "k \<noteq> jid \<Longrightarrow> find_job k t = find_job k s"
proof -
  show "k \<noteq> jid \<Longrightarrow> find_job k t = find_job k s"
    using find_job_cong [OF assms(1)] unfolding assms(2) by (simp add: find_job_update_other)
  show "find_job jid t = map_option (\<lambda>j. j\<lparr>job_status := st, job_output := out, job_exit_code := c,
      job_started := Some now, job_finished := fin\<rparr>) (find_job jid s)"
  proof (cases "find_job jid s")
    case None
    then show ?thesis
      using find_job_cong [OF assms(1)] unfolding assms(2) by (simp add: find_job_update_same)
  next
    case (Some j)
    from marked_finished(1) [OF this assms(1,2)] Some show ?thesis by simp
  qed
qed

lemma build_outcome:
  assumes "calm s" and go: "RunOne (ci_executor pf cfg) rid jid commit branch command s = (r, t)"
  defines "s1 \<equiv> update_job jid (\<lambda>j. j\<lparr>job_status := ''running'', job_started := Some (clock s)\<rparr>) s"
  shows "case RepoPath rid s1 of
      (Inl err, _) \<Rightarrow> r = Some (Some err) \<and> find_job jid t = map_option (\<lambda>j. j\<lparr>job_status := StatusFailed,
          job_output := ''resolve repository: '' @ err_text err, job_exit_code := Some (- 1),
          job_started := Some (clock s), job_finished := Some (clock s)\<rparr>) (find_job jid s)
    | (Inr bare, _) \<Rightarrow> (case Runner_Run (pf_run pf) (pf_pid pf) (pf_temp_dir pf) (pf_temp_name pf s1) (ci_runner pf cfg)
          bare commit branch command s1 of
        (Returned result err, w) \<Rightarrow> r = Some err \<and> find_job jid t = map_option (\<lambda>j. j\<lparr>
          job_status := final_status result err, job_output := final_output result err,
          job_exit_code := Some (res_exit_code result),
          job_started := Some (clock s), job_finished := Some (clock w)\<rparr>) (find_job jid s)
      | (run_outcome.Panicked, w) \<Rightarrow> r = None \<and> length commit < 8 \<and> find_job jid t =
          map_option (\<lambda>j. j\<lparr>job_status := StatusRunning, job_started := Some (clock s)\<rparr>) (find_job jid s))"
    (is "?outcome")
    and "k \<noteq> jid \<Longrightarrow> find_job k t = find_job k s"
proof -
  have s1: "calm s1" "clock s1 = clock s"
    using assms(1) unfolding s1_def by (simp, simp add: update_job_def)
  have other: "find_job k s1 = find_job k s" if "k \<noteq> jid" for k
    unfolding s1_def using that by (intro find_job_update_other) simp_all
  have path_is: "exe_repo_path (ci_executor pf cfg) = RepoPath" by (simp add: ci_executor_def)
  let ?run = "Runner_Run (pf_run pf) (pf_pid pf) (pf_temp_dir pf) (pf_temp_name pf s1) (ci_runner pf cfg)"
  have run_is: "exe_run (ci_executor pf cfg) bare commit branch command s1 = ?run bare commit branch command s1" for bare
    by (simp add: ci_executor_def)
  obtain p where p: "RepoPath rid s1 = (p, s1)" using RepoPath_calm [OF s1(1)] by blast
  have all: "?outcome \<and> (k \<noteq> jid \<longrightarrow> find_job k t = find_job k s)" for k
  proof (cases p)
    case (Inl e)
    with RunOne_unresolved [OF assms(1), of "ci_executor pf cfg" rid jid e commit branch command] p go
    have "r = Some (Some e)" and t: "t = update_job jid (\<lambda>j. j\<lparr>job_status := StatusFailed,
        job_output := ''resolve repository: '' @ err_text e, job_exit_code := Some (- 1),
        job_finished := Some (clock s)\<rparr>) s1"
      using s1(2) by (simp_all add: path_is s1_def)
    with marked_job [OF arg_cong [where f = t_jobs, OF s1_def [THEN meta_eq_to_obj_eq]] t] p Inl show ?thesis
      by simp
  next
    case (Inr bare)
    obtain out w where run: "?run bare commit branch command s1 = (out, w)" by (rule prod.exhaust)
    have w: "calm w" "t_jobs w = t_jobs s1"
      using drains_calm [OF stepsE [OF building run] s1(1)] stepsE [OF kept.building run] by (simp_all add: same_def)
    show ?thesis
    proof (cases out)
      case (Returned result err)
      with RunOne_returned [OF assms(1), of "ci_executor pf cfg" rid jid bare commit branch command result err w]
        p Inr run w(1) go
      have "r = Some err" and t: "t = update_job jid (\<lambda>j. j\<lparr>job_status := final_status result err,
          job_output := final_output result err, job_exit_code := Some (res_exit_code result),
          job_finished := Some (clock w)\<rparr>) w"
        by (simp_all add: path_is run_is [unfolded s1_def] s1_def)
      with marked_job [OF w(2) [unfolded s1_def] t] p Inr run Returned show ?thesis by simp
    next
      case Panicked
      then have "r = None" and t: "t = w"
        using go p Inr run
        by (simp_all add: RunOne_def run_simps MarkRunning_calm assms(1) s1_def [symmetric] path_is run_is)
      moreover have "length commit < 8" using Runner_Run_panics run Panicked by blast
      moreover have "find_job jid s1 = map_option (\<lambda>j. j\<lparr>job_status := StatusRunning, job_started := Some (clock s)\<rparr>)
          (find_job jid s)"
        unfolding s1_def StatusRunning_def by (rule find_job_update_same) simp
      ultimately show ?thesis
        using p Inr run Panicked find_job_cong [OF w(2)] other by simp
    qed
  qed
  show ?outcome by (rule all [THEN conjunct1])
  show "k \<noteq> jid \<Longrightarrow> find_job k t = find_job k s" by (rule all [THEN conjunct2, rule_format])
qed

lemma build_result:
  assumes "calm s" and "RunOne (ci_executor pf cfg) rid jid commit branch command s = (Some r, t)"
    and "find_job jid t = Some j"
  shows "finished_job j"
proof -
  let ?s1 = "update_job jid (\<lambda>j. j\<lparr>job_status := ''running'', job_started := Some (clock s)\<rparr>) s"
  note outcome = build_outcome(1) [OF assms(1,2)]
  obtain p u where p: "RepoPath rid ?s1 = (p, u)" by (rule prod.exhaust)
  show ?thesis
  proof (cases p)
    case (Inl err)
    with outcome p assms(3) show ?thesis by (cases "find_job jid s") (auto simp: finished_job_def)
  next
    case (Inr bare)
    obtain out w where run: "Runner_Run (pf_run pf) (pf_pid pf) (pf_temp_dir pf) (pf_temp_name pf ?s1) (ci_runner pf cfg)
        bare commit branch command ?s1 = (out, w)" by (rule prod.exhaust)
    have "\<exists>result err. out = Returned result err \<and> find_job jid t = map_option (\<lambda>j. j\<lparr>
          job_status := final_status result err, job_output := final_output result err,
          job_exit_code := Some (res_exit_code result),
          job_started := Some (clock s), job_finished := Some (clock w)\<rparr>) (find_job jid s)"
      using outcome unfolding p Inr prod.case sum.case run by (cases out) simp_all
    with assms(3) show ?thesis
      by (cases "find_job jid s") (auto simp: finished_job_def final_status_def)
  qed
qed

lemma config_read: "steps (same t_jobs) (readBuildCommand (pf_run pf) bare commit)"
  unfolding readBuildCommand_def by (intro step_rules kept.command_steps)

text \<open>What queueing adds: nothing, or one job and the build of it.\<close>

lemma queueJob_result:
  assumes "queueJob (automation_config pf cfg) rid commit branch kind ref s = (jobs, t)"
  shows "jobs = [] \<and> t_jobs t = t_jobs s \<or>
    (\<exists>b row. jobs = [b] \<and> sp_commit b = commit \<and> sp_job b = job_id (jrow_job row) \<and> t_jobs t = t_jobs s @ [row])"
proof -
  have body: "on_result (RepoPath rid) (\<lambda>err. ret []) (\<lambda>bare. and_then (readBuildCommand (pf_run pf) bare commit) (\<lambda>command.
      if command = [] then ret []
      else on_result (CreateJob rid commit branch kind ref) (\<lambda>err. ret [])
        (\<lambda>job. ret [\<lparr>sp_repository = rid, sp_job = job_id job, sp_commit = commit, sp_branch = branch,
           sp_command = command\<rparr>]))) s = (jobs, t)"
    using assms by (simp add: queueJob_def automation_config_parts)
  show ?thesis
  proof (cases rule: on_resultE [OF body])
    case (1 e u)
    then show ?thesis using stepsE [OF RepoPath_jobs 1(1)] by (simp add: same_def)
  next
    case (2 bare u)
    obtain command w where c: "readBuildCommand (pf_run pf) bare commit u = (command, w)" by (rule prod.exhaust)
    have w: "t_jobs w = t_jobs s"
      using stepsE [OF RepoPath_jobs 2(1)] stepsE [OF config_read c] by (simp add: same_def)
    obtain res v where j: "CreateJob rid commit branch kind ref w = (res, v)" by (rule prod.exhaust)
    then have "(\<exists>e. res = Inl e) \<and> t_jobs v = t_jobs w \<or>
        (\<exists>job row. res = Inr job \<and> job_id job = job_id (jrow_job row) \<and> t_jobs v = t_jobs w @ [row])"
      by (auto simp: CreateJob_def run_simps stmt_insert_job_def next_id_def pool_def
          split: prod.splits sum.splits list.splits option.splits if_splits)
    then show ?thesis using 2(2) c w j by (auto simp: run_simps split: if_splits)
  qed
qed

lemma merge_result:
  assumes "adapter_PullRequestMerged (automation_config pf cfg) e s = (u, t)"
  obtains jobs where "site_merges t = site_merges s" and "site_builds t = site_builds s @ jobs"
    and "suffix (faults t) (faults s)"
    and "jobs = [] \<and> t_jobs t = t_jobs s \<or> (\<exists>b row. jobs = [b] \<and> sp_commit b = am_merge_commit e
      \<and> sp_job b = job_id (jrow_job row) \<and> t_jobs t = t_jobs s @ [row])"
proof -
  let ?e = "\<lparr>me_repository = am_repository e, me_owner = am_owner e, me_name = am_name e,
        me_number = am_number e, me_actor = am_actor e, me_merge_commit = am_merge_commit e,
        me_source_branch = am_source_branch e, me_target_branch = am_target_branch e\<rparr>"
  let ?data = "[(''action'', JStr ''merged''), (''number'', JInt (am_number e)), (''merge_commit'', JStr (am_merge_commit e))]"
  obtain jobs w where run: "PullRequestMerged (automation_config pf cfg) ?e s = (jobs, w)" by (rule prod.exhaust)
  obtain x v where d: "dispatch_if_configured (automation_config pf cfg) (\<lambda>_. False) (am_repository e) EventPullMerge
      (am_owner e @ ''/'' @ am_name e) (am_actor e) ?data s = (x, v)" by (rule prod.exhaust)
  have q: "queueJob (automation_config pf cfg) (am_repository e) (am_merge_commit e) (am_target_branch e)
      ''pull_request'' (int_str (am_number e)) v = (jobs, w)"
    using run d by (simp add: PullRequestMerged_def run_simps)
  have v: "t_jobs v = t_jobs s" using dispatch_view [OF d] by (simp add: push_view_def)
  have "drains s w" by (rule stepsE [OF merge_fanned_out run])
  moreover have "t = w\<lparr>site_builds := site_builds w @ jobs\<rparr>"
    using assms run by (simp add: adapter_PullRequestMerged_def run_simps start_builds_def)
  ultimately show thesis
    using that [of jobs] queueJob_result [OF q] v by (auto simp: drains_def goroutines_def)
qed

end

section \<open>What a run leaves in the table\<close>

text \<open>
  C19: Running a job. When no database call fails and the programs that are run leave the memory
  and the database of the server alone, \<open>RunOne\<close> with the server's executor ends in one of
  three ways. A repository that is not in the table fails the job with exit code -1. When the
  runner returns, the job is finished: success exactly when there was no error and the exit code is
  zero, failed otherwise, with the exit code, the output (the error text where there is no output) and
  both times recorded and the rest of the job unchanged. When the runner panics, which takes a
  commit name of less than eight bytes, the job stays running for good. No other job changes.
\<close>

theorem run_one_records_result:
  fixes pf :: "'z site_scheme platform" and s :: "'z site_scheme"
  assumes "\<And>cmd. steps (same process_view) (pf_run pf cmd)" and "calm s" and "find_job jid s = Some j"
    and "RunOne (ci_executor pf cfg) rid jid commit branch command s = (r, t)"
  shows "(let s1 = update_job jid (\<lambda>j. j\<lparr>job_status := StatusRunning, job_started := Some (clock s)\<rparr>) s in
      case List.find (\<lambda>repo. repo_id repo = rid) (t_repositories s) of
        None \<Rightarrow> r = Some (Some NoRows) \<and> find_job jid t = Some (j\<lparr>job_status := StatusFailed,
            job_output := ''resolve repository: '' @ err_text NoRows, job_exit_code := Some (- 1),
            job_started := Some (clock s), job_finished := Some (clock s)\<rparr>)
      | Some repo \<Rightarrow> (case Runner_Run (pf_run pf) (pf_pid pf) (pf_temp_dir pf) (pf_temp_name pf s1) (ci_runner pf cfg)
            (repo_path repo) commit branch command s1 of
          (Returned result err, w) \<Rightarrow> r = Some err \<and> find_job jid t = Some (j\<lparr>
            job_status := (if err = None \<and> res_exit_code result = 0 then StatusSuccess else StatusFailed),
            job_output := final_output result err, job_exit_code := Some (res_exit_code result),
            job_started := Some (clock s), job_finished := Some (clock w)\<rparr>)
        | (run_outcome.Panicked, w) \<Rightarrow> r = None \<and> length commit < 8 \<and>
            find_job jid t = Some (j\<lparr>job_status := StatusRunning, job_started := Some (clock s)\<rparr>)))
    \<and> (\<forall>k. k \<noteq> jid \<longrightarrow> find_job k t = find_job k s)"
proof -
  have q: "quiet_programs pf" by unfold_locales (rule assms(1))
  let ?s1 = "update_job jid (\<lambda>j. j\<lparr>job_status := ''running'', job_started := Some (clock s)\<rparr>) s"
  have "calm ?s1" "t_repositories ?s1 = t_repositories s" using assms(2) by (simp, simp add: update_job_def)
  then have "RepoPath rid ?s1 = (case List.find (\<lambda>repo. repo_id repo = rid) (t_repositories s) of
      None \<Rightarrow> Inl NoRows | Some repo \<Rightarrow> Inr (repo_path repo), ?s1)"
    by (simp add: RepoPath_def stmt_select_path_def split: option.split)
  then show ?thesis
    using quiet_programs.build_outcome [OF q assms(2,4)] assms(3)
    by (auto simp: final_status_def StatusRunning_def Let_def split: option.splits prod.splits run_outcome.splits)
qed

section \<open>All goroutines\<close>

lemma background_run_first:
  "background_run pf cfg n t u \<Longrightarrow> background_step pf cfg s t \<Longrightarrow> background_run pf cfg (Suc n) s u"
  by (induction rule: background_run.induct) (blast intro: background_run.intros)+

text \<open>As long as something waits, a goroutine can run to its end or panic.\<close>

lemma background_steps_left:
  "(\<exists>t. background_step pf cfg s t) \<or> (\<exists>t. background_panic pf cfg s t) \<longleftrightarrow> \<not> all_done s"
proof
  show "(\<exists>t. background_step pf cfg s t) \<or> (\<exists>t. background_panic pf cfg s t) \<Longrightarrow> \<not> all_done s"
    by (auto elim!: background_stepE background_panic.cases simp: all_done_def)
  show "(\<exists>t. background_step pf cfg s t) \<or> (\<exists>t. background_panic pf cfg s t)" if "\<not> all_done s"
  proof (cases "site_merges s")
    case (Cons e es)
    then have "e \<in> set (site_merges s)" by simp
    from background_step.merge [OF this] show ?thesis by blast
  next
    case Nil
    with that obtain b bs where "site_builds s = b # bs" by (auto simp: all_done_def neq_Nil_conv)
    then have b: "b \<in> set (site_builds s)" by simp
    obtain r t where "RunOne (ci_executor pf cfg) (sp_repository b) (sp_job b) (sp_commit b) (sp_branch b) (sp_command b)
        (s\<lparr>site_builds := remove1 b (site_builds s)\<rparr>) = (r, t)" by (rule prod.exhaust)
    then show ?thesis
      using background_step.build [OF b] background_panic.panic [OF b] by (cases r) blast+
  qed
qed

definition build_pending :: "int \<Rightarrow> 'z site_scheme \<Rightarrow> bool" where
  "build_pending i s \<longleftrightarrow> i \<in> sp_job ` set (site_builds s)"

text \<open>Every commit that waits has a name of eight bytes; and no call of the database is to fail.\<close>

definition long_names :: "'z site_scheme \<Rightarrow> bool" where
  "long_names s \<longleftrightarrow> list_all (\<lambda>b. 8 \<le> length (sp_commit b)) (site_builds s)
     \<and> list_all (\<lambda>e. 8 \<le> length (am_merge_commit e)) (site_merges s)"

definition untroubled :: "'z site_scheme \<Rightarrow> bool" where
  "untroubled s \<longleftrightarrow> calm s \<and> long_names s"

text \<open>Only a commit name shorter than eight bytes makes the process panic.\<close>

lemma RunOne_panics:
  assumes "RunOne (ci_executor pf cfg) rid jid commit branch command s = (None, t)"
  shows "length commit < 8"
proof -
  obtain bare u w where "exe_run (ci_executor pf cfg) bare commit branch command u = (run_outcome.Panicked, w)"
    using assms unfolding RunOne_def Let_def
    by (auto simp: run_simps split: prod.splits sum.splits run_outcome.splits if_splits)
  then show ?thesis by (auto simp: ci_executor_def dest: Runner_Run_panics)
qed

lemma background_panic_short:
  "background_panic pf cfg s t \<Longrightarrow> \<exists>b\<in>set (site_builds s). length (sp_commit b) < 8"
  by (auto elim!: background_panic.cases dest: RunOne_panics)

lemma find_job_snoc:
  assumes "t_jobs t = t_jobs s @ [row]" and "find_job i t = Some j"
  shows "find_job i s = Some j \<or> i = job_id (jrow_job row)"
  using assms by (auto simp: find_job_def find_append split: option.splits if_splits)

context quiet_programs
begin

lemma step_cases:
  assumes "background_step pf cfg s t"
  obtains (merge) e jobs where "e \<in> set (site_merges s)" "site_merges t = remove1 e (site_merges s)"
      "site_builds t = site_builds s @ jobs" "suffix (faults t) (faults s)"
      "jobs = [] \<and> t_jobs t = t_jobs s \<or> (\<exists>b row. jobs = [b] \<and> sp_commit b = am_merge_commit e
        \<and> sp_job b = job_id (jrow_job row) \<and> t_jobs t = t_jobs s @ [row])"
  | (build) b u r where "b \<in> set (site_builds s)" "u = s\<lparr>site_builds := remove1 b (site_builds s)\<rparr>"
      "RunOne (ci_executor pf cfg) (sp_repository b) (sp_job b) (sp_commit b) (sp_branch b) (sp_command b) u = (Some r, t)"
      "site_merges t = site_merges s" "site_builds t = remove1 b (site_builds s)" "suffix (faults t) (faults s)"
  using assms
proof (cases rule: background_step.cases)
  case (merge e)
  obtain u where run: "adapter_PullRequestMerged (automation_config pf cfg) e (s\<lparr>site_merges := remove1 e (site_merges s)\<rparr>) = (u, t)"
    using merge(1) by (metis prod.collapse)
  show thesis by (rule merge_result [OF run]) (rule that(1) [OF merge(2)], simp_all)
next
  case (build b r)
  from stepsE [OF builds build(2)] show thesis
    by (intro that(2) [OF build(1) refl build(2)]) (simp_all add: drains_def goroutines_def)
qed

lemma step_decreases:
  assumes "background_step pf cfg s t"
  shows "work_left t < work_left s"
proof (cases rule: step_cases [OF assms])
  case (1 e jobs)
  then have "Suc (length (site_merges t)) = length (site_merges s)" "length jobs \<le> 1"
    using length_pos_if_in_set [OF 1(1)] by (auto simp: length_remove1)
  with 1(3) show ?thesis by (simp add: work_left_def)
next
  case (2 b u r)
  then have "Suc (length (site_builds t)) = length (site_builds s)"
    using length_pos_if_in_set [OF 2(1)] by (auto simp: length_remove1)
  with 2(4) show ?thesis by (simp add: work_left_def)
qed

lemma run_bounded: "background_run pf cfg n s t \<Longrightarrow> n + work_left t \<le> work_left s"
  by (induction rule: background_run.induct) (use step_decreases in fastforce)+

lemma run_completes:
  "\<exists>n t. background_run pf cfg n s t \<and> (all_done t \<or> (\<exists>u. background_panic pf cfg t u))"
proof (induction "work_left s" arbitrary: s rule: less_induct)
  case less
  show ?case
  proof (cases "all_done s \<or> (\<exists>u. background_panic pf cfg s u)")
    case True
    then show ?thesis by (blast intro: background_run.idle)
  next
    case False
    then obtain u where u: "background_step pf cfg s u" using background_steps_left by blast
    from less [OF step_decreases [OF u]] background_run_first [OF _ u] show ?thesis by blast
  qed
qed

lemma step_long_names:
  assumes "background_step pf cfg s t" and "long_names s"
  shows "long_names t"
proof (cases rule: step_cases [OF assms(1)])
  case (1 e jobs)
  then show ?thesis
    using assms(2) by (auto simp: long_names_def list_all_iff dest: notin_set_remove1 set_remove1_subset [THEN subsetD])
next
  case (2 b u r)
  then show ?thesis
    using assms(2) by (auto simp: long_names_def list_all_iff dest: set_remove1_subset [THEN subsetD])
qed

lemma step_untroubled:
  assumes "background_step pf cfg s t" and "untroubled s"
  shows "untroubled t"
proof -
  have "suffix (faults t) (faults s)" by (rule step_cases [OF assms(1)]) simp_all
  then show ?thesis using step_long_names [OF assms(1)] assms(2) by (auto simp: untroubled_def calm_def)
qed

lemma run_completes_long:
  assumes "long_names s"
  shows "\<exists>n t. background_run pf cfg n s t \<and> all_done t"
proof -
  obtain n t where run: "background_run pf cfg n s t" "all_done t \<or> (\<exists>u. background_panic pf cfg t u)"
    using run_completes by blast
  from run(1) assms have "long_names t" by (induction rule: background_run.induct) (auto intro: step_long_names)
  then have "\<not> (\<exists>u. background_panic pf cfg t u)"
    by (auto simp: long_names_def list_all_iff dest!: background_panic_short)
  with run show ?thesis by blast
qed

lemma step_jobs:
  assumes "background_step pf cfg s t" and "untroubled s" and j: "find_job i t = Some j"
  shows "finished_job j \<or> build_pending i t \<or> find_job i s = Some j \<and> \<not> build_pending i s"
proof (cases rule: step_cases [OF assms(1)])
  case (1 e jobs)
  then consider "jobs = []" "find_job i s = Some j" | b where "jobs = [b]" "find_job i s = Some j \<or> i = sp_job b"
    using j find_job_cong [of t s i] find_job_snoc [of t s _ i j] by auto
  then show ?thesis using 1(3) by cases (auto simp: build_pending_def)
next
  case (2 b u r)
  have u: "calm u" "find_job i u = find_job i s"
    using 2(1,2) assms(2) by (auto simp: untroubled_def calm_def intro: find_job_cong)
  show ?thesis
  proof (cases "i = sp_job b")
    case True
    then show ?thesis using build_result [OF u(1) 2(3)] j by blast
  next
    case False
    then have "find_job i s = Some j" using build_outcome(2) [OF u(1) 2(3)] j u(2) by simp
    moreover have "build_pending i t" if "build_pending i s"
    proof -
      from that obtain c where c: "c \<in> set (site_builds s)" "i = sp_job c" by (auto simp: build_pending_def)
      with False have "c \<noteq> b" by auto
      then have "c \<in> set (site_builds t)" using c(1) 2(5) by simp
      then show ?thesis using c(2) by (auto simp: build_pending_def)
    qed
    ultimately show ?thesis by blast
  qed
qed

lemma run_jobs:
  assumes "background_run pf cfg n s t" and "untroubled s"
  shows "untroubled t \<and> (\<forall>i j. find_job i t = Some j \<longrightarrow>
    finished_job j \<or> build_pending i t \<or> find_job i s = Some j \<and> \<not> build_pending i s)"
  using assms
proof (induction rule: background_run.induct)
  case (work n s t u)
  then have t: "untroubled t" by blast
  show ?case
    using step_untroubled [OF work(2) t] step_jobs [OF work(2) t] work.IH work.prems by blast
qed auto

end

section \<open>The work ends\<close>

text \<open>
  C8: The background work ends. Whatever the database, git, docker and the receivers of webhooks do, and in
  whatever order the goroutines run: a merge event starts at most one build and a build starts
  nothing, so at most twice as many goroutines run as merge events are waiting, and one for each
  build. As long as something waits, a goroutine can run to its end, or it panics and the process
  ends; a panic takes a build whose commit has a name of less than eight bytes. So from every
  point the work can be completed or comes to such a panic, and when all commits that wait have
  names of at least eight bytes it can be completed. When moreover no call of the database fails,
  then with the work done every job in the table is finished, with a final status, an exit code and a
  time, unless it was already without a build before. The programs that are run are relied on
  not to touch the memory or the database of the server.
\<close>

theorem background_work_ends:
  fixes pf :: "'z site_scheme platform"
  assumes "\<And>cmd. steps (same process_view) (pf_run pf cmd)" and "background_run pf cfg n s t"
  shows "n + work_left t \<le> 2 * length (site_merges s) + length (site_builds s)
    \<and> ((\<exists>u. background_step pf cfg t u) \<or> (\<exists>u. background_panic pf cfg t u) \<longleftrightarrow> \<not> all_done t)
    \<and> ((\<exists>u. background_panic pf cfg t u) \<longrightarrow> (\<exists>b\<in>set (site_builds t). length (sp_commit b) < 8))
    \<and> (\<exists>m u. background_run pf cfg m t u \<and> (all_done u \<or> (\<exists>v. background_panic pf cfg u v)))
    \<and> (long_names t \<longrightarrow> (\<exists>m u. background_run pf cfg m t u \<and> all_done u))
    \<and> (untroubled s \<and> all_done t \<longrightarrow> (\<forall>i j. find_job i t = Some j \<longrightarrow>
        finished_job j \<or> find_job i s = Some j \<and> \<not> build_pending i s))"
proof -
  have q: "quiet_programs pf" by unfold_locales (rule assms(1))
  have "\<not> build_pending i t" if "all_done t" for i
    using that by (simp add: all_done_def build_pending_def)
  then have "untroubled s \<and> all_done t \<longrightarrow> (\<forall>i j. find_job i t = Some j \<longrightarrow>
        finished_job j \<or> find_job i s = Some j \<and> \<not> build_pending i s)"
    using quiet_programs.run_jobs [OF q assms(2)] by blast
  then show ?thesis
    using quiet_programs.run_bounded [OF q assms(2)] background_steps_left [of pf cfg t] background_panic_short [of pf cfg t]
      quiet_programs.run_completes [OF q, of cfg t] quiet_programs.run_completes_long [OF q, of t cfg]
    unfolding work_left_def by blast
qed

definition building_site :: site where
  "building_site = busy_site\<lparr>
     t_jobs := [\<lparr>jrow_repo = 3, jrow_job = queued_job 5 ''c0ffee42'' ''main'' ''push'' [] 0\<rparr>],
     site_builds := [\<lparr>sp_repository = 3, sp_job = 5, sp_commit = ''c0ffee42'', sp_branch = ''main'', sp_command = ''make''\<rparr>]\<rparr>"

theorem run_one_records_result_witness:
  "map_option (\<lambda>j. (job_status j, job_output j, job_exit_code j)) (find_job 5 (snd
      (RunOne (ci_executor pushing_platform demo_config) 3 5 ''c0ffee42'' ''main'' ''make'' building_site)))
   = Some (StatusFailed, ''runner error: runner image not configured'', Some 0)
   \<and> map_option job_exit_code (find_job 5 (snd
      (RunOne (ci_executor pushing_platform demo_config) 4 5 ''c0ffee42'' ''main'' ''make'' building_site)))
   = Some (Some (- 1))"
proof -
  have quiet: "steps (same process_view) (pf_run pushing_platform cmd)" for cmd
    by (simp add: pushing_platform_def step_rules)
  have s: "calm building_site" "find_job 5 building_site = Some (queued_job 5 ''c0ffee42'' ''main'' ''push'' [] 0)"
    by (simp_all add: calm_def find_job_def queued_job_def building_site_def busy_site_def site_defs)
  have repos: "\<exists>repo. List.find (\<lambda>repo. repo_id repo = 3) (t_repositories building_site) = Some repo"
    "List.find (\<lambda>repo. repo_id repo = 4) (t_repositories building_site) = None"
    by (simp_all add: building_site_def busy_site_def site_defs)
  have image: "run_image (ci_runner pushing_platform demo_config) = []"
    by (simp add: ci_runner_def pushing_platform_def demo_platform_def getenv_def)
  obtain r1 t1 where 1: "RunOne (ci_executor pushing_platform demo_config) 3 5 ''c0ffee42'' ''main'' ''make'' building_site = (r1, t1)"
    by (rule prod.exhaust)
  obtain r2 t2 where 2: "RunOne (ci_executor pushing_platform demo_config) 4 5 ''c0ffee42'' ''main'' ''make'' building_site = (r2, t2)"
    by (rule prod.exhaust)
  from run_one_records_result [OF quiet s 1] run_one_records_result [OF quiet s 2] repos 1 2 show ?thesis
    by (auto simp: Runner_Run_def image ret_apply no_result_def final_output_def)
qed

theorem background_work_ends_witness:
  "\<exists>t. background_run pushing_platform demo_config 1 building_site t \<and> all_done t
     \<and> \<not> (\<exists>j. find_job 5 t = Some j \<and> \<not> finished_job j)"
proof -
  have quiet: "steps (same process_view) (pf_run pushing_platform cmd)" for cmd
    by (simp add: pushing_platform_def step_rules)
  have "work_left building_site = 1" "long_names building_site"
    by (simp_all add: work_left_def long_names_def building_site_def busy_site_def site_defs)
  then have "\<not> all_done building_site" "\<not> (\<exists>t. background_panic pushing_platform demo_config building_site t)"
    by (auto simp: work_left_def all_done_def long_names_def list_all_iff dest!: background_panic_short)
  then obtain t where "background_step pushing_platform demo_config building_site t"
    using background_steps_left by blast
  then have run: "background_run pushing_platform demo_config 1 building_site t"
    using background_run.work [OF background_run.idle] by fastforce
  have s: "work_left building_site = 1" "untroubled building_site" "build_pending 5 building_site"
    by (simp_all add: work_left_def untroubled_def long_names_def calm_def build_pending_def building_site_def busy_site_def site_defs)
  note ends = background_work_ends [OF quiet run, folded work_left_def]
  then have "all_done t" using s(1) by (simp add: work_left_def all_done_def)
  then have "\<not> (\<exists>j. find_job 5 t = Some j \<and> \<not> finished_job j)" using ends s(2,3) by blast
  with run \<open>all_done t\<close> show ?thesis by blast
qed

end
