(* ===== verification/Histories.thy ===== *)
theory Histories
  imports Chain Background
begin

text \<open>
  The server over time: requests, the goroutines they start, and the passing of time, in any
  order and with any failures. A request and a goroutine each run as one step. Shown: in every
  state the server can reach from a sound database the tables are sound, no pull request was lost
  or altered against its state machine, and the audit log has only grown.
\<close>

section \<open>Relations on the tables\<close>

definition tables :: "'z db_scheme \<Rightarrow> _" where
  "tables s = ((t_users s, t_sessions s, t_repositories s, t_permissions s, t_issues s, t_pulls s, t_comments s,
     t_reviews s), (t_protections s, t_hooks s, t_deliveries s, t_jobs s, t_secrets s, t_audit s, next_ids s))"

text \<open>A relation that only looks at the tables, on a platform whose programs leave them alone.\<close>

locale table_relation = state_relation R for R :: "'z site_scheme \<Rightarrow> 'z site_scheme \<Rightarrow> bool" +
  fixes pf :: "'z site_scheme platform"
  assumes tables_only: "tables s = tables t \<Longrightarrow> R s t"
  and programs: "steps (same tables) (pf_run pf cmd)" "steps (same tables) (pf_spawn pf cmd)"
begin

lemma off_tables: "steps (same tables) m \<Longrightarrow> steps R m"
  by (simp add: steps_def same_def tables_only)

end

lemma system_calls_off_tables:
  "steps (same tables) (os_mkdir_all p1)" "steps (same tables) (os_write_file p2 d2)"
  "steps (same tables) (os_rename p3 q3)" "steps (same tables) (os_stat p4)" "steps (same tables) (os_remove_all p5)"
  "steps (same tables) (os_walk p6)" "steps (same tables) (os_mkdir_temp d7 n7)"
  unfolding system_call_defs Let_def
  by (rule steps_syscall_same; auto simp: steps_def same_def tables_def split: option.split)+

lemma delivering_off_tables: "steps (same tables) (deliverWithRetries d hook payload n)"
  by (rule deliverWithRetries_same) (simp_all add: tables_def tick_def)

lemma header_writes_off_tables:
  "steps (same tables) (set_header k1 v1)" "steps (same tables) (add_header k2 v2)" "steps (same tables) (del_header k3)"
  "steps (same tables) (write_header code4)"
  by (auto simp: steps_def same_def tables_def set_header_def add_header_def del_header_def write_header_def modify_state_def)

lemma body_off_tables: "steps (same tables) (write_body data)"
  unfolding write_body_def
  by (intro step_rules header_writes_off_tables)
    (auto simp: steps_def same_def tables_def modify_state_def split: option.split)

lemma respond_off_tables: "steps (same tables) (respond code data)"
  unfolding respond_def
  by (intro steps_unless_panic same_rel.state_relation_axioms step_rules header_writes_off_tables body_off_tables)

lemma answers_off_tables:
  "steps (same tables) (writeJSON code1 json)" "steps (same tables) (setSessionCookie token expires)"
  "steps (same tables) clearSessionCookie" "steps (same tables) (http_error msg code4)"
  "steps (same tables) (redirect_to target r)" "steps (same tables) (challenge msg6)"
  unfolding writeJSON_def setSessionCookie_def clearSessionCookie_def http_error_def redirect_to_def challenge_def
  by (intro step_rules header_writes_off_tables respond_off_tables)+

sublocale table_relation \<subseteq> platform_frame R pf
  by (unfold_locales; ((rule off_tables, rule programs system_calls_off_tables) | simp add: tables_only tables_def))

sublocale table_relation \<subseteq> repository_frame R
  by (unfold_locales; rule steps_readonly; simp add: repository_statement_defs split: option.split)

context table_relation
begin

lemma readings:
  "steps R (stmt_select_role a1 b1)" "steps R (stmt_select_user a2)" "steps R (stmt_select_session a3)"
  "steps R (stmt_select_user_id a4)" "steps R (stmt_list_issues a5 b5)" "steps R (stmt_select_issue a6 b6)"
  "steps R (stmt_list_comments a7 b7 c7)" "steps R (stmt_list_pulls a8 b8)" "steps R (stmt_select_pull a9 b9)"
  "steps R (stmt_list_reviews a10 b10)" "steps R (stmt_select_protection a11 b11)"
  by (rule steps_readonly; simp add: account_statement_defs collab_statement_defs split: option.split)+

lemma account_lookups:
  "steps R (Authenticate a1 b1 c1)" "steps R (UserForToken a2 b2)" "steps R (UserForID a3)" "steps R (GetProfile a4)"
  "steps R (RoleFor a5 b5)"
  unfolding Authenticate_def UserForToken_def UserForID_def GetProfile_def RoleFor_def Let_def
  by (intro step_rules rel_steps readings)+

lemma collab_lookups:
  "steps R (GetPullRequest a1 b1)" "steps R (GetBranchProtection a2 b2)" "steps R (ListReviews a3 b3)"
  "steps R (ListIssues a4 b4)" "steps R (GetIssue a5 b5)" "steps R (ListComments a6 b6 c6)"
  "steps R (ListPullRequests a7 b7)"
  unfolding GetPullRequest_def GetBranchProtection_def ListReviews_def ListIssues_def GetIssue_def ListComments_def
    ListPullRequests_def Let_def
  by (intro step_rules rel_steps readings)+

lemma merge_lookup: "steps R (EvaluateMerge rid n)"
  unfolding EvaluateMerge_def Let_def by (intro step_rules rel_steps collab_lookups)

end

text \<open>A relation that holds whenever a part \<open>f\<close> of the tables stays the same, and who leaves it alone.\<close>

locale view_relation = table_relation R pf
  for R :: "'z site_scheme \<Rightarrow> 'z site_scheme \<Rightarrow> bool" and pf :: "'z site_scheme platform" +
  fixes f :: "'z site_scheme \<Rightarrow> 'f"
  assumes viewed: "f s = f t \<Longrightarrow> R s t"
begin

lemma by_view: "steps (same f) m \<Longrightarrow> steps R m"
  by (simp add: steps_def same_def viewed)

end

locale apart_from_accounts = view_relation R pf f + off_accounts f
  for R :: "'z site_scheme \<Rightarrow> 'z site_scheme \<Rightarrow> bool" and pf and f :: "'z site_scheme \<Rightarrow> 'f"

sublocale apart_from_accounts \<subseteq> by_accounts: account_frame R
  by (unfold_locales; (rule by_view, rule unseen.account_statements))

locale apart_from_collab = view_relation R pf f + off_collab f
  for R :: "'z site_scheme \<Rightarrow> 'z site_scheme \<Rightarrow> bool" and pf and f :: "'z site_scheme \<Rightarrow> 'f"

sublocale apart_from_collab \<subseteq> by_collab: collab_frame R
  by (unfold_locales; (rule by_view, rule unseen.collab_statements))

locale apart_from_automation = view_relation R pf f + off_automation f
  for R :: "'z site_scheme \<Rightarrow> 'z site_scheme \<Rightarrow> bool" and pf and f :: "'z site_scheme \<Rightarrow> 'f"

sublocale apart_from_automation \<subseteq> by_automation: event_frame R pf
  by (unfold_locales; ((rule by_view, rule unseen.automation_statements unseen.job_marks unseen.delivering) | simp add: tables_only tables_def))

section \<open>The collaboration tables\<close>

definition collab_view :: "'z db_scheme \<Rightarrow> _" where
  "collab_view s = (t_issues s, t_pulls s, t_comments s, t_reviews s, t_protections s, t_repositories s,
     next_ids s T_pull_requests)"

lemma collab_viewed: "collab_view s = collab_view t \<Longrightarrow> keeps collab_wf s t"
  unfolding keeps_def collab_view_def by (intro impI, rule collab_wf_cong) simp_all

lemma repository_added_collab: "steps (keeps collab_wf) (stmt_insert_repository owner name p)"
  by (rule stepsI)
    (auto simp: keeps_def stmt_insert_repository_def and_then_apply next_id_def Let_def collab_wf_defs)

text \<open>The programs of the platform know nothing of the database.\<close>

locale detached =
  fixes pf :: "'z site_scheme platform"
  assumes off_database: "steps (same tables) (pf_run pf cmd)" "steps (same tables) (pf_spawn pf cmd)"

sublocale detached \<subseteq> collab: table_relation "keeps collab_wf" pf
  by (unfold_locales; (rule off_database collab_viewed)?) (simp_all add: tables_def collab_view_def)

sublocale detached \<subseteq> collab: apart_from_accounts "keeps collab_wf" pf collab_view
  by unfold_locales (simp_all add: collab_viewed collab_view_def)

sublocale detached \<subseteq> collab: apart_from_automation "keeps collab_wf" pf collab_view
  by unfold_locales (auto simp: collab_view_def tick_def)

sublocale detached \<subseteq> collab: creation_frame "keeps collab_wf" pf
  by unfold_locales (rule repository_added_collab)

sublocale detached \<subseteq> collab: served "keeps collab_wf" pf cfg for cfg
  by (unfold_locales;
      (rule collab.by_accounts.account_operations collab_op_wf collab.collab_lookups collab.merge_lookup
          collab.by_automation.automation_operations collab.by_automation.events collab.creation collab.lookups collab.git_reads collab.merging
          collab.backing_up
        | rule collab.off_tables, rule answers_off_tables header_writes_off_tables
        | simp add: steps_def modify_state_def collab.tables_only tables_def))

section \<open>Accounts, sessions and grants\<close>

definition auth_view :: "'z db_scheme \<Rightarrow> _" where
  "auth_view s = (t_users s, t_sessions s, t_permissions s, t_repositories s, next_ids s T_users)"

lemma auth_viewed: "auth_view s = auth_view t \<Longrightarrow> keeps auth_wf s t"
  by (simp add: keeps_def auth_view_def auth_wf_defs)

lemma repository_added_auth: "steps (keeps auth_wf) (stmt_insert_repository owner name p)"
  by (rule stepsI)
    (auto simp: keeps_def stmt_insert_repository_def and_then_apply next_id_def Let_def auth_wf_defs)

sublocale detached \<subseteq> auth: table_relation "keeps auth_wf" pf
  by (unfold_locales; (rule off_database auth_viewed)?) (simp_all add: tables_def auth_view_def)

sublocale detached \<subseteq> auth: apart_from_collab "keeps auth_wf" pf auth_view
  by unfold_locales (auto simp: auth_viewed auth_view_def)

sublocale detached \<subseteq> auth: apart_from_automation "keeps auth_wf" pf auth_view
  by unfold_locales (auto simp: auth_view_def tick_def)

sublocale detached \<subseteq> auth: creation_frame "keeps auth_wf" pf
  by unfold_locales (rule repository_added_auth)

lemmas auth_op_wf = CreateUser_auth_wf StartSession_auth_wf EndSession_auth_wf UpdateProfile_auth_wf Grant_auth_wf

sublocale detached \<subseteq> auth: served "keeps auth_wf" pf cfg for cfg
  by (unfold_locales;
      (rule auth_op_wf auth.account_lookups auth.by_collab.collab_operations auth.collab_lookups
          auth.by_automation.automation_operations auth.by_automation.events auth.creation auth.lookups auth.git_reads
          auth.merging auth.backing_up
        | rule auth.off_tables, rule answers_off_tables header_writes_off_tables
        | simp add: steps_def modify_state_def auth.tables_only tables_def))

section \<open>Repositories\<close>

definition repos_view :: "'z db_scheme \<Rightarrow> _" where
  "repos_view s = (t_repositories s, next_ids s T_repositories)"

lemma repos_viewed: "repos_view s = repos_view t \<Longrightarrow> keeps (repos_wf dir) s t"
  by (simp add: keeps_def repos_view_def repos_wf_def)

sublocale detached \<subseteq> repos: table_relation "keeps (repos_wf dir)" pf for dir
  by (unfold_locales; (rule off_database repos_viewed)?) (simp_all add: tables_def repos_view_def)

sublocale detached \<subseteq> repos: apart_from_accounts "keeps (repos_wf dir)" pf repos_view for dir
  by unfold_locales (auto simp: repos_viewed repos_view_def)

sublocale detached \<subseteq> repos: apart_from_collab "keeps (repos_wf dir)" pf repos_view for dir
  by unfold_locales (auto simp: repos_view_def)

sublocale detached \<subseteq> repos: apart_from_automation "keeps (repos_wf dir)" pf repos_view for dir
  by unfold_locales (auto simp: repos_view_def tick_def)

lemma repository_service_eq: "repository_service pf cfg = repo_service (cfg_repository_root cfg) (InitBare (pf_run pf))"
  by (simp add: repository_service_def repo_service_def)

context detached
begin

lemma creation_keeps_repositories:
  "steps (keeps (repos_wf (cfg_repository_root cfg))) (Service_Create (repository_service pf cfg) input)"
  unfolding repository_service_eq by (rule Service_Create_repos_wf) (rule repos.init_steps)

end

sublocale detached \<subseteq> repos: served "keeps (repos_wf (cfg_repository_root cfg))" pf cfg for cfg
  by (unfold_locales;
      (rule repos.by_accounts.account_operations repos.by_collab.collab_operations repos.collab_lookups
          repos.by_automation.automation_operations repos.by_automation.events creation_keeps_repositories
          repos.lookups repos.git_reads repos.merging repos.backing_up
        | rule repos.off_tables, rule answers_off_tables header_writes_off_tables
        | simp add: steps_def modify_state_def repos.tables_only tables_def))

section \<open>Webhooks, builds and secrets\<close>

text \<open>
  Hooks have ids of their own and a repository, every delivery belongs to a hook, the jobs have
  ids of their own, a repository and a known status, and a name stands for one secret of a
  repository.
\<close>

definition hooks_wf :: "'z db_scheme \<Rightarrow> bool" where
  "hooks_wf s \<longleftrightarrow>
     distinct (map (\<lambda>r. hook_id (hrow_hook r)) (t_hooks s)) \<and>
     (\<forall>r\<in>set (t_hooks s). hook_id (hrow_hook r) < next_ids s T_webhooks \<and> repo_exists s (hrow_repo r)) \<and>
     (\<forall>d\<in>set (t_deliveries s). dlv_webhook (drow_delivery d) \<in> (\<lambda>r. hook_id (hrow_hook r)) ` set (t_hooks s))"

definition job_states :: "string set" where
  "job_states = {''queued'', ''running'', ''success'', ''failed''}"

definition jobs_wf :: "'z db_scheme \<Rightarrow> bool" where
  "jobs_wf s \<longleftrightarrow>
     distinct (map (\<lambda>r. job_id (jrow_job r)) (t_jobs s)) \<and>
     (\<forall>r\<in>set (t_jobs s). job_id (jrow_job r) < next_ids s T_jobs \<and> repo_exists s (jrow_repo r)
        \<and> job_status (jrow_job r) \<in> job_states)"

definition secrets_wf :: "'z db_scheme \<Rightarrow> bool" where
  "secrets_wf s \<longleftrightarrow>
     distinct (map (\<lambda>r. (sec_repo r, sec_name r)) (t_secrets s)) \<and>
     (\<forall>r\<in>set (t_secrets s). repo_exists s (sec_repo r))"

definition automation_wf :: "'z db_scheme \<Rightarrow> bool" where
  "automation_wf s \<longleftrightarrow> hooks_wf s \<and> jobs_wf s \<and> secrets_wf s"

lemmas automation_wf_defs = automation_wf_def hooks_wf_def jobs_wf_def secrets_wf_def repo_exists_def

definition automation_view :: "'z db_scheme \<Rightarrow> _" where
  "automation_view s = (t_hooks s, t_deliveries s, t_jobs s, t_secrets s, t_repositories s,
     next_ids s T_webhooks, next_ids s T_jobs)"

lemma automation_viewed: "automation_view s = automation_view t \<Longrightarrow> keeps automation_wf s t"
  by (simp add: keeps_def automation_view_def automation_wf_defs)

lemma repository_added_automation: "steps (keeps automation_wf) (stmt_insert_repository owner name p)"
  by (rule stepsI)
    (auto simp: keeps_def stmt_insert_repository_def and_then_apply next_id_def Let_def automation_wf_defs)

lemma hook_statements_wf:
  "steps (keeps automation_wf) (stmt_insert_hook a1 b1 c1 d1)"
  "steps (keeps automation_wf) (stmt_insert_delivery a2 b2 c2 d2 e2)"
  by (rule stepsI; force simp: keeps_def stmt_insert_hook_def stmt_insert_delivery_def and_then_apply next_id_def
      Let_def automation_wf_defs)+

lemma delete_hook_wf: "steps (keeps automation_wf) (stmt_delete_hook rid hid)"
proof (rule stepsI)
  fix s :: "'a db_scheme"
  let ?hit = "\<lambda>r. hrow_repo r = rid \<and> hook_id (hrow_hook r) = hid"
  have "hooks_wf (snd (stmt_delete_hook rid hid s))" if "hooks_wf s"
    using that by (auto simp: hooks_wf_def stmt_delete_hook_def Let_def delete_rows_def repo_exists_def
        filter_empty_conv intro!: distinct_map_filter)
  then show "keeps automation_wf s (snd (stmt_delete_hook rid hid s))"
    by (auto simp: keeps_def automation_wf_def jobs_wf_def secrets_wf_def repo_exists_def stmt_delete_hook_def Let_def)
qed

lemma job_statements_wf: "steps (keeps automation_wf) (stmt_insert_job a1 b1 c1 d1 e1)"
  by (rule stepsI)
    (force simp: keeps_def stmt_insert_job_def and_then_apply next_id_def Let_def automation_wf_defs job_states_def)

lemma upsert_secret_wf: "steps (keeps automation_wf) (stmt_upsert_secret rid name ciphertext nonce)"
proof (rule stepsI)
  fix s :: "'a db_scheme"
  let ?rows = "upsert_row (Secrets.secret_key rid name) (\<lambda>r. r\<lparr>sec_ciphertext := ciphertext, sec_nonce := nonce\<rparr>)
    \<lparr>sec_repo = rid, sec_name = name, sec_ciphertext = ciphertext, sec_nonce = nonce, sec_created = clock s\<rparr> (t_secrets s)"
  have "distinct (map (\<lambda>r. (sec_repo r, sec_name r)) ?rows)" if "secrets_wf s"
    by (rule distinct_map_upsert_row) (use that in \<open>auto simp: secrets_wf_def Secrets.secret_key_def\<close>)
  moreover have "\<forall>r\<in>set ?rows. repo_exists s (sec_repo r)" if "secrets_wf s" "repo_exists s rid"
    using that by (auto simp: secrets_wf_def upsert_row_def set_update_rows)
  ultimately show "keeps automation_wf s (snd (stmt_upsert_secret rid name ciphertext nonce s))"
    by (auto simp: keeps_def stmt_upsert_secret_def and_then_apply next_id_def automation_wf_defs)
qed

lemma secret_statements_wf:
  "steps (keeps automation_wf) (stmt_delete_secret a1 b1)"
  "steps (keeps automation_wf) (stmt_insert_audit a2 b2 c2 d2 e2)"
  by (rule stepsI; auto simp: keeps_def stmt_delete_secret_def stmt_insert_audit_def and_then_apply next_id_def
      automation_wf_defs distinct_map_delete_rows)+

lemma update_job_wf:
  assumes "\<And>j. job_id (g j) = job_id j" and "\<And>j. job_status (g j) \<in> job_states"
  shows "keeps automation_wf s (update_job jid g s)"
proof -
  have "map (\<lambda>r. job_id (jrow_job r)) (t_jobs (update_job jid g s)) = map (\<lambda>r. job_id (jrow_job r)) (t_jobs s)"
    using assms(1) by (simp add: update_job_def map_update_rows)
  moreover have "repo_exists (update_job jid g s) = repo_exists s" by (simp add: repo_exists_def fun_eq_iff update_job_def)
  ultimately have "jobs_wf (update_job jid g s)" if "jobs_wf s"
    using that assms by (auto simp: jobs_wf_def update_job_def set_update_rows)
  then show ?thesis
    by (auto simp: keeps_def automation_wf_def hooks_wf_def secrets_wf_def repo_exists_def update_job_def)
qed

sublocale detached \<subseteq> automation: table_relation "keeps automation_wf" pf
  by (unfold_locales; (rule off_database automation_viewed)?) (simp_all add: tables_def automation_view_def)

lemma job_marks_wf:
  "steps (keeps automation_wf) (MarkRunning j)"
  "steps (keeps automation_wf) (MarkFinished j status out code)"
  unfolding MarkRunning_def MarkFinished_def
  by (intro step_rules steps_pool_keeps; auto simp: steps_def update_job_wf job_states_def StatusSuccess_def StatusFailed_def
      automation_wf_defs)+

sublocale detached \<subseteq> automation: event_frame "keeps automation_wf" pf
  by (unfold_locales;
      (rule hook_statements_wf delete_hook_wf job_statements_wf upsert_secret_wf secret_statements_wf job_marks_wf
        | rule automation.off_tables, rule delivering_off_tables
        | rule automation.steps_readonly, simp add: automation_statement_defs
        | simp add: automation.tables_only tables_def))

sublocale detached \<subseteq> automation: apart_from_accounts "keeps automation_wf" pf automation_view
  by unfold_locales (auto simp: automation_viewed automation_view_def)

sublocale detached \<subseteq> automation: apart_from_collab "keeps automation_wf" pf automation_view
  by unfold_locales (auto simp: automation_view_def)

sublocale detached \<subseteq> automation: creation_frame "keeps automation_wf" pf
  by unfold_locales (rule repository_added_automation)

sublocale detached \<subseteq> automation: served "keeps automation_wf" pf cfg for cfg
  by (unfold_locales;
      (rule automation.by_accounts.account_operations automation.by_collab.collab_operations automation.collab_lookups
          automation.automation_operations automation.events automation.creation automation.lookups
          automation.git_reads automation.merging automation.backing_up
        | rule automation.off_tables, rule answers_off_tables header_writes_off_tables
        | simp add: steps_def modify_state_def automation.tables_only tables_def))

section \<open>What stays: pull requests and the audit log\<close>

sublocale detached \<subseteq> pulls: table_relation pulls_evolve pf
  by (unfold_locales; (rule off_database pulls_evolve_same)?) (simp_all add: tables_def)

sublocale detached \<subseteq> pulls: apart_from_accounts pulls_evolve pf t_pulls
  by unfold_locales (simp_all add: pulls_evolve_same)

sublocale detached \<subseteq> pulls: apart_from_automation pulls_evolve pf t_pulls
  by unfold_locales (simp_all add: tick_def)

sublocale detached \<subseteq> pulls: creation_frame pulls_evolve pf
  by unfold_locales
    (auto simp: steps_def stmt_insert_repository_def and_then_apply next_id_def Let_def intro: pulls_evolve_same)

sublocale detached \<subseteq> pulls: served pulls_evolve pf cfg for cfg
  by (unfold_locales;
      (rule pulls.by_accounts.account_operations collab_ops_evolve pulls.collab_lookups pulls.merge_lookup
          pulls.by_automation.automation_operations pulls.by_automation.events pulls.creation pulls.lookups
          pulls.git_reads pulls.merging pulls.backing_up
        | rule pulls.off_tables, rule answers_off_tables header_writes_off_tables
        | simp add: steps_def modify_state_def pulls.tables_only tables_def))

definition audit_grows :: "'z db_scheme \<Rightarrow> 'z db_scheme \<Rightarrow> bool" where
  "audit_grows s t \<longleftrightarrow> (\<exists>new. t_audit t = t_audit s @ new)"

interpretation audit_rel: state_relation audit_grows
  by unfold_locales (auto simp: audit_grows_def)

lemma audit_same: "t_audit s = t_audit t \<Longrightarrow> audit_grows s t"
  by (simp add: audit_grows_def)

sublocale detached \<subseteq> audit: table_relation audit_grows pf
  by (unfold_locales; (rule off_database audit_same)?) (simp_all add: tables_def)

sublocale detached \<subseteq> audit: apart_from_accounts audit_grows pf t_audit
  by unfold_locales (simp_all add: audit_same)

sublocale detached \<subseteq> audit: apart_from_collab audit_grows pf t_audit
  by unfold_locales simp_all

sublocale detached \<subseteq> audit: creation_frame audit_grows pf
  by unfold_locales
    (auto simp: steps_def stmt_insert_repository_def and_then_apply next_id_def Let_def audit_grows_def)

lemma job_marks_audit:
  "steps audit_grows (MarkRunning j)" "steps audit_grows (MarkFinished j status out code)"
  unfolding job_mark_defs
  by (auto simp: steps_def pool_def audit_grows_def Let_def ret_def split: list.splits option.splits)

sublocale detached \<subseteq> audit: event_frame audit_grows pf
  by (unfold_locales; (rule job_marks_audit | rule audit.off_tables, rule delivering_off_tables
        | auto simp: steps_def automation_statement_defs and_then_apply next_id_def Let_def audit_grows_def))

sublocale detached \<subseteq> audit: served audit_grows pf cfg for cfg
  by (unfold_locales;
      (rule audit.by_accounts.account_operations audit.by_collab.collab_operations audit.collab_lookups
          audit.automation_operations audit.events audit.creation audit.lookups audit.git_reads audit.merging
          audit.backing_up
        | rule audit.off_tables, rule answers_off_tables header_writes_off_tables
        | simp add: steps_def modify_state_def audit.tables_only tables_def))

section \<open>The whole server\<close>

locale whole = served R pf cfg + event_frame R pf + table_relation R pf
  for R :: "'z site_scheme \<Rightarrow> 'z site_scheme \<Rightarrow> bool" and pf :: "'z site_scheme platform" and cfg :: config
begin

lemma panic_steps: "steps R m \<Longrightarrow> steps R k \<Longrightarrow> steps R (unless_panic m k)"
  by (rule steps_unless_panic [OF state_relation_axioms])

lemma plain_answers:
  "steps R (respond code1 data1)" "steps R (set_header k2 v2)" "steps R (challenge msg3)" "steps R (parseCGIResponse out4)"
proof -
  show respond: "steps R (respond code data)" for code data by (rule off_tables) (rule respond_off_tables)
  show "steps R (set_header k2 v2)" by (rule off_tables) (rule header_writes_off_tables)
  show "steps R (challenge msg3)" by (rule off_tables) (rule answers_off_tables)
  have "steps R (modify_state (\<lambda>s. s\<lparr>rw_header := h s\<rparr>))" for h
    by (simp add: steps_def modify_state_def tables_only tables_def)
  then show "steps R (parseCGIResponse out4)"
    unfolding parseCGIResponse_def by (intro step_rules base_steps answers respond)
qed

lemma git_backend: "steps R (Handler_ServeHTTP (git_backend_of pf cfg) r)"
proof -
  have "steps R (gb_spawn (git_backend_of pf cfg) cmd)" for cmd
    by (rule off_tables) (simp add: git_backend_of_def programs)
  moreover have run: "steps R (case v of Pipe_failed \<Rightarrow> a | Start_failed e \<Rightarrow> b e | Ran out err \<Rightarrow> c out err)"
    if "steps R a" "\<And>e. steps R (b e)" "\<And>out err. steps R (c out err)"
    for v and a :: "('z site_scheme, flow) st" and b c
    using that by (cases v) auto
  ultimately show ?thesis
    unfolding Handler_ServeHTTP_def Let_def
    by (intro step_rules base_steps run answers plain_answers panic_steps)
qed

lemma git_handler: "steps R (gitHandler pf cfg r)"
proof -
  have "steps R (az_authenticate (bridge pf) username password)" for username password
    by (simp add: bridge_def authenticate_func_def) (intro base_steps accounts)
  moreover have "steps R (az_check_access (bridge pf) uid owner repo access)" for uid owner repo access
    by (simp add: bridge_def check_access_func_def) (intro step_rules base_steps lookups account_lookups)
  ultimately show ?thesis
    unfolding gitHandler_def AuthHandler_ServeHTTP_def Let_def
    by (intro step_rules base_steps answers plain_answers git_backend)
qed

lemma behind_middleware: "steps R (hardened pf cfg r)"
proof -
  have inner: "steps R (inner_handler pf cfg q)" for q
    unfolding inner_handler_def by (intro step_rules git_handler api_handler)
  have "steps R (take_token key)" for key
    by (auto simp: steps_def take_token_def tables_only tables_def split: prod.split)
  then have limited: "steps R (Limiter_Middleware (inner_handler pf cfg) q)" for q
    unfolding Limiter_Middleware_def by (intro step_rules base_steps plain_answers inner)
  have "steps R (AccessLog True (Limiter_Middleware (inner_handler pf cfg)) q)" for q
    unfolding AccessLog_def
    by (intro base_steps panic_steps limited) (simp add: steps_def modify_state_def tables_only tables_def)
  moreover have by_flow: "steps R (case f of Finished \<Rightarrow> a | flow.Panicked \<Rightarrow> b)"
    if "steps R a" "steps R b" for f and a b :: "('z site_scheme, flow) st"
    using that by (cases f) auto
  ultimately have "steps R (Recovery (AccessLog True (Limiter_Middleware (inner_handler pf cfg))) q)" for q
    unfolding Recovery_def by (intro base_steps by_flow plain_answers)
  moreover have "steps R (set_headers hs)" for hs
    by (simp add: steps_def set_headers_simps tables_only tables_def)
  ultimately show ?thesis
    unfolding hardened_def Chain_foldr SecureHeaders_def RequestID_def
    by (simp, intro base_steps plain_answers)
qed

lemma server: "steps R (server_handler pf cfg r)"
  unfolding server_handler_def Let_def
  by (intro step_rules base_steps answers git_handler behind_middleware)

end

section \<open>Histories\<close>

text \<open>
  One step of the process: a request on a fresh connection, with whatever the database, the disk
  and the network have in store for it; a goroutine; time; a restart, which loses the goroutines
  not yet run and the rate limiter; and the crash by a build that panics, followed by one.
\<close>

definition restarted :: "int \<Rightarrow> 'z site_scheme \<Rightarrow> 'z site_scheme" where
  "restarted now s = s\<lparr>site_merges := [], site_builds := [], edge_limiter := NewRateLimiter 120 2 now\<rparr>"

definition connection ::
  "string option list \<Rightarrow> string option list \<Rightarrow> (goerr + reply) list \<Rightarrow> 'z conn_scheme \<Rightarrow> 'z conn_scheme" where
  "connection fs ios replies s = s\<lparr>faults := fs, io_faults := ios, answers := replies, rw_header := [],
     rw_status := None, rw_sent := [], rw_body := []\<rparr>"

inductive server_step :: "'z site_scheme platform \<Rightarrow> config \<Rightarrow> 'z site_scheme \<Rightarrow> 'z site_scheme \<Rightarrow> bool"
  for pf cfg where
  request: "server_step pf cfg s (snd (server_handler pf cfg r (connection fs ios replies s)))"
| goroutine: "background_step pf cfg s t \<Longrightarrow> server_step pf cfg s t"
| time: "0 \<le> d \<Longrightarrow> server_step pf cfg s (tick d s)"
| restart: "server_step pf cfg s (restarted now s)"
| crash: "background_panic pf cfg s t \<Longrightarrow> server_step pf cfg s (restarted now t)"

inductive server_history :: "'z site_scheme platform \<Rightarrow> config \<Rightarrow> 'z site_scheme \<Rightarrow> 'z site_scheme \<Rightarrow> bool"
  for pf cfg s where
  here: "server_history pf cfg s s"
| later: "server_history pf cfg s t \<Longrightarrow> server_step pf cfg t u \<Longrightarrow> server_history pf cfg s u"

inductive_cases server_stepE: "server_step pf cfg s t"

context whole
begin

lemma step_related:
  assumes "server_step pf cfg s t"
  shows "R s t"
proof -
  have after: "tables s = tables u \<Longrightarrow> steps R m \<Longrightarrow> R s (snd (m u))" for m :: "('z site_scheme, 'x) st" and u
    by (rule R_trans, erule tables_only, erule stepsD)
  have off: "tables s = tables (connection fs ios replies s)" "tables s = tables (restarted now s)"
    "tables s = tables (s\<lparr>site_merges := ms\<rparr>)" "tables s = tables (s\<lparr>site_builds := bs'\<rparr>)" "tables s = tables (tick d s)"
    for fs ios replies ms bs' d now s
    by (simp_all add: tables_def connection_def restarted_def tick_def)
  have built: "R s t" if "RunOne (ci_executor pf cfg) rid jid commit branch command (s\<lparr>site_builds := bs'\<rparr>) = (r, t)"
    for rid jid commit branch command bs' r t
    using after [OF off(4) builds] that by (metis snd_conv)
  from assms show ?thesis
  proof (rule server_stepE)
    fix r fs ios replies
    assume "t = snd (server_handler pf cfg r (connection fs ios replies s))"
    then show ?thesis using after [OF off(1) server] by simp
  next
    assume "background_step pf cfg s t"
    then show ?thesis
    proof (cases rule: background_step.cases)
      case (merge e)
      then show ?thesis using after [OF off(3) events(2)] by simp
    next
      case (build b r)
      show ?thesis by (rule built [OF build(2)])
    qed
  next
    fix u now
    assume panic: "background_panic pf cfg s u" and t: "t = restarted now u"
    have "R s u" using panic by (cases rule: background_panic.cases) (rule built, assumption)
    then show ?thesis unfolding t using tables_only [OF off(2)] R_trans by blast
  qed (simp_all add: tables_only [OF off(2)] tables_only [OF off(5)])
qed

lemma history_related: "server_history pf cfg s t \<Longrightarrow> R s t"
  by (induction rule: server_history.induct) (blast intro: R_refl R_trans step_related)+

end

sublocale detached \<subseteq> collab: whole "keeps collab_wf" pf cfg for cfg
  by unfold_locales

sublocale detached \<subseteq> auth: whole "keeps auth_wf" pf cfg for cfg
  by unfold_locales

sublocale detached \<subseteq> repos: whole "keeps (repos_wf (cfg_repository_root cfg))" pf cfg for cfg
  by unfold_locales

sublocale detached \<subseteq> automation: whole "keeps automation_wf" pf cfg for cfg
  by unfold_locales

sublocale detached \<subseteq> pulls: whole pulls_evolve pf cfg for cfg
  by unfold_locales

sublocale detached \<subseteq> audit: whole audit_grows pf cfg for cfg
  by unfold_locales

context detached
begin

lemma history_steps:
  assumes "server_history pf cfg s t"
  shows "keeps auth_wf s t" "keeps (repos_wf (cfg_repository_root cfg)) s t" "keeps collab_wf s t"
    "keeps automation_wf s t" "pulls_evolve s t" "audit_grows s t"
  using assms auth.history_related repos.history_related collab.history_related automation.history_related
    pulls.history_related audit.history_related by blast+

end

text \<open>What the schema and the checks of the program promise of the database.\<close>

definition tables_sound :: "config \<Rightarrow> 'z db_scheme \<Rightarrow> bool" where
  "tables_sound cfg s \<longleftrightarrow>
     auth_wf s \<and> repos_wf (cfg_repository_root cfg) s \<and> collab_wf s \<and> automation_wf s"

lemma empty_tables_sound: "tables_sound cfg empty_site"
  by (simp add: tables_sound_def auth_wf_defs repos_wf_def collab_wf_defs automation_wf_defs dense_def site_defs)

interpretation demo_detached: detached "demo_platform :: 'z site_scheme platform"
  by unfold_locales (simp_all add: demo_platform_def step_rules)

text \<open>
  C1: The life of the server. Whatever requests it serves over HTTP and git, whatever goroutines
  these start, in any order, with any call of the database, the disk, git, docker or a webhook
  failing and the process restarting: if the tables were sound they are sound in every state
  reached. Ids, names, grants, sessions, rules, reviews, hooks, jobs and secrets are unique
  where they should be, refer to what exists and hold known values; issues and pull requests are
  numbered without gaps. Between any two states no pull request is lost, renumbered or changed
  but by settling it once, and the audit log is only appended to. git and docker are relied on not to write to the database.
\<close>

theorem server_keeps_tables_sound:
  fixes pf :: "'z site_scheme platform"
  assumes "\<And>cmd. steps (same tables) (pf_run pf cmd)" and "\<And>cmd. steps (same tables) (pf_spawn pf cmd)"
    and "server_history pf cfg s t" and "tables_sound cfg s"
  shows "tables_sound cfg t \<and> pulls_evolve s t \<and> audit_grows s t"
proof -
  have d: "detached pf" by unfold_locales (rule assms(1,2))+
  show ?thesis
    using detached.history_steps [OF d assms(3)] assms(4) by (simp add: tables_sound_def keeps_def)
qed

theorem server_keeps_tables_sound_witness:
  "tables_sound demo_config (snd (server_handler demo_platform demo_config (request_for ''POST'' ''/api/v1/register'')
     (connection [None, Some ''timeout''] [] [] (tick 5 (empty_site :: site)))))"
proof -
  let ?pf = "demo_platform :: site platform"
  have run: "steps (same tables) (pf_run ?pf cmd)" "steps (same tables) (pf_spawn ?pf cmd)" for cmd
    by (simp_all add: demo_platform_def step_rules)
  have "server_history ?pf demo_config empty_site (snd (server_handler ?pf demo_config (request_for ''POST'' ''/api/v1/register'')
     (connection [None, Some ''timeout''] [] [] (tick 5 empty_site))))"
    by (rule server_history.later, rule server_history.later, rule server_history.here)
      (rule server_step.time [where d = 5], simp, rule server_step.request)
  from server_keeps_tables_sound [OF run this empty_tables_sound] show ?thesis by blast
qed

end
