(* ===== verification/Spec2Isabelle.thy ===== *)
theory Spec2Isabelle
  imports Prelude Go_Strings Schema Keyed_Store Auth Files Exec Storage Repos Collab Json Webhooks
    CI Automation AuditLog Secrets Calendar Backup MergeSvc Float64 RateLimit GitData Http
    Middleware GitServe HttpApi ApiRoutes ApiCollab ApiRouter Database Server GitAccess Serving Scanning
    Frames Handlers Chain Histories Answers Pushes
begin

text \<open>
  \<^bold>\<open>GitCastle.\<close> A self-hosted git server in Go. \<open>cmd/gitcastle/main.go\<close> reads the configuration from
  the environment, opens a pool of PostgreSQL connections, applies the migrations, and serves HTTP:
  paths below \<open>/git/\<close> go to \<open>git http-backend\<close> behind a password check and a role check, all
  others pass a chain of middlewares (security headers, request ids, panic recovery, access log,
  rate limit) to the JSON API. The API works on stores over PostgreSQL (accounts and sessions,
  repositories, issues and pull requests, webhooks, build jobs, secrets, the audit log), on bare
  repositories on disk through git commands, and on backups in an object store. A merge or a push
  starts goroutines that deliver webhooks and queue container builds.

  \<^bold>\<open>How the program is modelled.\<close> An operation with effects is a function from the state to a result
  and the next state; an error is the left summand of the result, a panic of a handler is the value
  \<open>flow.Panicked\<close> and of a build the outcome \<open>run_outcome.Panicked\<close>. The combinators (\<open>on_result\<close> for
  \<^verbatim>\<open>if err != nil\<close>) are in theory Prelude. The state is a record that grows with the layers: \<open>db\<close>
  (Schema: a table per \<open>CREATE TABLE\<close>, identity sequences, the clock, and the list of failures the
  connection pool will hit), \<open>host\<close> (Files: directory tree and failing system calls), \<open>net\<close> (Json: outgoing
  requests, those made to follow redirects, and the answers all of them will get), \<open>conn\<close> (Http: the response being written), \<open>edge\<close> (Middleware: rate limiter and access
  log), \<open>site\<close> (HttpApi: goroutines started). An operation is stated over any extension of the record it needs. Each SQL
  statement is one atomic function \<open>stmt_...\<close>; \<open>pool\<close> runs it unless the next entry of \<open>faults\<close> says it
  fails. So a theorem over all states covers every pattern of database and disk failures in which a failed call
  has had no effect; a reply lost after its statement ran is not covered. Text that PostgreSQL refuses to store (NUL,
  invalid UTF-8) counts as such a failure.

  Strings are byte strings. Numbers that cannot overflow in the source are \<open>int\<close>; 64-bit parsing, 32-bit
  columns, int64 conversions and the float64 of the rate limiter have their bounds and rounding written out.

  \<^bold>\<open>Parameters.\<close> What is not in the repository is the record \<open>platform\<close> of theory Server: the command runner (git,
  docker, \<open>git http-backend\<close>), randomness, bcrypt, SHA-256, HMAC, AES-GCM, URL parsing, rendering of times,
  JSON decoding of stored details, when the client of a request is gone, the redirect text of net/http. Theorems name what they rely on of these
  (that git does not write to the database, that the cipher opens what it sealed under a key, ...);
  \<open>demo_platform\<close> instantiates all of them for the witnesses.

  \<^bold>\<open>Where each part is.\<close>
  \<^item> Go_Strings, Calendar, Float64, Json, Exec, Files, Http: the standard library as far as the program uses it.
  \<^item> Keyed_Store: the contract that grants, protection rules, secrets and stored objects share, interpreted by each.
  \<^item> Auth (\<open>internal/auth\<close>), Repos (\<open>internal/repos\<close>), Collab (\<open>internal/collab\<close>), Webhooks (\<open>internal/webhooks\<close>),
    CI (\<open>internal/ci\<close>), Automation (\<open>internal/automation\<close>), AuditLog (\<open>internal/audit\<close>), Secrets (\<open>internal/secrets\<close>),
    Storage (\<open>internal/storage\<close>), Backup (\<open>internal/backup\<close>), MergeSvc (\<open>internal/mergesvc\<close>), GitData (\<open>internal/gitdata\<close>),
    GitServe (\<open>internal/gitserve\<close>), RateLimit and Middleware (\<open>internal/middleware\<close>), Database (\<open>internal/database\<close>,
    \<open>internal/config\<close>), Scanning (\<open>internal/scanning\<close>): one theory per package, definitions under their Go names.
  \<^item> HttpApi, ApiRoutes, ApiCollab, ApiRouter (\<open>internal/httpapi\<close>): interfaces and rendering, the routes, the router
    with the patterns of net/http.
  \<^item> Server (\<open>cmd/gitcastle\<close>): which store stands behind which interface, the adapters, the chain, the outer router,
    the start and the end of the process.
  \<^item> GitAccess, Serving, Pushes, Answers, Chain, Background, Histories: properties that span components. Frames and Handlers carry them: Frames
    lifts a relation between states from statements, system calls and commands to the operations of each package,
    Handlers from the operations to every route (locale \<open>served\<close>). Chain instantiates the relation with the headers
    of the response, Histories with the soundness of the tables, the evolution of pull requests and the growth of the log.

  \<^bold>\<open>What is shown.\<close>
  \<^item> Invariants: every table stays sound in every state the server can reach (Histories), the collaboration tables under any
    failing calls (Collab), nothing is served before every migration is applied, and an interrupted one resumes (Database, Server),
    the audit log is append-only.
  \<^item> Meaning of operations: the merge decision, the life of a pull request, merging and sessions as a client of the
    API sees them, a merge also when other requests change the tables while git runs (Serving), registering and
    logging in, what the run of a build leaves in the table of jobs (Background), pushes, backups, the deliveries an
    event causes for given answers of the receivers, redirects included (Webhooks), the history of a
    repository as git prints it (GitData), the scan for credentials.
  \<^item> Refinement: grants, secrets and objects are finite maps under any sequence of writes and removals.
  \<^item> Equivalence: the limiter with its sweep is one token bucket per client, the merge service is its script of five
    commands, a scan reports what the language of a pattern contains.
  \<^item> Confinement: object keys and repository names stay in their directories, builds in their container, words of the
    installed hook in their quotes, CGI answers arrive unchanged, previews hide the secret, every answer of the
    middleware chain is hardened (the redirects of the outer router and the git handler are outside it).
  \<^item> Access: which routes need a session, that git serves the repository it authorised when the decoded path is clean, and three theorems about where access control
    is weaker than intended (a push needs the role read only, an escaped slash skips the check, the API
    consults no role).

  \<^bold>\<open>Bounds and termination.\<close> No definition uses fuel: loops are structural recursion or have a measure. The retry loop counts
    down the attempts left (\<open>nat maxRetries\<close>), \<open>split\<close>, \<open>runes\<close> and \<open>find_all\<close> consume their text, the calendar
    subtracts years from a day count. The goroutines of the server end: a merge event starts at most one build and a
    build nothing; a build whose commit name has fewer than eight bytes panics and ends the process (Background). A call
    of the HTTP client makes at most ten requests (\<open>hops 9\<close> after the first), as net/http does.

  \<^bold>\<open>Not modelled.\<close> The listener of net/http, a parameter of \<open>main_program\<close> with the way it ends; log lines; cancellation of contexts, apart from the
  dispatcher's, which is that of the request for pushes (\<open>pf_client_gone\<close>; elsewhere it shows as failing calls); the interleaving of concurrent requests within a handler (a request or a goroutine is one step, its statements are atomic
  and may each fail), apart from a merge, during which other requests may be served; time-outs of git and docker, which are outcomes of the runner; the SQL server beyond the statements the stores
  send; the React frontend, the deployment files and the tests, which hold no part of the server's logic.
\<close>

end
